(* ===== verification/Prelude.thy ===== *)
theory Prelude
  imports Main "HOL-Library.Word"
begin

text \<open>
  Shared vocabulary of the development: bytes, C integers, the SQLite result codes the VFS returns,
  byte arrays that are read and written by offset (the model of a local file and of a malloc'ed
  buffer), and the named collections of facts the component theories feed to the simplifier.

  C's \<^verbatim>\<open>int\<close> and \<^verbatim>\<open>sqlite3_int64\<close> are HOL integers. Where the source narrows a value with a cast
  \<^verbatim>\<open>(int)\<close> the model applies \<open>c_int\<close>; where it relies on the sign of a doubled 64-bit value it applies
  \<open>c_int64\<close>. C's division truncates towards zero and is \<open>c_div\<close>/\<open>c_mod\<close>.
\<close>

unbundle bit_operations_syntax

named_theorems posix_simps \<open>behaviour of the local file system calls when no fault is injected\<close>
named_theorems bitmap_simps \<open>how the bitmap operations act on the set of pages\<close>
named_theorems file_simps \<open>unfolding of the small helpers on the per-file record\<close>

section \<open>Bytes and C integers\<close>

type_synonym byte = "8 word"
type_synonym bytes = "byte list"

definition c_int :: "int \<Rightarrow> int" where
  "c_int x = signed_take_bit 31 x"

definition c_int64 :: "int \<Rightarrow> int" where
  "c_int64 x = signed_take_bit 63 x"

definition c_div :: "int \<Rightarrow> int \<Rightarrow> int" where
  "c_div a b = sgn a * sgn b * (\<bar>a\<bar> div \<bar>b\<bar>)"

definition c_mod :: "int \<Rightarrow> int \<Rightarrow> int" where
  "c_mod a b = a - b * c_div a b"

lemma c_int_id [simp]: "0 \<le> x \<Longrightarrow> x < 2147483648 \<Longrightarrow> c_int x = x"
  by (simp add: c_int_def signed_take_bit_int_eq_self)

lemma c_int64_id: "0 \<le> x \<Longrightarrow> x < 9223372036854775808 \<Longrightarrow> c_int64 x = x"
  by (simp add: c_int64_def signed_take_bit_int_eq_self)

lemma c_div_nonneg [simp]: "0 \<le> a \<Longrightarrow> 0 < b \<Longrightarrow> c_div a b = a div b"
  by (cases "a = 0") (simp_all add: c_div_def)

lemma c_mod_nonneg [simp]: "0 \<le> a \<Longrightarrow> 0 < b \<Longrightarrow> c_mod a b = a mod b"
  by (simp add: c_mod_def minus_mult_div_eq_mod)

lemma c_int_range: "- 2147483648 \<le> c_int x \<and> c_int x < 2147483648"
  unfolding c_int_def
  using signed_take_bit_int_greater_eq_minus_exp [of 31 x] signed_take_bit_int_less_exp [of 31 x]
  by simp

section \<open>SQLite constants\<close>

text \<open>The result codes the VFS returns. \<open>UB_NULL_CALL\<close> is not a result code: it marks the paths on which
  the C code would call through a \<^verbatim>\<open>NULL\<close> function pointer, so that a theorem can rule them out.\<close>

datatype sqlite_rc =
    SQLITE_OK | SQLITE_ERROR | SQLITE_BUSY | SQLITE_NOMEM | SQLITE_IOERR | SQLITE_NOTFOUND
  | SQLITE_CANTOPEN | SQLITE_IOERR_READ | SQLITE_IOERR_SHORT_READ | SQLITE_IOERR_WRITE
  | SQLITE_IOERR_FSYNC | SQLITE_IOERR_TRUNCATE | SQLITE_IOERR_DELETE | SQLITE_IOERR_LOCK
  | UB_NULL_CALL

definition SQLITE_LOCK_NONE :: int where [simp]: "SQLITE_LOCK_NONE = 0"
definition SQLITE_LOCK_SHARED :: int where [simp]: "SQLITE_LOCK_SHARED = 1"
definition SQLITE_LOCK_RESERVED :: int where [simp]: "SQLITE_LOCK_RESERVED = 2"
definition SQLITE_LOCK_PENDING :: int where [simp]: "SQLITE_LOCK_PENDING = 3"
definition SQLITE_LOCK_EXCLUSIVE :: int where [simp]: "SQLITE_LOCK_EXCLUSIVE = 4"

section \<open>Byte arrays read and written by offset\<close>

text \<open>
  \<open>zpad n c\<close> extends \<open>c\<close> with zero bytes to at least \<open>n\<close> bytes; \<open>put c k d\<close> is \<open>c\<close> after \<open>d\<close> was stored
  at offset \<open>k\<close> (a hole between the old end and \<open>k\<close> reads as zeros, as POSIX prescribes);
  \<open>bslice c k n\<close> are the at most \<open>n\<close> bytes at offset \<open>k\<close>.
\<close>

definition zpad :: "nat \<Rightarrow> bytes \<Rightarrow> bytes" where
  "zpad n c = c @ replicate (n - length c) 0"

definition put :: "bytes \<Rightarrow> nat \<Rightarrow> bytes \<Rightarrow> bytes" where
  "put c k d = take k (zpad k c) @ d @ drop (k + length d) c"

definition bslice :: "bytes \<Rightarrow> nat \<Rightarrow> nat \<Rightarrow> bytes" where
  "bslice c k n = take n (drop k c)"

text \<open>The byte at an offset, zero outside the array: the view in which arrays of different
  allocated size are compared.\<close>

definition byte_at :: "bytes \<Rightarrow> nat \<Rightarrow> byte" where
  "byte_at c i = (if i < length c then c ! i else 0)"

lemma length_zpad [simp]: "length (zpad n c) = max n (length c)"
  by (simp add: zpad_def)

lemma length_put [simp]: "length (put c k d) = max (length c) (k + length d)"
  by (simp add: put_def)

lemma length_bslice [simp]: "length (bslice c k n) = min n (length c - k)"
  by (simp add: bslice_def)

lemma byte_at_nth: "i < length c \<Longrightarrow> byte_at c i = c ! i"
  by (simp add: byte_at_def)

lemma byte_at_out: "length c \<le> i \<Longrightarrow> byte_at c i = 0"
  by (simp add: byte_at_def)

lemma byte_at_Nil [simp]: "byte_at [] i = 0"
  by (simp add: byte_at_def)

lemma byte_at_zpad [simp]: "byte_at (zpad n c) i = byte_at c i"
  by (auto simp: byte_at_def zpad_def nth_append)

lemma byte_at_append:
  "byte_at (a @ b) i = (if i < length a then a ! i else byte_at b (i - length a))"
  by (auto simp: byte_at_def nth_append)

lemma byte_at_append_at:
  "byte_at (a @ b) i = (if i < length a then byte_at a i else byte_at b (i - length a))"
  by (auto simp: byte_at_def nth_append)

lemma byte_at_replicate0 [simp]: "byte_at (replicate n 0) i = 0"
  by (simp add: byte_at_def)

lemma byte_at_take: "byte_at (take n c) i = (if i < n then byte_at c i else 0)"
  by (auto simp: byte_at_def)

lemma byte_at_drop: "byte_at (drop n c) i = byte_at c (n + i)"
  by (auto simp: byte_at_def)

lemma byte_at_put:
  "byte_at (put c k d) i =
     (if k \<le> i \<and> i < k + length d then d ! (i - k) else byte_at c i)"
proof (cases "i < k")
  case True
  then have "byte_at (put c k d) i = byte_at (zpad k c) i"
    by (simp add: put_def byte_at_append) (simp add: byte_at_def zpad_def nth_append)
  with True show ?thesis by simp
next
  case False
  then show ?thesis
    by (auto simp: put_def byte_at_append byte_at_drop)
qed

lemma byte_at_bslice: "byte_at (bslice c k n) i = (if i < n then byte_at c (k + i) else 0)"
  by (simp add: bslice_def byte_at_take byte_at_drop)

lemma nth_eq_byte_at: "i < length c \<Longrightarrow> c ! i = byte_at c i"
  by (simp add: byte_at_def)

lemma bytes_eqI:
  assumes "length a = length b" and "\<And>i. i < length a \<Longrightarrow> byte_at a i = byte_at b i"
  shows "a = b"
  using assms by (intro nth_equalityI) (auto simp: byte_at_def)

text \<open>A read of a buffer of \<open>n\<close> bytes that got only \<open>d\<close> and zero-filled the rest.\<close>

definition zero_fill :: "nat \<Rightarrow> bytes \<Rightarrow> bytes" where
  "zero_fill n d = take n d @ replicate (n - length d) 0"

lemma length_zero_fill [simp]: "length (zero_fill n d) = n"
  by (simp add: zero_fill_def)

lemma nth_zero_fill: "i < n \<Longrightarrow> zero_fill n d ! i = byte_at d i"
  by (auto simp: zero_fill_def nth_append byte_at_def)

lemma byte_at_zero_fill: "byte_at (zero_fill n d) i = (if i < n then byte_at d i else 0)"
  by (simp add: byte_at_def [of "zero_fill n d"] nth_zero_fill)

lemma zero_fill_exact [simp]: "length d = n \<Longrightarrow> zero_fill n d = d"
  by (simp add: zero_fill_def)

lemma zero_fill_Nil: "zero_fill n [] = replicate n 0"
  by (simp add: zero_fill_def)

text \<open>Storing \<open>d\<close> into a zero-filled or padded array and reading it back.\<close>

lemma bslice_put_same: "bslice (put c k d) k (length d) = d"
  by (rule bytes_eqI) (auto simp: byte_at_bslice byte_at_put byte_at_nth)

lemma bslice_put_disjoint:
  assumes "k + n \<le> j \<or> j + length d \<le> k" and "k + n \<le> length c"
  shows "bslice (put c j d) k n = bslice c k n"
  using assms by (intro bytes_eqI) (auto simp: byte_at_bslice byte_at_put)

end
