(* ===== verification/Azure_Ops.thy ===== *)
theory Azure_Ops
  imports Prelude
begin

text \<open>
  The data types of \<^verbatim>\<open>azure_client.h\<close>: the error codes, the error record every operation fills in,
  page ranges and diff ranges, and \<open>azure_ops\<close>, the vtable through which the VFS reaches Azure.

  An entry of the vtable is \<^term>\<open>None\<close> where the C pointer is \<^verbatim>\<open>NULL\<close>. The state behind the opaque
  context pointer is the type variable \<open>'w\<close>: an operation takes it and returns it changed, with the
  error code, the \<^verbatim>\<open>azure_error_t\<close> it leaves and its other outputs. Every caller passes an error record
  just initialised, so operations do not take one in. An output the C code leaves untouched is the value the caller
  put there before the call.
\<close>

datatype azure_err =
    AZURE_OK | AZURE_ERR_NOT_FOUND | AZURE_ERR_CONFLICT | AZURE_ERR_PRECONDITION
  | AZURE_ERR_THROTTLED | AZURE_ERR_AUTH | AZURE_ERR_BAD_REQUEST | AZURE_ERR_SERVER
  | AZURE_ERR_NETWORK | AZURE_ERR_LEASE_EXPIRED | AZURE_ERR_NOMEM | AZURE_ERR_INVALID_ARG
  | AZURE_ERR_IO | AZURE_ERR_TIMEOUT | AZURE_ERR_ALIGNMENT | AZURE_ERR_UNKNOWN

record azure_error =
  err_code :: azure_err
  err_http_status :: int
  err_error_code :: string
  err_error_message :: string
  err_request_id :: string
  err_etag :: string

definition azure_error_init :: azure_error where
  "azure_error_init =
     \<lparr>err_code = AZURE_OK, err_http_status = 0, err_error_code = [], err_error_message = [],
      err_request_id = [], err_etag = []\<rparr>"

record azure_page_range =
  pr_offset :: int
  pr_data :: "bytes option"
  pr_len :: int

record azure_diff_range =
  dr_start :: int
  dr_end :: int
  dr_is_clear :: bool

type_synonym 'w azure_call = "'w \<Rightarrow> azure_err \<times> azure_error \<times> 'w"
type_synonym ('w, 'o) azure_query = "'w \<Rightarrow> azure_err \<times> 'o \<times> azure_error \<times> 'w"

record 'w azure_ops =
  page_blob_create :: "(string \<Rightarrow> int \<Rightarrow> 'w azure_call) option"
  page_blob_write :: "(string \<Rightarrow> int \<Rightarrow> bytes \<Rightarrow> string option \<Rightarrow> string option \<Rightarrow> 'w azure_call) option"
  page_blob_read :: "(string \<Rightarrow> int \<Rightarrow> int \<Rightarrow> ('w, bytes) azure_query) option"
  page_blob_resize :: "(string \<Rightarrow> int \<Rightarrow> string option \<Rightarrow> 'w azure_call) option"
  block_blob_upload :: "(string \<Rightarrow> bytes \<Rightarrow> 'w azure_call) option"
  block_blob_download :: "(string \<Rightarrow> ('w, bytes) azure_query) option"
  blob_get_properties :: "(string \<Rightarrow> ('w, int \<times> string \<times> string) azure_query) option"
  blob_delete :: "(string \<Rightarrow> 'w azure_call) option"
  blob_undelete :: "(string \<Rightarrow> 'w azure_call) option"
  blob_exists :: "(string \<Rightarrow> ('w, bool) azure_query) option"
  lease_acquire :: "(string \<Rightarrow> int \<Rightarrow> ('w, string option) azure_query) option"
  lease_renew :: "(string \<Rightarrow> string \<Rightarrow> 'w azure_call) option"
  lease_release :: "(string \<Rightarrow> string \<Rightarrow> 'w azure_call) option"
  lease_break :: "(string \<Rightarrow> int \<Rightarrow> ('w, int) azure_query) option"
  page_blob_write_batch ::
    "(string \<Rightarrow> azure_page_range list \<Rightarrow> string option \<Rightarrow> string option \<Rightarrow> 'w azure_call) option"
  page_blob_read_multi :: "(string \<Rightarrow> int \<Rightarrow> bytes \<Rightarrow> ('w, bytes) azure_query) option"
  append_blob_create :: "(string \<Rightarrow> string option \<Rightarrow> 'w azure_call) option"
  append_blob_append :: "(string \<Rightarrow> bytes \<Rightarrow> string option \<Rightarrow> 'w azure_call) option"
  append_blob_delete :: "(string \<Rightarrow> string option \<Rightarrow> 'w azure_call) option"
  block_blob_upload_parallel :: "(string \<Rightarrow> bytes \<Rightarrow> int \<Rightarrow> 'w azure_call) option"
  blob_snapshot_create :: "(string \<Rightarrow> ('w, string) azure_query) option"
  blob_get_page_ranges_diff :: "(string \<Rightarrow> string \<Rightarrow> ('w, azure_diff_range list) azure_query) option"

text \<open>The configuration of \<^verbatim>\<open>azure_client_create\<close>; a C string that may be \<^verbatim>\<open>NULL\<close> is an option.\<close>

record azure_client_config =
  cfg_account :: "string option"
  cfg_container :: "string option"
  cfg_sas_token :: "string option"
  cfg_account_key :: "string option"
  cfg_endpoint :: "string option"

text \<open>\<^verbatim>\<open>azure_buffer_t\<close>, the growable buffer, with its helpers.\<close>

record azure_buffer =
  buf_data :: "bytes option"
  buf_size :: int
  buf_capacity :: int

definition azure_buffer_init :: azure_buffer where
  "azure_buffer_init = \<lparr>buf_data = None, buf_size = 0, buf_capacity = 0\<rparr>"

definition azure_buffer_free :: "azure_buffer \<Rightarrow> azure_buffer" where
  "azure_buffer_free b = b\<lparr>buf_data := None, buf_size := 0, buf_capacity := 0\<rparr>"

end
