(* ===== verification/Azure_Error.thy ===== *)
theory Azure_Error
  imports Azure_Ops
begin

text \<open>
  \<^verbatim>\<open>azure_error.c\<close>: the names of the error codes, the extraction of \<^verbatim>\<open><Code>\<close> and \<^verbatim>\<open><Message>\<close> from an
  error body, the classification of HTTP errors, which errors are retried, and the retry delay.

  The random number of the jitter is an argument: \<^term>\<open>None\<close> when \<^verbatim>\<open>getrandom\<close> failed, otherwise the 32-bit value it
  delivered. The error body is a NUL-terminated C string here.
\<close>

definition azure_err_str :: "azure_err \<Rightarrow> string" where
  "azure_err_str code =
     (case code of
        AZURE_OK \<Rightarrow> ''OK''
      | AZURE_ERR_BAD_REQUEST \<Rightarrow> ''Bad request''
      | AZURE_ERR_SERVER \<Rightarrow> ''Server error (retryable)''
      | AZURE_ERR_THROTTLED \<Rightarrow> ''Throttled (429, retryable)''
      | AZURE_ERR_AUTH \<Rightarrow> ''Authentication failure''
      | AZURE_ERR_NOT_FOUND \<Rightarrow> ''Not found (404)''
      | AZURE_ERR_CONFLICT \<Rightarrow> ''Conflict (409)''
      | AZURE_ERR_PRECONDITION \<Rightarrow> ''Precondition failed (412)''
      | AZURE_ERR_NETWORK \<Rightarrow> ''Network error''
      | AZURE_ERR_LEASE_EXPIRED \<Rightarrow> ''Lease expired''
      | AZURE_ERR_INVALID_ARG \<Rightarrow> ''Invalid argument''
      | AZURE_ERR_NOMEM \<Rightarrow> ''Memory allocation failure''
      | AZURE_ERR_IO \<Rightarrow> ''I/O error''
      | AZURE_ERR_TIMEOUT \<Rightarrow> ''Timeout''
      | AZURE_ERR_ALIGNMENT \<Rightarrow> ''Alignment violation''
      | AZURE_ERR_UNKNOWN \<Rightarrow> ''Unknown error'')"

section \<open>Error bodies\<close>

text \<open>\<^verbatim>\<open>strstr\<close>: the suffix that starts at the first occurrence.\<close>

fun strstr :: "string \<Rightarrow> string \<Rightarrow> string option" where
  "strstr [] needle = (if needle = [] then Some [] else None)"
| "strstr (c # cs) needle =
     (if take (length needle) (c # cs) = needle then Some (c # cs) else strstr cs needle)"

definition extract_xml_tag :: "string \<Rightarrow> string \<Rightarrow> nat \<Rightarrow> string option" where
  "extract_xml_tag xml tag out_size =
     (let open_tag = take 63 (''<'' @ tag @ ''>''); close_tag = take 63 (''</'' @ tag @ ''>'') in
      case strstr xml open_tag of
        None \<Rightarrow> None
      | Some start \<Rightarrow>
          let start = drop (length open_tag) start in
          (case strstr start close_tag of
             None \<Rightarrow> None
           | Some end_ptr \<Rightarrow>
               let len = length start - length end_ptr;
                   len = (if out_size \<le> len then out_size - 1 else len)
               in Some (take len start)))"

definition azure_parse_error_xml :: "string \<Rightarrow> azure_error \<Rightarrow> azure_err \<times> azure_error" where
  "azure_parse_error_xml xml err =
     (if xml = [] then (AZURE_ERR_INVALID_ARG, err)
      else
        let code = (case extract_xml_tag xml ''Code'' 128 of None \<Rightarrow> [] | Some s \<Rightarrow> s);
            msg = (case extract_xml_tag xml ''Message'' 256 of None \<Rightarrow> [] | Some s \<Rightarrow> s)
        in (AZURE_OK, err\<lparr>err_error_code := code, err_error_message := msg\<rparr>))"

section \<open>Classification and retries\<close>

definition azure_classify_http_error :: "int \<Rightarrow> string \<Rightarrow> azure_err" where
  "azure_classify_http_error http_status error_code =
     (if 200 \<le> http_status \<and> http_status < 300 then AZURE_OK
      else if http_status = 429 then AZURE_ERR_THROTTLED
      else if http_status = 408 \<or> http_status = 500 \<or> http_status = 502 \<or> http_status = 503 \<or> http_status = 504
      then AZURE_ERR_SERVER
      else if error_code = ''ServerBusy'' \<or> error_code = ''InternalError'' \<or> error_code = ''OperationTimedOut''
      then AZURE_ERR_SERVER
      else if http_status = 401 \<or> http_status = 403 then AZURE_ERR_AUTH
      else if http_status = 404 then AZURE_ERR_NOT_FOUND
      else if http_status = 409 then AZURE_ERR_CONFLICT
      else if http_status = 412 then AZURE_ERR_PRECONDITION
      else AZURE_ERR_BAD_REQUEST)"

definition azure_is_retryable :: "azure_err \<Rightarrow> bool" where
  "azure_is_retryable code \<longleftrightarrow> code = AZURE_ERR_SERVER \<or> code = AZURE_ERR_THROTTLED"

definition AZURE_MAX_RETRIES :: nat where [simp]: "AZURE_MAX_RETRIES = 5"
definition AZURE_RETRY_BASE_MS :: int where [simp]: "AZURE_RETRY_BASE_MS = 500"
definition AZURE_RETRY_MAX_MS :: int where [simp]: "AZURE_RETRY_MAX_MS = 30000"

text \<open>The products are the C code's \<^verbatim>\<open>int\<close> products, cut to 32 bits.\<close>

definition azure_compute_retry_delay :: "int \<Rightarrow> int \<Rightarrow> 32 word option \<Rightarrow> int" where
  "azure_compute_retry_delay attempt retry_after_secs rnd =
     (let delay_ms =
            (if retry_after_secs > 0
             then if retry_after_secs > 2147483647 div 1000 then AZURE_RETRY_MAX_MS
                  else c_int (retry_after_secs * 1000)
             else
               let d = c_int (AZURE_RETRY_BASE_MS * c_int (push_bit (nat attempt) 1)) in
               (case rnd of None \<Rightarrow> d | Some r \<Rightarrow> c_int (d + uint r mod AZURE_RETRY_BASE_MS)))
      in if delay_ms > AZURE_RETRY_MAX_MS then AZURE_RETRY_MAX_MS else delay_ms)"

section \<open>Properties\<close>

text \<open>C21 Within the attempts the client makes, the retry delay is never negative, never above the
  cap of 30 s, at least the backoff of its attempt, and it honours a \<^verbatim>\<open>Retry-After\<close> header up to
  the cap, whatever the header and the random source deliver.\<close>

theorem retry_delay_bounds:
  assumes "0 \<le> attempt" and "attempt \<le> int AZURE_MAX_RETRIES" and "retry < 2147483648"
  shows "0 \<le> azure_compute_retry_delay attempt retry rnd \<and>
    azure_compute_retry_delay attempt retry rnd \<le> AZURE_RETRY_MAX_MS \<and>
    (retry \<le> 0 \<longrightarrow> 500 * 2 ^ nat attempt \<le> azure_compute_retry_delay attempt retry rnd \<and>
       azure_compute_retry_delay attempt retry rnd < 500 * 2 ^ nat attempt + 500) \<and>
    (0 < retry \<longrightarrow> azure_compute_retry_delay attempt retry rnd = min 30000 (retry * 1000))"
proof (cases "0 < retry")
  case True
  then show ?thesis by (auto simp: azure_compute_retry_delay_def Let_def min_def)
next
  case False
  have a: "attempt \<in> {0, 1, 2, 3, 4, 5}" using assms(1,2) by auto
  have r: "0 \<le> uint (w :: 32 word) mod 500" "uint w mod 500 < 500" for w
    by simp_all
  show ?thesis
  proof (cases rnd)
    case None
    with False a show ?thesis by (auto simp: azure_compute_retry_delay_def push_bit_eq_mult)
  next
    case (Some w)
    define j where "j = uint w mod 500"
    have "0 \<le> j" "j < 500" using r [of w] by (simp_all add: j_def)
    with False a Some show ?thesis
      by (auto simp: azure_compute_retry_delay_def push_bit_eq_mult Let_def j_def [symmetric])
  qed
qed

theorem retry_delay_bounds_witness:
  "azure_compute_retry_delay 5 0 (Some 123456789) \<le> AZURE_RETRY_MAX_MS \<and>
   500 * 2 ^ nat 5 \<le> azure_compute_retry_delay 5 0 (Some 123456789) \<and>
   azure_compute_retry_delay 0 7 None = 7000"
  using retry_delay_bounds [of 5 0 "Some 123456789"] retry_delay_bounds [of 0 7 None] by simp

text \<open>A request is retried for exactly the statuses 408, 429, 500, 502, 503, 504 and, on any other
  status outside the 2xx range, for the three Azure codes that announce a transient condition.\<close>

lemma classify_retryable:
  "azure_is_retryable (azure_classify_http_error st code) \<longleftrightarrow>
     \<not> (200 \<le> st \<and> st < 300) \<and>
     (st \<in> {408, 429, 500, 502, 503, 504} \<or> code \<in> {''ServerBusy'', ''InternalError'', ''OperationTimedOut''})"
  by (auto simp: azure_is_retryable_def azure_classify_http_error_def)

end
