(* ===== verification/Posix.thy ===== *)
theory Posix
  imports Prelude
begin

text \<open>
  The part of the C library and of POSIX the VFS uses on its local cache file and on the sidecar
  files: \<^verbatim>\<open>open\<close>, \<^verbatim>\<open>pread\<close>, \<^verbatim>\<open>pwrite\<close>, \<^verbatim>\<open>ftruncate\<close>, \<^verbatim>\<open>lseek\<close>, \<^verbatim>\<open>fsync\<close>, \<^verbatim>\<open>unlink\<close>, \<^verbatim>\<open>rename\<close>,
  \<^verbatim>\<open>mkstemp\<close>, \<^verbatim>\<open>malloc\<close> and \<^verbatim>\<open>time\<close>.

  A file is its bytes, the file system maps paths to files, and an open descriptor is the path it was
  opened on (the source never unlinks or renames a file while it has it open). Every call consults
  the list \<open>faults\<close>: its next element says whether the call succeeds, fails or transfers fewer bytes
  than asked for; an exhausted list means success from there on. A theorem that quantifies over
  the state therefore quantifies over every pattern of local failures. Every reading of the
  clock advances it by the next element of \<open>ticks\<close>.
\<close>

datatype io_res = Io_ok | Io_fail | Io_short nat

record posix =
  fs :: "string \<Rightarrow> bytes option"
  faults :: "io_res list"
  clock :: int
  ticks :: "int list"
  heap_junk :: byte
  tmp_suffixes :: "string list"

definition next_io :: "'a posix_scheme \<Rightarrow> io_res \<times> 'a posix_scheme" where
  "next_io e = (case faults e of [] \<Rightarrow> (Io_ok, e) | r # rs \<Rightarrow> (r, e\<lparr>faults := rs\<rparr>))"

definition no_faults :: "'a posix_scheme \<Rightarrow> bool" where
  "no_faults e \<longleftrightarrow> faults e = []"

definition file_of :: "'a posix_scheme \<Rightarrow> string \<Rightarrow> bytes" where
  "file_of e path = (case fs e path of None \<Rightarrow> [] | Some c \<Rightarrow> c)"

definition set_file :: "string \<Rightarrow> bytes \<Rightarrow> 'a posix_scheme \<Rightarrow> 'a posix_scheme" where
  "set_file path c e = e\<lparr>fs := (fs e)(path \<mapsto> c)\<rparr>"

text \<open>A machine without files on which no call fails, the starting point of concrete runs.\<close>

definition quiet_posix :: posix where
  "quiet_posix = \<lparr>fs = (\<lambda>_. None), faults = [], clock = 0, ticks = [], heap_junk = 0, tmp_suffixes = []\<rparr>"

section \<open>System calls\<close>

definition sys_pread :: "string \<Rightarrow> int \<Rightarrow> int \<Rightarrow> 'a posix_scheme \<Rightarrow> int \<times> bytes \<times> 'a posix_scheme" where
  "sys_pread fd n off e =
     (case next_io e of (r, e) \<Rightarrow>
        let d = bslice (file_of e fd) (nat off) (nat n) in
        if off < 0 then (-1, [], e)
        else case r of
          Io_ok \<Rightarrow> (int (length d), d, e)
        | Io_fail \<Rightarrow> (-1, [], e)
        | Io_short k \<Rightarrow> (int (length (take k d)), take k d, e))"

definition sys_pwrite :: "string \<Rightarrow> bytes \<Rightarrow> int \<Rightarrow> 'a posix_scheme \<Rightarrow> int \<times> 'a posix_scheme" where
  "sys_pwrite fd d off e =
     (case next_io e of (r, e) \<Rightarrow>
        if off < 0 then (-1, e)
        else case r of
          Io_ok \<Rightarrow> (int (length d), set_file fd (put (file_of e fd) (nat off) d) e)
        | Io_fail \<Rightarrow> (-1, e)
        | Io_short k \<Rightarrow>
            (int (length (take k d)), set_file fd (put (file_of e fd) (nat off) (take k d)) e))"

definition sys_ftruncate :: "string \<Rightarrow> int \<Rightarrow> 'a posix_scheme \<Rightarrow> int \<times> 'a posix_scheme" where
  "sys_ftruncate fd n e =
     (case next_io e of (r, e) \<Rightarrow>
        if n < 0 \<or> r = Io_fail then (-1, e)
        else (0, set_file fd (take (nat n) (zpad (nat n) (file_of e fd))) e))"

definition sys_lseek_end :: "string \<Rightarrow> 'a posix_scheme \<Rightarrow> int \<times> 'a posix_scheme" where
  "sys_lseek_end fd e =
     (case next_io e of (r, e) \<Rightarrow>
        if r = Io_fail then (-1, e) else (int (length (file_of e fd)), e))"

definition sys_lseek_start :: "string \<Rightarrow> 'a posix_scheme \<Rightarrow> int \<times> 'a posix_scheme" where
  "sys_lseek_start fd e =
     (case next_io e of (r, e) \<Rightarrow> if r = Io_fail then (-1, e) else (0, e))"

definition sys_fsync :: "string \<Rightarrow> 'a posix_scheme \<Rightarrow> int \<times> 'a posix_scheme" where
  "sys_fsync fd e = (case next_io e of (r, e) \<Rightarrow> if r = Io_fail then (-1, e) else (0, e))"

text \<open>\<^verbatim>\<open>open\<close> of an existing file (\<^verbatim>\<open>O_RDONLY\<close> or \<^verbatim>\<open>O_RDWR\<close>), and of a file that is created or emptied
  (\<^verbatim>\<open>O_CREAT | O_TRUNC\<close>). \<^term>\<open>None\<close> is the negative descriptor of a failed call.\<close>

definition sys_open :: "string \<Rightarrow> 'a posix_scheme \<Rightarrow> string option \<times> 'a posix_scheme" where
  "sys_open path e =
     (case next_io e of (r, e) \<Rightarrow>
        if r = Io_fail \<or> fs e path = None then (None, e) else (Some path, e))"

definition sys_open_trunc :: "string \<Rightarrow> 'a posix_scheme \<Rightarrow> string option \<times> 'a posix_scheme" where
  "sys_open_trunc path e =
     (case next_io e of (r, e) \<Rightarrow>
        if r = Io_fail then (None, e) else (Some path, set_file path [] e))"

text \<open>\<^verbatim>\<open>mkstemp\<close> replaces the six last characters of the template so that the name is new.\<close>

definition sys_mkstemp :: "string \<Rightarrow> 'a posix_scheme \<Rightarrow> string option \<times> 'a posix_scheme" where
  "sys_mkstemp tmpl e =
     (case next_io e of (r, e) \<Rightarrow>
        case tmp_suffixes e of
          [] \<Rightarrow> (None, e)
        | x # xs \<Rightarrow>
            let path = take (length tmpl - 6) tmpl @ x; e = e\<lparr>tmp_suffixes := xs\<rparr> in
            if r = Io_fail \<or> fs e path \<noteq> None then (None, e)
            else (Some path, set_file path [] e))"

definition sys_unlink :: "string \<Rightarrow> 'a posix_scheme \<Rightarrow> 'a posix_scheme" where
  "sys_unlink path e =
     (case next_io e of (r, e) \<Rightarrow> if r = Io_fail then e else e\<lparr>fs := (fs e)(path := None)\<rparr>)"

definition sys_rename :: "string \<Rightarrow> string \<Rightarrow> 'a posix_scheme \<Rightarrow> int \<times> 'a posix_scheme" where
  "sys_rename a b e =
     (case next_io e of (r, e) \<Rightarrow>
        if r = Io_fail \<or> fs e a = None then (-1, e)
        else (0, e\<lparr>fs := (fs e)(a := None, b := fs e a)\<rparr>))"

definition sys_malloc :: "int \<Rightarrow> 'a posix_scheme \<Rightarrow> bytes option \<times> 'a posix_scheme" where
  "sys_malloc n e =
     (case next_io e of (r, e) \<Rightarrow>
        if r = Io_fail then (None, e) else (Some (replicate (nat n) (heap_junk e)), e))"

definition sys_time :: "'a posix_scheme \<Rightarrow> int \<times> 'a posix_scheme" where
  "sys_time e =
     (case ticks e of
        [] \<Rightarrow> (clock e, e)
      | t # ts \<Rightarrow> (clock e + t, e\<lparr>clock := clock e + t, ticks := ts\<rparr>))"

section \<open>Behaviour without faults\<close>

lemma next_io_no_faults [posix_simps]: "no_faults e \<Longrightarrow> next_io e = (Io_ok, e)"
  by (simp add: next_io_def no_faults_def)

lemma fs_set_file [simp]: "fs (set_file path c e) = (fs e)(path \<mapsto> c)"
  by (simp add: set_file_def)

lemma set_file_frame [simp]:
  "faults (set_file path c e) = faults e" "clock (set_file path c e) = clock e"
  "ticks (set_file path c e) = ticks e" "heap_junk (set_file path c e) = heap_junk e"
  "tmp_suffixes (set_file path c e) = tmp_suffixes e"
  "posix.more (set_file path c e) = posix.more e"
  by (simp_all add: set_file_def)

lemma no_faults_set_file [simp]: "no_faults (set_file path c e) = no_faults e"
  by (simp add: no_faults_def)

lemma file_of_set_file: "file_of (set_file p c e) q = (if q = p then c else file_of e q)"
  by (simp add: file_of_def)

lemma file_of_set_file_same [simp]: "file_of (set_file p c e) p = c"
  by (simp add: file_of_def)

lemma pread_ok [posix_simps]:
  "no_faults e \<Longrightarrow> 0 \<le> off \<Longrightarrow>
     sys_pread fd n off e =
       (int (length (bslice (file_of e fd) (nat off) (nat n))),
        bslice (file_of e fd) (nat off) (nat n), e)"
  by (simp add: sys_pread_def next_io_no_faults Let_def)

lemma pwrite_ok [posix_simps]:
  "no_faults e \<Longrightarrow> 0 \<le> off \<Longrightarrow>
     sys_pwrite fd d off e = (int (length d), set_file fd (put (file_of e fd) (nat off) d) e)"
  by (simp add: sys_pwrite_def next_io_no_faults)

lemma ftruncate_ok [posix_simps]:
  "no_faults e \<Longrightarrow> 0 \<le> n \<Longrightarrow>
     sys_ftruncate fd n e = (0, set_file fd (take (nat n) (zpad (nat n) (file_of e fd))) e)"
  by (simp add: sys_ftruncate_def next_io_no_faults)

lemma lseek_end_ok [posix_simps]:
  "no_faults e \<Longrightarrow> sys_lseek_end fd e = (int (length (file_of e fd)), e)"
  by (simp add: sys_lseek_end_def next_io_no_faults)

lemma lseek_start_ok [posix_simps]: "no_faults e \<Longrightarrow> sys_lseek_start fd e = (0, e)"
  by (simp add: sys_lseek_start_def next_io_no_faults)

lemma fsync_ok [posix_simps]: "no_faults e \<Longrightarrow> sys_fsync fd e = (0, e)"
  by (simp add: sys_fsync_def next_io_no_faults)

lemma open_ok [posix_simps]:
  "no_faults e \<Longrightarrow> sys_open path e = (if fs e path = None then None else Some path, e)"
  by (simp add: sys_open_def next_io_no_faults)

lemma open_trunc_ok [posix_simps]:
  "no_faults e \<Longrightarrow> sys_open_trunc path e = (Some path, set_file path [] e)"
  by (simp add: sys_open_trunc_def next_io_no_faults)

lemma unlink_ok [posix_simps]:
  "no_faults e \<Longrightarrow> sys_unlink path e = e\<lparr>fs := (fs e)(path := None)\<rparr>"
  by (simp add: sys_unlink_def next_io_no_faults)

lemma rename_ok [posix_simps]:
  "no_faults e \<Longrightarrow> fs e a = Some c \<Longrightarrow>
     sys_rename a b e = (0, e\<lparr>fs := (fs e)(a := None, b \<mapsto> c)\<rparr>)"
  by (simp add: sys_rename_def next_io_no_faults)

lemma malloc_ok [posix_simps]:
  "no_faults e \<Longrightarrow> sys_malloc n e = (Some (replicate (nat n) (heap_junk e)), e)"
  by (simp add: sys_malloc_def next_io_no_faults)

section \<open>Frame facts that hold under every fault\<close>

lemma next_io_frame:
  "next_io e = (r, e') \<Longrightarrow> fs e' = fs e \<and> posix.more e' = posix.more e \<and> clock e' = clock e
     \<and> ticks e' = ticks e \<and> heap_junk e' = heap_junk e"
  by (auto simp: next_io_def split: list.splits)

lemma next_io_fs [simp]: "fs (snd (next_io e)) = fs e"
  by (simp add: next_io_def split: list.splits)

lemma pread_frame: "sys_pread fd n off e = (r, d, e') \<Longrightarrow> fs e' = fs e \<and> posix.more e' = posix.more e"
  by (auto simp: sys_pread_def Let_def split: prod.splits io_res.splits if_splits dest: next_io_frame)

lemma pread_length: "sys_pread fd n off e = (r, d, e') \<Longrightarrow> r = -1 \<and> d = [] \<or> r = int (length d) \<and> length d \<le> nat n"
  by (auto simp: sys_pread_def Let_def min.coboundedI1 split: prod.splits io_res.splits if_splits)

lemma pwrite_frame:
  "sys_pwrite fd d off e = (r, e') \<Longrightarrow> posix.more e' = posix.more e \<and> (\<forall>q. q \<noteq> fd \<longrightarrow> fs e' q = fs e q)"
  by (auto simp: sys_pwrite_def Let_def split: prod.splits io_res.splits if_splits dest: next_io_frame)

lemma pwrite_all:
  assumes "sys_pwrite fd d off e = (int (length d), e')" and "0 \<le> off" and "fs e fd \<noteq> None"
  shows "fs e' fd = Some (put (file_of e fd) (nat off) d)"
  using assms next_io_frame [of e]
  by (cases "next_io e")
     (fastforce simp: sys_pwrite_def file_of_def split: io_res.splits if_splits)

lemma ftruncate_frame:
  "sys_ftruncate fd n e = (r, e') \<Longrightarrow> posix.more e' = posix.more e \<and> (\<forall>q. q \<noteq> fd \<longrightarrow> fs e' q = fs e q)"
  by (auto simp: sys_ftruncate_def split: prod.splits if_splits dest: next_io_frame)

lemma fsync_frame: "sys_fsync fd e = (r, e') \<Longrightarrow> fs e' = fs e \<and> posix.more e' = posix.more e"
  by (auto simp: sys_fsync_def split: prod.splits if_splits dest: next_io_frame)

lemma malloc_frame: "sys_malloc n e = (r, e') \<Longrightarrow> fs e' = fs e \<and> posix.more e' = posix.more e"
  by (auto simp: sys_malloc_def split: prod.splits if_splits dest: next_io_frame)

lemma open_frame: "sys_open path e = (r, e') \<Longrightarrow> fs e' = fs e \<and> posix.more e' = posix.more e"
  by (auto simp: sys_open_def split: prod.splits if_splits dest: next_io_frame)

lemma open_trunc_frame:
  "sys_open_trunc path e = (r, e') \<Longrightarrow> posix.more e' = posix.more e \<and>
     fs e' = (case r of None \<Rightarrow> fs e | Some fd \<Rightarrow> (fs e)(path \<mapsto> [])) \<and> (r = None \<or> r = Some path)"
  by (auto simp: sys_open_trunc_def split: prod.splits if_splits dest: next_io_frame)

lemma unlink_frame:
  "posix.more (sys_unlink path e) = posix.more e \<and> (\<forall>q. q \<noteq> path \<longrightarrow> fs (sys_unlink path e) q = fs e q)"
  by (cases "next_io e") (auto simp: sys_unlink_def dest: next_io_frame)

lemma rename_frame:
  "sys_rename a b e = (r, e') \<Longrightarrow> posix.more e' = posix.more e \<and>
     (r = -1 \<and> fs e' = fs e \<or> r = 0 \<and> fs e a \<noteq> None \<and> fs e' = (fs e)(a := None, b := fs e a))"
  by (auto simp: sys_rename_def split: prod.splits if_splits dest: next_io_frame)

lemmas posix_frames =
  pread_frame pwrite_frame ftruncate_frame fsync_frame malloc_frame open_frame open_trunc_frame
  unlink_frame rename_frame

end
