(* ===== verification/Bitmap.thy ===== *)
theory Bitmap
  imports Posix
begin

text \<open>
  The page bitmaps of \<^verbatim>\<open>sqlite_objs_vfs.c\<close>: one bit per database page with a running count of set bits,
  used for the dirty pages (what \<^verbatim>\<open>xSync\<close> uploads) and for the valid pages (what the lazy cache holds).

  The operations are translated one by one. \<open>bm_ok\<close> is the well-formedness invariant (the
  allocation count is the array's length, the running count is the number of set bits) and \<open>pages\<close>
  is the abstraction, the set of page numbers whose bit is set. The locale \<open>page_set\<close> is what the page
  cache relies on; the bitmap is its interpretation.
\<close>

section \<open>Operations\<close>

record bitmap =
  bm_data :: "bytes option"
  bm_nSet :: int
  bm_nAlloc :: int

definition bitmap_empty :: bitmap where
  "bitmap_empty = \<lparr>bm_data = None, bm_nSet = 0, bm_nAlloc = 0\<rparr>"

definition bitmapSize :: "int \<Rightarrow> int \<Rightarrow> int" where
  "bitmapSize fileSize pageSize =
     (if fileSize \<le> 0 \<or> pageSize \<le> 0 then 0
      else let nPages = c_int (c_div (fileSize + pageSize - 1) pageSize)
           in c_div (nPages + 7) 8)"

text \<open>\<^verbatim>\<open>data[byteIdx] & (1 << bitIdx)\<close> and its two updates.\<close>

definition bit_mask :: "int \<Rightarrow> byte" where
  "bit_mask bitIdx = push_bit (nat bitIdx) 1"

definition bitmapSetBit :: "bitmap \<Rightarrow> int \<Rightarrow> bitmap" where
  "bitmapSetBit bm pageIdx =
     (case bm_data bm of
        None \<Rightarrow> bm
      | Some d \<Rightarrow>
          let byteIdx = c_div pageIdx 8; bitIdx = c_mod pageIdx 8 in
          if byteIdx < 0 \<or> bm_nAlloc bm \<le> byteIdx then bm
          else if d ! nat byteIdx AND bit_mask bitIdx = 0
          then bm\<lparr>bm_data := Some (d[nat byteIdx := d ! nat byteIdx OR bit_mask bitIdx]),
                  bm_nSet := bm_nSet bm + 1\<rparr>
          else bm)"

definition bitmapTestBit :: "bitmap \<Rightarrow> int \<Rightarrow> bool" where
  "bitmapTestBit bm pageIdx =
     (case bm_data bm of
        None \<Rightarrow> False
      | Some d \<Rightarrow>
          let byteIdx = c_div pageIdx 8; bitIdx = c_mod pageIdx 8 in
          if byteIdx < 0 \<or> bm_nAlloc bm \<le> byteIdx then False
          else d ! nat byteIdx AND bit_mask bitIdx \<noteq> 0)"

definition bitmapClearBit :: "bitmap \<Rightarrow> int \<Rightarrow> bitmap" where
  "bitmapClearBit bm pageIdx =
     (case bm_data bm of
        None \<Rightarrow> bm
      | Some d \<Rightarrow>
          let byteIdx = c_div pageIdx 8; bitIdx = c_mod pageIdx 8 in
          if byteIdx < 0 \<or> bm_nAlloc bm \<le> byteIdx then bm
          else if d ! nat byteIdx AND bit_mask bitIdx \<noteq> 0
          then bm\<lparr>bm_data := Some (d[nat byteIdx := d ! nat byteIdx AND NOT (bit_mask bitIdx)]),
                  bm_nSet := bm_nSet bm - 1\<rparr>
          else bm)"

definition bitmapClearAll :: "bitmap \<Rightarrow> bitmap" where
  "bitmapClearAll bm =
     (case bm_data bm of
        None \<Rightarrow> bm\<lparr>bm_nSet := 0\<rparr>
      | Some d \<Rightarrow>
          if bm_nAlloc bm > 0
          then bm\<lparr>bm_data := Some (replicate (nat (bm_nAlloc bm)) 0 @ drop (nat (bm_nAlloc bm)) d),
                  bm_nSet := 0\<rparr>
          else bm\<lparr>bm_nSet := 0\<rparr>)"

definition bitmapSetAll :: "bitmap \<Rightarrow> int \<Rightarrow> bitmap" where
  "bitmapSetAll bm nPages =
     (case bm_data bm of
        None \<Rightarrow> bm
      | Some d \<Rightarrow>
          if bm_nAlloc bm \<le> 0 then bm
          else
            let fullBytes = min (c_div nPages 8) (bm_nAlloc bm);
                remainBits = c_mod nPages 8;
                d = (if fullBytes > 0 then replicate (nat fullBytes) 0xFF @ drop (nat fullBytes) d else d);
                d = (if remainBits > 0 \<and> fullBytes < bm_nAlloc bm
                     then d[nat fullBytes := push_bit (nat remainBits) 1 - 1] else d)
            in bm\<lparr>bm_data := Some d, bm_nSet := nPages\<rparr>)"

text \<open>The loop of \<^verbatim>\<open>bitmapSetRange\<close>: it breaks at the first page outside the array.\<close>

function bitmapSetRange_loop :: "bitmap \<Rightarrow> int \<Rightarrow> int \<Rightarrow> bitmap" where
  "bitmapSetRange_loop bm i endPage =
     (if i < endPage
      then let byteIdx = c_div i 8 in
           if byteIdx < 0 \<or> bm_nAlloc bm \<le> byteIdx then bm
           else bitmapSetRange_loop (bitmapSetBit bm i) (i + 1) endPage
      else bm)"
  by pat_completeness auto
termination
  by (relation "measure (\<lambda>(bm, i, endPage). nat (endPage - i))") auto

declare bitmapSetRange_loop.simps [simp del]

definition bitmapSetRange :: "bitmap \<Rightarrow> int \<Rightarrow> int \<Rightarrow> bitmap" where
  "bitmapSetRange bm startPage endPage =
     (case bm_data bm of None \<Rightarrow> bm | Some d \<Rightarrow> bitmapSetRange_loop bm startPage endPage)"

definition bitmapHasAny :: "bitmap \<Rightarrow> bool" where
  "bitmapHasAny bm =
     (case bm_data bm of
        None \<Rightarrow> False
      | Some d \<Rightarrow> list_ex (\<lambda>b. b \<noteq> 0) (take (nat (bm_nAlloc bm)) d))"

definition bitmapEnsureCapacity ::
  "bitmap \<Rightarrow> int \<Rightarrow> int \<Rightarrow> 'a posix_scheme \<Rightarrow> sqlite_rc \<times> bitmap \<times> 'a posix_scheme" where
  "bitmapEnsureCapacity bm fileSize pageSize e =
     (let needed = bitmapSize fileSize pageSize in
      if needed \<le> 0 then (SQLITE_OK, bm, e)
      else if needed \<le> bm_nAlloc bm then (SQLITE_OK, bm, e)
      else case sys_malloc needed e of
             (None, e) \<Rightarrow> (SQLITE_NOMEM, bm, e)
           | (Some pNew, e) \<Rightarrow>
               let old = (case bm_data bm of None \<Rightarrow> [] | Some d \<Rightarrow> d) in
               (SQLITE_OK,
                bm\<lparr>bm_data := Some (old @ replicate (nat (needed - bm_nAlloc bm)) 0),
                   bm_nAlloc := needed\<rparr>, e))"

definition bitmapFree :: "bitmap \<Rightarrow> bitmap" where
  "bitmapFree bm = bm\<lparr>bm_data := None, bm_nSet := 0, bm_nAlloc := 0\<rparr>"

section \<open>Invariant and abstraction\<close>

definition pages :: "bitmap \<Rightarrow> int set" where
  "pages bm = {i. 0 \<le> i \<and> bitmapTestBit bm i}"

definition bm_shape :: "bitmap \<Rightarrow> bool" where
  "bm_shape bm \<longleftrightarrow>
     (case bm_data bm of
        None \<Rightarrow> bm_nAlloc bm = 0
      | Some d \<Rightarrow> bm_nAlloc bm = int (length d))"

definition bm_ok :: "bitmap \<Rightarrow> bool" where
  "bm_ok bm \<longleftrightarrow> bm_shape bm \<and> bm_nSet bm = int (card (pages bm))"

definition capacity :: "bitmap \<Rightarrow> int" where
  "capacity bm = 8 * bm_nAlloc bm"

lemma bm_ok_shape: "bm_ok bm \<Longrightarrow> bm_shape bm"
  by (simp add: bm_ok_def)

lemma bit_mask_test: "(w AND bit_mask b \<noteq> 0) = bit w (nat b)" for w :: byte
  by (simp add: bit_mask_def bit_iff_and_push_bit_not_eq_0)

lemma testBit_alt:
  assumes "0 \<le> i"
  shows "bitmapTestBit bm i \<longleftrightarrow>
    (\<exists>d. bm_data bm = Some d \<and> i div 8 < bm_nAlloc bm \<and> bit (d ! nat (i div 8)) (nat (i mod 8)))"
  using assms
  by (auto simp: bitmapTestBit_def bit_mask_test Let_def split: option.splits)

lemma pages_bound: "i \<in> pages bm \<Longrightarrow> 0 \<le> i \<and> i < capacity bm"
  by (auto simp: pages_def testBit_alt capacity_def)

lemma finite_pages [simp]: "finite (pages bm)"
proof (rule finite_subset)
  show "pages bm \<subseteq> {0..<capacity bm}" using pages_bound by auto
qed simp

lemma in_pages: "0 \<le> i \<Longrightarrow> i \<in> pages bm \<longleftrightarrow> bitmapTestBit bm i"
  by (simp add: pages_def)

lemma div_mod_eq: "i div 8 = j div 8 \<Longrightarrow> i mod 8 = j mod 8 \<Longrightarrow> i = j" for i j :: int
  by (metis div_mult_mod_eq)

lemma nat_mod8_eq: "nat (i mod 8) = nat (j mod 8) \<longleftrightarrow> i mod 8 = j mod 8" for i j :: int
  using eq_nat_nat_iff [of "i mod 8" "j mod 8"] by simp

lemma bit_bit_mask: "n < 8 \<Longrightarrow> bit (bit_mask b) n \<longleftrightarrow> n = nat b"
  by (auto simp: bit_mask_def bit_exp_iff possible_bit_word)

lemma bit_OR_mask: "n < 8 \<Longrightarrow> bit (w OR bit_mask b) n \<longleftrightarrow> bit w n \<or> n = nat b" for w :: byte
  by (simp add: bit_or_iff bit_bit_mask)

lemma bit_AND_NOT_mask: "n < 8 \<Longrightarrow> bit (w AND NOT (bit_mask b)) n \<longleftrightarrow> bit w n \<and> n \<noteq> nat b" for w :: byte
  by (auto simp: bit_and_iff bit_not_iff bit_bit_mask)

lemma nat_mod8_less [simp]: "nat (i mod 8) < 8" for i :: int
  by (simp add: nat_less_iff)

lemma nat_div8_eq: "0 \<le> i \<Longrightarrow> 0 \<le> j \<Longrightarrow> nat (i div 8) = nat (j div 8) \<longleftrightarrow> i div 8 = j div 8" for i j :: int
  using eq_nat_nat_iff [of "i div 8" "j div 8"] by (simp add: pos_imp_zdiv_nonneg_iff)

lemma data_index: "bm_shape bm \<Longrightarrow> bm_data bm = Some d \<Longrightarrow> 0 \<le> i \<Longrightarrow> i div 8 < bm_nAlloc bm \<Longrightarrow>
    nat (i div 8) < length d"
  by (simp add: bm_shape_def nat_less_iff pos_imp_zdiv_nonneg_iff)

lemma shape_setBit [simp]: "bm_shape bm \<Longrightarrow> bm_shape (bitmapSetBit bm i)"
  by (auto simp: bm_shape_def bitmapSetBit_def Let_def split: option.splits)

lemma shape_clearBit [simp]: "bm_shape bm \<Longrightarrow> bm_shape (bitmapClearBit bm i)"
  by (auto simp: bm_shape_def bitmapClearBit_def Let_def split: option.splits)

lemma nAlloc_setBit [simp]: "bm_nAlloc (bitmapSetBit bm i) = bm_nAlloc bm"
  by (simp add: bitmapSetBit_def Let_def split: option.splits)

lemma nAlloc_clearBit [simp]: "bm_nAlloc (bitmapClearBit bm i) = bm_nAlloc bm"
  by (simp add: bitmapClearBit_def Let_def split: option.splits)

lemma data_None_setBit [simp]: "bm_data (bitmapSetBit bm i) = None \<longleftrightarrow> bm_data bm = None"
  by (simp add: bitmapSetBit_def Let_def split: option.splits)

lemma testBit_setBit:
  assumes "bm_shape bm" and "0 \<le> i" and "0 \<le> j"
  shows "bitmapTestBit (bitmapSetBit bm i) j \<longleftrightarrow> bitmapTestBit bm j \<or> (j = i \<and> i < capacity bm)"
proof (cases "bm_data bm")
  case None
  with assms show ?thesis by (auto simp: bitmapSetBit_def bitmapTestBit_def bm_shape_def capacity_def)
next
  case (Some d)
  show ?thesis
  proof (cases "i div 8 < bm_nAlloc bm")
    case False
    then have "\<not> i < capacity bm" by (simp add: capacity_def)
    with False Some assms show ?thesis by (simp add: bitmapSetBit_def Let_def)
  next
    case True
    have cap: "i < capacity bm" using True by (simp add: capacity_def)
    have li: "nat (i div 8) < length d" using data_index [OF assms(1) Some assms(2) True] .
    have "bitmapTestBit (bitmapSetBit bm i) j \<longleftrightarrow>
        j div 8 < bm_nAlloc bm \<and>
        bit (d[nat (i div 8) := d ! nat (i div 8) OR bit_mask (i mod 8)] ! nat (j div 8)) (nat (j mod 8))"
    proof (cases "d ! nat (i div 8) AND bit_mask (i mod 8) = 0")
      case True
      then show ?thesis using \<open>i div 8 < bm_nAlloc bm\<close> Some assms
        by (auto simp: testBit_alt bitmapSetBit_def Let_def)
    next
      case False
      then have "bit (d ! nat (i div 8)) (nat (i mod 8))" using bit_mask_test by blast
      then have eq: "d ! nat (i div 8) OR bit_mask (i mod 8) = d ! nat (i div 8)"
        by (intro bit_eqI) (auto simp: bit_OR_mask)
      show ?thesis using False \<open>i div 8 < bm_nAlloc bm\<close> Some assms
        by (auto simp: testBit_alt bitmapSetBit_def eq Let_def)
    qed
    also have "\<dots> \<longleftrightarrow> bitmapTestBit bm j \<or> j = i"
    proof (cases "j div 8 = i div 8")
      case True
      then show ?thesis using li Some assms \<open>i div 8 < bm_nAlloc bm\<close>
        by (auto simp: testBit_alt bit_OR_mask nat_mod8_eq dest: div_mod_eq)
    next
      case False
      then show ?thesis using Some assms by (auto simp: testBit_alt nat_div8_eq nth_list_update)
    qed
    finally show ?thesis using cap by blast
  qed
qed

lemma testBit_clearBit:
  assumes "bm_shape bm" and "0 \<le> i" and "0 \<le> j"
  shows "bitmapTestBit (bitmapClearBit bm i) j \<longleftrightarrow> bitmapTestBit bm j \<and> j \<noteq> i"
proof (cases "bitmapTestBit bm i")
  case False
  then have "bitmapClearBit bm i = bm" using assms(2)
    by (auto simp: bitmapTestBit_def bitmapClearBit_def Let_def split: option.splits)
  with False show ?thesis by auto
next
  case True
  then obtain d where d: "bm_data bm = Some d" "i div 8 < bm_nAlloc bm"
      "bit (d ! nat (i div 8)) (nat (i mod 8))"
    using assms(2) by (auto simp: testBit_alt)
  have li: "nat (i div 8) < length d" using data_index [OF assms(1) d(1) assms(2) d(2)] .
  have "d ! nat (i div 8) AND bit_mask (i mod 8) \<noteq> 0" using d(3) bit_mask_test by blast
  then have "bitmapTestBit (bitmapClearBit bm i) j \<longleftrightarrow>
      j div 8 < bm_nAlloc bm \<and>
      bit (d[nat (i div 8) := d ! nat (i div 8) AND NOT (bit_mask (i mod 8))] ! nat (j div 8)) (nat (j mod 8))"
    using d(1,2) assms by (auto simp: testBit_alt bitmapClearBit_def Let_def)
  also have "\<dots> \<longleftrightarrow> bitmapTestBit bm j \<and> j \<noteq> i"
  proof (cases "j div 8 = i div 8")
    case True
    then show ?thesis using li d assms
      by (auto simp: testBit_alt bit_AND_NOT_mask nat_mod8_eq dest: div_mod_eq)
  next
    case False
    then show ?thesis using d(1) assms by (auto simp: testBit_alt nat_div8_eq nth_list_update)
  qed
  finally show ?thesis .
qed

section \<open>How the operations act on the set of pages\<close>

lemma pages_setBit [bitmap_simps]:
  "bm_shape bm \<Longrightarrow> 0 \<le> i \<Longrightarrow>
     pages (bitmapSetBit bm i) = (if i < capacity bm then insert i (pages bm) else pages bm)"
  by (auto simp: pages_def testBit_setBit)

lemma pages_clearBit [bitmap_simps]:
  "bm_shape bm \<Longrightarrow> 0 \<le> i \<Longrightarrow> pages (bitmapClearBit bm i) = pages bm - {i}"
  by (auto simp: pages_def testBit_clearBit)

lemma nSet_setBit:
  "bm_shape bm \<Longrightarrow> 0 \<le> i \<Longrightarrow>
     bm_nSet (bitmapSetBit bm i) = bm_nSet bm + (if i < capacity bm \<and> i \<notin> pages bm then 1 else 0)"
  by (auto simp: bitmapSetBit_def in_pages testBit_alt bit_mask_test [symmetric] capacity_def
        bm_shape_def Let_def split: option.splits)

lemma nSet_clearBit:
  "bm_shape bm \<Longrightarrow> 0 \<le> i \<Longrightarrow>
     bm_nSet (bitmapClearBit bm i) = bm_nSet bm - (if i \<in> pages bm then 1 else 0)"
  by (auto simp: bitmapClearBit_def in_pages testBit_alt bit_mask_test [symmetric]
        Let_def split: option.splits)

lemma capacity_setBit [simp]: "capacity (bitmapSetBit bm i) = capacity bm"
  by (simp add: capacity_def)

lemma capacity_clearBit [simp]: "capacity (bitmapClearBit bm i) = capacity bm"
  by (simp add: capacity_def)

lemma bm_ok_setBit: "bm_ok bm \<Longrightarrow> 0 \<le> i \<Longrightarrow> bm_ok (bitmapSetBit bm i)"
  by (auto simp: bm_ok_def pages_setBit nSet_setBit insert_absorb)

lemma bm_ok_clearBit: "bm_ok bm \<Longrightarrow> 0 \<le> i \<Longrightarrow> bm_ok (bitmapClearBit bm i)"
proof -
  assume a: "bm_ok bm" "0 \<le> i"
  have "i \<in> pages bm \<Longrightarrow> 0 < card (pages bm)" by (auto simp: card_gt_0_iff)
  with a show ?thesis
    by (auto simp: bm_ok_def pages_clearBit nSet_clearBit card_Diff_singleton_if of_nat_diff)
qed

lemma clearAll_fields:
  assumes "bm_shape bm"
  shows "bm_shape (bitmapClearAll bm)" "bm_nSet (bitmapClearAll bm) = 0"
    "bm_nAlloc (bitmapClearAll bm) = bm_nAlloc bm"
    "bm_data (bitmapClearAll bm) = map_option (\<lambda>d. replicate (length d) 0) (bm_data bm)"
  using assms by (auto simp: bitmapClearAll_def bm_shape_def split: option.splits)

lemma pages_clearAll [bitmap_simps]: "bm_shape bm \<Longrightarrow> pages (bitmapClearAll bm) = {}"
  using clearAll_fields [of bm] data_index [of bm]
  by (auto simp: pages_def testBit_alt)

lemma bm_ok_clearAll: "bm_shape bm \<Longrightarrow> bm_ok (bitmapClearAll bm)"
  by (simp add: bm_ok_def clearAll_fields pages_clearAll)

lemma bm_ok_empty [simp]: "bm_ok bitmap_empty"
  by (simp add: bm_ok_def bm_shape_def bitmap_empty_def pages_def bitmapTestBit_def)

lemma bm_ok_free: "bm_ok (bitmapFree bm)"
  by (simp add: bm_ok_def bm_shape_def bitmapFree_def pages_def bitmapTestBit_def)

lemma hasAny_pages: "bm_shape bm \<Longrightarrow> bitmapHasAny bm \<longleftrightarrow> pages bm \<noteq> {}"
proof (cases "bm_data bm")
  case None
  then show ?thesis by (simp add: bitmapHasAny_def pages_def bitmapTestBit_def)
next
  case (Some d)
  assume sh: "bm_shape bm"
  have "bitmapHasAny bm \<longleftrightarrow> (\<exists>k < length d. \<exists>b < 8. bit (d ! k) b)"
  proof -
    have nz: "w \<noteq> 0 \<longleftrightarrow> (\<exists>b < 8. bit w b)" for w :: byte
      using bit_eq_iff [of w 0] bit_imp_le_length [of w] by (auto)
    show ?thesis using sh Some
      by (auto simp: bitmapHasAny_def bm_shape_def list_ex_iff nz) (metis in_set_conv_nth nth_mem)+
  qed
  also have "\<dots> \<longleftrightarrow> pages bm \<noteq> {}"
  proof
    assume "\<exists>k < length d. \<exists>b < 8. bit (d ! k) b"
    then obtain k b where kb: "k < length d" "b < 8" "bit (d ! k) b" by blast
    then have "(8 * int k + int b) div 8 = int k" "(8 * int k + int b) mod 8 = int b"
      by simp_all
    then have "8 * int k + int b \<in> pages bm" using kb sh Some
      by (simp add: pages_def testBit_alt bm_shape_def)
    then show "pages bm \<noteq> {}" by blast
  next
    assume "pages bm \<noteq> {}"
    then show "\<exists>k < length d. \<exists>b < 8. bit (d ! k) b"
      using Some sh data_index by (fastforce simp: pages_def testBit_alt)
  qed
  finally show ?thesis .
qed

section \<open>The interface the page cache relies on\<close>

text \<open>
  \<open>page_set\<close>: a bounded set of page numbers with a test, an insertion that drops pages outside the
  capacity, and a removal. The facts below it are about the loops that mark or unmark page after page.
\<close>

locale page_set =
  fixes test :: "'b \<Rightarrow> int \<Rightarrow> bool"
    and set_bit :: "'b \<Rightarrow> int \<Rightarrow> 'b"
    and clear_bit :: "'b \<Rightarrow> int \<Rightarrow> 'b"
    and cap :: "'b \<Rightarrow> int"
    and inv :: "'b \<Rightarrow> bool"
  assumes test_set: "inv b \<Longrightarrow> 0 \<le> i \<Longrightarrow> 0 \<le> j \<Longrightarrow> test (set_bit b i) j \<longleftrightarrow> test b j \<or> (j = i \<and> i < cap b)"
    and test_clear: "inv b \<Longrightarrow> 0 \<le> i \<Longrightarrow> 0 \<le> j \<Longrightarrow> test (clear_bit b i) j \<longleftrightarrow> test b j \<and> j \<noteq> i"
    and cap_set: "cap (set_bit b i) = cap b"
    and cap_clear: "cap (clear_bit b i) = cap b"
    and inv_set: "inv b \<Longrightarrow> 0 \<le> i \<Longrightarrow> inv (set_bit b i)"
    and inv_clear: "inv b \<Longrightarrow> 0 \<le> i \<Longrightarrow> inv (clear_bit b i)"
begin

lemma mark_list:
  assumes "inv b" and "list_all (\<lambda>i. 0 \<le> i) is"
  shows "inv (foldl set_bit b is) \<and> cap (foldl set_bit b is) = cap b \<and>
    (\<forall>j \<ge> 0. test (foldl set_bit b is) j \<longleftrightarrow> test b j \<or> (j \<in> set is \<and> j < cap b))"
  using assms
proof (induction "is" arbitrary: b)
  case Nil
  then show ?case by simp
next
  case (Cons i "is")
  then have "inv (set_bit b i)" "list_all (\<lambda>i. 0 \<le> i) is" by (simp_all add: inv_set)
  from Cons.IH [OF this] Cons.prems show ?case by (auto simp: cap_set test_set)
qed

lemma clear_list:
  assumes "inv b" and "list_all (\<lambda>i. 0 \<le> i) is"
  shows "inv (foldl clear_bit b is) \<and> cap (foldl clear_bit b is) = cap b \<and>
    (\<forall>j \<ge> 0. test (foldl clear_bit b is) j \<longleftrightarrow> test b j \<and> j \<notin> set is)"
  using assms
proof (induction "is" arbitrary: b)
  case Nil
  then show ?case by simp
next
  case (Cons i "is")
  then have "inv (clear_bit b i)" "list_all (\<lambda>i. 0 \<le> i) is" by (simp_all add: inv_clear)
  from Cons.IH [OF this] Cons.prems show ?case by (auto simp: cap_clear test_clear)
qed

end

interpretation bm: page_set bitmapTestBit bitmapSetBit bitmapClearBit capacity bm_ok
  by unfold_locales
    (simp_all add: testBit_setBit testBit_clearBit bm_ok_setBit bm_ok_clearBit bm_ok_shape)

section \<open>Range, full and growing updates\<close>

lemma data_None_setRange: "bm_data bm = None \<Longrightarrow> bitmapSetRange bm i j = bm"
  by (simp add: bitmapSetRange_def)

lemma setRange_loop_foldl:
  assumes "bm_ok bm" and "0 \<le> i" and "bm_data bm \<noteq> None"
  shows "bitmapSetRange_loop bm i j = foldl bitmapSetBit bm [i..min (j - 1) (capacity bm - 1)]"
  using assms
proof (induction bm i j rule: bitmapSetRange_loop.induct)
  case (1 bm i j)
  show ?case
  proof (cases "i < j \<and> i < capacity bm")
    case False
    then have "bitmapSetRange_loop bm i j = bm" using "1.prems"
      by (auto simp: bitmapSetRange_loop.simps [of bm i j] capacity_def Let_def)
    moreover have "[i..min (j - 1) (capacity bm - 1)] = []" using False by auto
    ultimately show ?thesis by simp
  next
    case True
    have in_range: "\<not> (c_div i 8 < 0 \<or> bm_nAlloc bm \<le> c_div i 8)" using True "1.prems"
      by (auto simp: capacity_def)
    have ok: "bm_ok (bitmapSetBit bm i)" "0 \<le> i + 1" "bm_data (bitmapSetBit bm i) \<noteq> None"
      using "1.prems" by (simp_all add: bm_ok_setBit)
    have "bitmapSetRange_loop bm i j = bitmapSetRange_loop (bitmapSetBit bm i) (i + 1) j"
      using True in_range by (simp add: bitmapSetRange_loop.simps [of bm i j] Let_def)
    also have "\<dots> = foldl bitmapSetBit (bitmapSetBit bm i) [i + 1..min (j - 1) (capacity bm - 1)]"
      using "1.IH" [OF _ refl in_range ok] True by simp
    also have "\<dots> = foldl bitmapSetBit bm [i..min (j - 1) (capacity bm - 1)]"
      using True by (subst (2) upto_rec1) auto
    finally show ?thesis .
  qed
qed

lemma setRange:
  assumes "bm_ok bm" and "0 \<le> i"
  shows "bm_ok (bitmapSetRange bm i j)" "capacity (bitmapSetRange bm i j) = capacity bm"
    "pages (bitmapSetRange bm i j) = pages bm \<union> ({i..<j} \<inter> {0..<capacity bm})"
proof -
  have *: "bm_ok (bitmapSetRange bm i j) \<and> capacity (bitmapSetRange bm i j) = capacity bm \<and>
     pages (bitmapSetRange bm i j) = pages bm \<union> ({i..<j} \<inter> {0..<capacity bm})"
  proof (cases "bm_data bm")
    case None
    then have "capacity bm = 0" using assms by (simp add: bm_ok_def bm_shape_def capacity_def)
    then show ?thesis using assms None by (simp add: data_None_setRange)
  next
    case (Some d)
    let ?is = "[i..min (j - 1) (capacity bm - 1)]"
    have r: "bitmapSetRange bm i j = foldl bitmapSetBit bm ?is"
      using setRange_loop_foldl [OF assms] Some by (simp add: bitmapSetRange_def)
    have "list_all (\<lambda>i. 0 \<le> i) ?is" using assms(2) by (auto simp: list_all_iff)
    from bm.mark_list [OF assms(1) this] show ?thesis using assms(2)
      by (auto simp: r pages_def)
  qed
  then show "bm_ok (bitmapSetRange bm i j)" "capacity (bitmapSetRange bm i j) = capacity bm"
    "pages (bitmapSetRange bm i j) = pages bm \<union> ({i..<j} \<inter> {0..<capacity bm})"
    by blast+
qed

lemma bitmapSize_bounds:
  assumes "0 < pageSize" and "fileSize < 2147483640 * pageSize"
  shows "0 \<le> bitmapSize fileSize pageSize"
    "0 < fileSize \<Longrightarrow> (fileSize + pageSize - 1) div pageSize \<le> 8 * bitmapSize fileSize pageSize"
    "0 < fileSize \<Longrightarrow> 8 * bitmapSize fileSize pageSize < (fileSize + pageSize - 1) div pageSize + 8"
proof -
  let ?n = "(fileSize + pageSize - 1) div pageSize"
  have le: "?n \<le> 2147483640" if "0 < fileSize"
  proof -
    have "fileSize + pageSize - 1 < (2147483640 + 1) * pageSize" using assms by (simp add: algebra_simps)
    moreover have "?n * pageSize \<le> fileSize + pageSize - 1"
      using minus_mod_eq_div_mult [of "fileSize + pageSize - 1" pageSize] assms
        pos_mod_sign [of pageSize "fileSize + pageSize - 1"] by linarith
    ultimately have "?n * pageSize < (2147483640 + 1) * pageSize" by linarith
    then show ?thesis using assms(1) by simp
  qed
  have nn: "0 \<le> ?n" if "0 < fileSize" using that assms by (simp add: pos_imp_zdiv_nonneg_iff)
  have s: "bitmapSize fileSize pageSize = (?n + 7) div 8" if "0 < fileSize"
    using that assms le [OF that] nn [OF that] by (simp add: bitmapSize_def Let_def)
  show "0 \<le> bitmapSize fileSize pageSize"
    using s nn by (cases "0 < fileSize") (auto simp: bitmapSize_def)
  show "0 < fileSize \<Longrightarrow> ?n \<le> 8 * bitmapSize fileSize pageSize" using s by simp
  show "0 < fileSize \<Longrightarrow> 8 * bitmapSize fileSize pageSize < ?n + 8" using s by simp
qed

lemma testBit_grown:
  assumes "bm_shape bm" and "bm_nAlloc bm \<le> nd" and "0 \<le> i"
  shows "bitmapTestBit (bm\<lparr>bm_data := Some ((case bm_data bm of None \<Rightarrow> [] | Some d \<Rightarrow> d) @ replicate (nat (nd - bm_nAlloc bm)) 0),
      bm_nAlloc := nd\<rparr>) i = bitmapTestBit bm i"
proof -
  let ?old = "case bm_data bm of None \<Rightarrow> [] | Some d \<Rightarrow> d"
  have len: "int (length ?old) = bm_nAlloc bm" using assms(1) by (auto simp: bm_shape_def split: option.splits)
  have "nat (i div 8) < length ?old \<longleftrightarrow> i div 8 < bm_nAlloc bm"
    using len assms(3) by (simp add: nat_less_iff pos_imp_zdiv_nonneg_iff flip: len)
  moreover have "nat (i div 8) - length ?old < nat (nd - bm_nAlloc bm)" if "i div 8 < nd" "\<not> i div 8 < bm_nAlloc bm"
  proof -
    have "int (nat (i div 8)) = i div 8" using assms(3) by (simp add: pos_imp_zdiv_nonneg_iff)
    then show ?thesis using that len by linarith
  qed
  ultimately show ?thesis using assms
    by (cases "bm_data bm") (auto simp: testBit_alt nth_append bm_shape_def split: if_splits)
qed

lemma ensureCapacity:
  assumes "bm_ok bm" and "bitmapEnsureCapacity bm fileSize pageSize e = (rc, bm', e')"
  shows "bm_ok bm'" "pages bm' = pages bm" "capacity bm \<le> capacity bm'" "fs e' = fs e"
    "rc = SQLITE_OK \<Longrightarrow> 8 * bitmapSize fileSize pageSize \<le> capacity bm'"
    "rc \<noteq> SQLITE_OK \<Longrightarrow> rc = SQLITE_NOMEM \<and> bm' = bm"
    "bm_data bm \<noteq> None \<Longrightarrow> bm_data bm' \<noteq> None"
proof -
  let ?nd = "bitmapSize fileSize pageSize"
  have sh: "bm_shape bm" using assms(1) by (rule bm_ok_shape)
  have *: "bm_ok bm' \<and> pages bm' = pages bm \<and> capacity bm \<le> capacity bm' \<and> fs e' = fs e \<and>
    (rc = SQLITE_OK \<longrightarrow> 8 * ?nd \<le> capacity bm') \<and> (rc \<noteq> SQLITE_OK \<longrightarrow> rc = SQLITE_NOMEM \<and> bm' = bm)
    \<and> (bm_data bm \<noteq> None \<longrightarrow> bm_data bm' \<noteq> None)"
  proof (cases "?nd \<le> 0 \<or> ?nd \<le> bm_nAlloc bm")
    case True
    moreover have "0 \<le> bm_nAlloc bm" using sh by (auto simp: bm_shape_def split: option.splits)
    moreover have "rc = SQLITE_OK \<and> bm' = bm \<and> e' = e"
      using True assms(2) by (auto simp: bitmapEnsureCapacity_def Let_def split: if_splits)
    ultimately show ?thesis using assms(1) by (auto simp: capacity_def)
  next
    case False
    show ?thesis
    proof (cases "sys_malloc ?nd e")
      case (Pair m e2)
      have fs2: "fs e2 = fs e" using Pair
        by (auto simp: sys_malloc_def split: prod.splits if_splits dest: next_io_frame)
      show ?thesis
      proof (cases m)
        case None
        then show ?thesis using False Pair assms fs2 by (auto simp: bitmapEnsureCapacity_def)
      next
        case (Some x)
        let ?old = "case bm_data bm of None \<Rightarrow> [] | Some d \<Rightarrow> d"
        have b: "bm' = bm\<lparr>bm_data := Some (?old @ replicate (nat (?nd - bm_nAlloc bm)) 0), bm_nAlloc := ?nd\<rparr>"
            "rc = SQLITE_OK" "e' = e2"
          using False Pair assms(2) Some by (auto simp: bitmapEnsureCapacity_def Let_def)
        have len: "int (length ?old) = bm_nAlloc bm" using sh by (auto simp: bm_shape_def split: option.splits)
        have sh': "bm_shape bm'" using len False by (auto simp: b bm_shape_def)
        have "bitmapTestBit bm' i = bitmapTestBit bm i" if "0 \<le> i" for i
          using testBit_grown [OF sh _ that, of ?nd] False by (simp add: b)
        then have "pages bm' = pages bm" by (auto simp: pages_def)
        then show ?thesis using assms(1) sh' False fs2 by (auto simp: b bm_ok_def capacity_def)
      qed
    qed
  qed
  then show "bm_ok bm'" "pages bm' = pages bm" "capacity bm \<le> capacity bm'" "fs e' = fs e"
    "rc = SQLITE_OK \<Longrightarrow> 8 * bitmapSize fileSize pageSize \<le> capacity bm'"
    "rc \<noteq> SQLITE_OK \<Longrightarrow> rc = SQLITE_NOMEM \<and> bm' = bm"
    "bm_data bm \<noteq> None \<Longrightarrow> bm_data bm' \<noteq> None"
    by blast+
qed

text \<open>\<^verbatim>\<open>bitmapSetAll\<close> sets exactly the first pages, provided no page above them was set before: it
  neither clears bits above nor looks at them when it sets the running count.\<close>

lemma bit_FF: "n < 8 \<Longrightarrow> bit (0xFF :: byte) n"
proof -
  assume "n < 8"
  then have "n \<in> {0, 1, 2, 3, 4, 5, 6, 7}" by auto
  then show ?thesis by auto
qed

lemma bit_low_mask: "n < 8 \<Longrightarrow> bit (push_bit r 1 - 1 :: byte) n \<longleftrightarrow> n < r"
  by (simp add: push_bit_of_1 mask_eq_exp_minus_1 [symmetric] bit_mask_iff possible_bit_word)

lemma mod8_less_iff:
  assumes "i div 8 = n div 8" and "0 < n mod (8 :: int)"
  shows "nat (i mod 8) < nat (n mod 8) \<longleftrightarrow> i < n"
proof -
  have "i = 8 * (n div 8) + i mod 8" "n = 8 * (n div 8) + n mod 8"
    using mult_div_mod_eq [of 8 i] mult_div_mod_eq [of 8 n] assms(1) by simp_all
  then have "i mod 8 < n mod 8 \<longleftrightarrow> i < n" by (metis add_less_cancel_left)
  with assms(2) show ?thesis by (simp add: zless_nat_conj)
qed

text \<open>The bytes \<^verbatim>\<open>bitmapSetAll\<close> leaves: full ones, one with the low bits of the rest, and the old ones behind.\<close>

definition setAll_data :: "int \<Rightarrow> bytes \<Rightarrow> bytes" where
  "setAll_data n d =
     (let d1 = replicate (nat (n div 8)) 0xFF @ drop (nat (n div 8)) d
      in if n mod 8 > 0 \<and> n div 8 < int (length d) then d1[nat (n div 8) := push_bit (nat (n mod 8)) 1 - 1] else d1)"

lemma setAll_data_nth:
  assumes "0 \<le> n" and "n div 8 \<le> int (length d)" and "0 \<le> j" and "j < int (length d)"
  shows "setAll_data n d ! nat j =
    (if j < n div 8 then 0xFF else if j = n div 8 \<and> n mod 8 > 0 then push_bit (nat (n mod 8)) 1 - 1 else d ! nat j)"
proof -
  define m where "m = nat (n div 8)"
  have m: "m \<le> length d" "int m = n div 8" using assms(1,2) by (simp_all add: m_def pos_imp_zdiv_nonneg_iff nat_le_iff)
  have j: "nat j < length d" "nat j < m \<longleftrightarrow> j < n div 8" "nat j = m \<longleftrightarrow> j = n div 8" using assms(3,4) m(2) by linarith+
  have "(replicate m 0xFF @ drop m d) ! nat j = (if nat j < m then 0xFF else d ! nat j)"
    using m(1) j(1) by (simp add: nth_append)
  moreover have "length (replicate m 0xFF @ drop m d) = length d" using m(1) by simp
  ultimately show ?thesis
    using j assms(3,4) unfolding setAll_data_def Let_def m_def [symmetric] by (auto simp: nth_list_update)
qed

lemma setAll_bit:
  assumes "0 \<le> n" and "n div 8 \<le> int (length d)" and "0 \<le> i" and "i div 8 < int (length d)"
  shows "bit (setAll_data n d ! nat (i div 8)) (nat (i mod 8)) \<longleftrightarrow>
    i < n \<or> bit (d ! nat (i div 8)) (nat (i mod 8)) \<and> n \<le> 8 * (i div 8)"
proof -
  have m8: "nat (i mod 8) < 8" by (rule nat_mod8_less)
  have nth: "setAll_data n d ! nat (i div 8) = (if i div 8 < n div 8 then 0xFF
      else if i div 8 = n div 8 \<and> n mod 8 > 0 then push_bit (nat (n mod 8)) 1 - 1 else d ! nat (i div 8))"
    using assms by (intro setAll_data_nth) (simp_all add: pos_imp_zdiv_nonneg_iff)
  consider (lo) "i div 8 < n div 8" | (part) "i div 8 = n div 8" "n mod 8 > 0" | (rest) "n \<le> 8 * (i div 8)" "\<not> i div 8 < n div 8" "n mod 8 = 0 \<or> i div 8 \<noteq> n div 8"
    using mult_div_mod_eq [of 8 n] pos_mod_sign [of 8 n] by linarith
  then show ?thesis
  proof cases
    case lo
    moreover have "i < n" using lo mult_div_mod_eq [of 8 i] mult_div_mod_eq [of 8 n] pos_mod_bound [of 8 i] pos_mod_sign [of 8 n] by linarith
    ultimately show ?thesis using bit_FF [OF m8] by (simp add: nth)
  next
    case part
    moreover have "\<not> n \<le> 8 * (i div 8)" using part mult_div_mod_eq [of 8 n] by linarith
    ultimately show ?thesis unfolding nth using mod8_less_iff [OF part] bit_low_mask [OF m8] by simp
  next
    case rest
    moreover have "\<not> i < n" using rest(1) mult_div_mod_eq [of 8 i] pos_mod_sign [of 8 i] by linarith
    ultimately show ?thesis by (auto simp: nth)
  qed
qed

lemma setAll_bits:
  assumes "bm_shape bm" and "bm_data bm = Some d" and "0 \<le> n" and "n \<le> capacity bm" and "0 \<le> i"
  shows "bitmapTestBit (bitmapSetAll bm n) i \<longleftrightarrow>
     i < n \<or> (bitmapTestBit bm i \<and> n \<le> 8 * (i div 8))"
proof (cases "bm_nAlloc bm \<le> 0")
  case True
  then have "bm_nAlloc bm = 0" using assms(1,2) by (simp add: bm_shape_def)
  then show ?thesis using assms by (auto simp: bitmapSetAll_def capacity_def testBit_alt)
next
  case False
  have len: "int (length d) = bm_nAlloc bm" using assms by (simp add: bm_shape_def)
  have full: "n div 8 \<le> bm_nAlloc bm" using assms(4) by (simp add: capacity_def)
  then have e: "bitmapSetAll bm n = bm\<lparr>bm_data := Some (setAll_data n d), bm_nSet := n\<rparr>"
    using assms(2,3) False by (simp add: bitmapSetAll_def setAll_data_def min_def len Let_def)
  have "i div 8 < bm_nAlloc bm" if "i < n" using that assms(4) by (auto simp: capacity_def)
  then show ?thesis using setAll_bit [OF assms(3) _ assms(5), of d] full len assms(2,5) by (auto simp: e testBit_alt)
qed

lemma setAll:
  assumes "bm_ok bm" and "bm_data bm \<noteq> None" and "0 \<le> n" and "n \<le> capacity bm"
    and "pages bm \<subseteq> {0..<n}"
  shows "pages (bitmapSetAll bm n) = {0..<n}" "bm_ok (bitmapSetAll bm n)"
    "capacity (bitmapSetAll bm n) = capacity bm"
proof -
  obtain d where d: "bm_data bm = Some d" using assms(2) by blast
  have sh: "bm_shape bm" using assms(1) by (rule bm_ok_shape)
  show p: "pages (bitmapSetAll bm n) = {0..<n}"
    using setAll_bits [OF sh d assms(3,4)] assms(5) by (auto simp: pages_def)
  have a: "bm_nAlloc (bitmapSetAll bm n) = bm_nAlloc bm"
    by (simp add: bitmapSetAll_def Let_def split: option.splits)
  then show "capacity (bitmapSetAll bm n) = capacity bm" by (simp add: capacity_def)
  have "bm_nSet (bitmapSetAll bm n) = n"
  proof (cases "bm_nAlloc bm \<le> 0")
    case True
    then have "n = 0" "pages bm = {}" using assms d sh by (auto simp: bm_shape_def capacity_def)
    with True assms d show ?thesis by (simp add: bitmapSetAll_def bm_ok_def)
  next
    case False
    then show ?thesis using d by (simp add: bitmapSetAll_def Let_def)
  qed
  moreover have "bm_shape (bitmapSetAll bm n)" using sh assms(3,4) d
    by (auto simp: bitmapSetAll_def bm_shape_def Let_def capacity_def)
  ultimately show "bm_ok (bitmapSetAll bm n)" using p assms(3) by (simp add: bm_ok_def)
qed

end
