(* ===== verification/File_State.thy ===== *)
theory File_State
  imports Bitmap Azure_Ops
begin

text \<open>
  The state of the VFS: the activity counters of \<^verbatim>\<open>sqlite_objs.h\<close>, the per-file record
  \<^verbatim>\<open>sqliteObjsFile\<close>, the per-journal existence cache and the global record \<^verbatim>\<open>sqliteObjsVfsData\<close> of
  \<^verbatim>\<open>sqlite_objs_vfs.c\<close>, and the environment every operation runs in.

  \<open>env\<close> extends the local machine (\<open>posix\<close>) with the state behind the Azure operations
  (\<open>remote\<close>, of any type) and the VFS globals. A file operation takes the file record and the environment and
  returns its result code, its outputs, the new file record and the new environment. A pointer that
  may be \<^verbatim>\<open>NULL\<close> and the descriptor that may be \<^verbatim>\<open>-1\<close> are options; \<^verbatim>\<open>ops\<close> together with \<^verbatim>\<open>ops_ctx\<close> is the
  vtable \<open>azure_ops\<close>. The debug output on \<^verbatim>\<open>stderr\<close>, its timers, and the hooks compiled only with
  \<^verbatim>\<open>SQLITE_OBJS_TEST\<close> are not part of the model.
\<close>

section \<open>Counters\<close>

record sqlite_objs_metrics =
  disk_reads :: int
  disk_writes :: int
  disk_bytes_read :: int
  disk_bytes_written :: int
  blob_reads :: int
  blob_writes :: int
  blob_bytes_read :: int
  blob_bytes_written :: int
  cache_hits :: int
  cache_misses :: int
  cache_miss_pages :: int
  prefetch_pages :: int
  lease_acquires :: int
  lease_renewals :: int
  lease_releases :: int
  syncs :: int
  dirty_pages_synced :: int
  blob_resizes :: int
  revalidations :: int
  revalidation_downloads :: int
  revalidation_diffs :: int
  revalidation_busy :: int
  pages_invalidated :: int
  journal_uploads :: int
  journal_bytes_uploaded :: int
  wal_uploads :: int
  wal_bytes_uploaded :: int
  azure_errors :: int

definition metrics_zero :: sqlite_objs_metrics where
  "metrics_zero =
     \<lparr>disk_reads = 0, disk_writes = 0, disk_bytes_read = 0, disk_bytes_written = 0,
      blob_reads = 0, blob_writes = 0, blob_bytes_read = 0, blob_bytes_written = 0,
      cache_hits = 0, cache_misses = 0, cache_miss_pages = 0, prefetch_pages = 0,
      lease_acquires = 0, lease_renewals = 0, lease_releases = 0,
      syncs = 0, dirty_pages_synced = 0, blob_resizes = 0,
      revalidations = 0, revalidation_downloads = 0, revalidation_diffs = 0, revalidation_busy = 0,
      pages_invalidated = 0, journal_uploads = 0, journal_bytes_uploaded = 0, wal_uploads = 0,
      wal_bytes_uploaded = 0, azure_errors = 0\<rparr>"

section \<open>Constants\<close>

definition SQLITE_OBJS_DEFAULT_PAGE_SIZE :: int where [simp]: "SQLITE_OBJS_DEFAULT_PAGE_SIZE = 4096"
definition SQLITE_OBJS_PREFETCH_ALL :: int where [simp]: "SQLITE_OBJS_PREFETCH_ALL = 0"
definition SQLITE_OBJS_PREFETCH_NONE :: int where [simp]: "SQLITE_OBJS_PREFETCH_NONE = 1"
definition SQLITE_OBJS_READAHEAD_PAGES :: int where [simp]: "SQLITE_OBJS_READAHEAD_PAGES = 16"
definition SQLITE_OBJS_PAGE1_BOOTSTRAP :: int where [simp]: "SQLITE_OBJS_PAGE1_BOOTSTRAP = 65536"
definition SQLITE_OBJS_LEASE_DURATION :: int where [simp]: "SQLITE_OBJS_LEASE_DURATION = 30"
definition SQLITE_OBJS_LEASE_DURATION_LONG :: int where [simp]: "SQLITE_OBJS_LEASE_DURATION_LONG = 60"
definition SQLITE_OBJS_DIRTY_PAGE_THRESHOLD :: int where [simp]: "SQLITE_OBJS_DIRTY_PAGE_THRESHOLD = 100"
definition SQLITE_OBJS_MAX_PATHNAME :: int where [simp]: "SQLITE_OBJS_MAX_PATHNAME = 512"
definition SQLITE_OBJS_INITIAL_ALLOC :: int where [simp]: "SQLITE_OBJS_INITIAL_ALLOC = 64 * 1024"
definition SQLITE_OBJS_WAL_DEFAULT_CHUNK :: int where [simp]: "SQLITE_OBJS_WAL_DEFAULT_CHUNK = 1024 * 1024"
definition SQLITE_OBJS_MAX_JOURNAL_CACHE :: nat where [simp]: "SQLITE_OBJS_MAX_JOURNAL_CACHE = 16"
definition SQLITE_OBJS_MAX_PUT_PAGE :: int where [simp]: "SQLITE_OBJS_MAX_PUT_PAGE = 4 * 1024 * 1024"

section \<open>Per-file state\<close>

text \<open>The three kinds of file the VFS backs with Azure: \<^verbatim>\<open>SQLITE_OPEN_MAIN_DB\<close>,
  \<^verbatim>\<open>SQLITE_OPEN_MAIN_JOURNAL\<close> and \<^verbatim>\<open>SQLITE_OPEN_WAL\<close>.\<close>

datatype file_type = MAIN_DB | MAIN_JOURNAL | WAL

record 'w sqliteObjsFile =
  pMethod :: bool
  ops :: "'w azure_ops option"
  zBlobName :: "string option"
  cacheFd :: "string option"
  zCachePath :: "string option"
  nData :: int
  dirty :: bitmap
  pageSize :: int
  lastSyncDirtyCount :: int
  valid :: bitmap
  prefetchMode :: int
  eLock :: int
  leaseId :: string
  leaseAcquiredAt :: int
  leaseDuration :: int
  readsSinceSharedLock :: int
  lastSyncedSize :: int
  etag :: string
  snapshot :: string
  cacheReuse :: bool
  eFileType :: file_type
  aJrnlData :: "bytes option"
  nJrnlData :: int
  nJrnlAlloc :: int
  aWalData :: "bytes option"
  nWalData :: int
  nWalAlloc :: int
  nDownloads :: int
  metrics :: sqlite_objs_metrics
  ownClient :: "azure_client_config option"

text \<open>The record after \<^verbatim>\<open>memset(p, 0, sizeof(*p))\<close> and \<^verbatim>\<open>cacheFd = -1\<close>.\<close>

definition file_zero :: "'w sqliteObjsFile" where
  "file_zero =
     \<lparr>pMethod = False, ops = None, zBlobName = None, cacheFd = None, zCachePath = None, nData = 0,
      dirty = bitmap_empty, pageSize = 0, lastSyncDirtyCount = 0, valid = bitmap_empty, prefetchMode = 0,
      eLock = 0, leaseId = [], leaseAcquiredAt = 0, leaseDuration = 0, readsSinceSharedLock = 0,
      lastSyncedSize = 0, etag = [], snapshot = [], cacheReuse = False, eFileType = MAIN_DB,
      aJrnlData = None, nJrnlData = 0, nJrnlAlloc = 0, aWalData = None, nWalData = 0, nWalAlloc = 0,
      nDownloads = 0, metrics = metrics_zero, ownClient = None\<rparr>"

text \<open>\<open>bump f n p\<close> adds \<open>n\<close> to one counter of the file, e.g. \<open>bump disk_reads_update 1 p\<close> for
  \<^verbatim>\<open>p->metrics.disk_reads++\<close>.\<close>

definition bump ::
  "((int \<Rightarrow> int) \<Rightarrow> sqlite_objs_metrics \<Rightarrow> sqlite_objs_metrics) \<Rightarrow> int \<Rightarrow> 'w sqliteObjsFile \<Rightarrow> 'w sqliteObjsFile"
where
  "bump upd n p = p\<lparr>metrics := upd (\<lambda>x. x + n) (metrics p)\<rparr>"

text \<open>The name passed to Azure: a \<^verbatim>\<open>NULL\<close> blob name cannot occur on an open file.\<close>

definition blob :: "'w sqliteObjsFile \<Rightarrow> string" where
  "blob p = (case zBlobName p of None \<Rightarrow> [] | Some n \<Rightarrow> n)"

definition hasLease :: "'w sqliteObjsFile \<Rightarrow> bool" where
  "hasLease p \<longleftrightarrow> leaseId p \<noteq> []"

definition lease_arg :: "'w sqliteObjsFile \<Rightarrow> string option" where
  "lease_arg p = (if hasLease p then Some (leaseId p) else None)"

section \<open>Global state\<close>

record sqliteObjsJournalCacheEntry =
  jc_state :: int
  jc_zBlobName :: string

record 'w sqliteObjsVfsData =
  vd_ops :: "'w azure_ops option"
  vd_client :: "azure_client_config option"
  vd_lastError :: string
  walParallelUpload :: int
  walChunkSize :: int
  journalCache :: "sqliteObjsJournalCacheEntry list"

record 'w env = posix +
  remote :: 'w
  vfs_data :: "'w sqliteObjsVfsData"
  g_xread_count :: int
  g_xread_journal_count :: int

text \<open>\<^verbatim>\<open>g_vfsData\<close> after its \<^verbatim>\<open>memset\<close>, and an environment to start from.\<close>

definition vfs_data_zero :: "'w sqliteObjsVfsData" where
  "vfs_data_zero =
     \<lparr>vd_ops = None, vd_client = None, vd_lastError = [], walParallelUpload = 0, walChunkSize = 0,
      journalCache = []\<rparr>"

definition env_start :: "'w \<Rightarrow> 'w env" where
  "env_start w =
     \<lparr>fs = (\<lambda>_. None), faults = [], clock = 0, ticks = [], heap_junk = 0, tmp_suffixes = [''aaaaaa''],
      remote = w, vfs_data = vfs_data_zero, g_xread_count = 0, g_xread_journal_count = 0\<rparr>"

text \<open>Reaching Azure through the environment.\<close>

definition call_azure :: "('w, 'o) azure_query \<Rightarrow> 'w env \<Rightarrow> azure_err \<times> 'o \<times> azure_error \<times> 'w env" where
  "call_azure f e = (case f (remote e) of (rc, out, err, w) \<Rightarrow> (rc, out, err, e\<lparr>remote := w\<rparr>))"

definition do_azure :: "'w azure_call \<Rightarrow> 'w env \<Rightarrow> azure_err \<times> azure_error \<times> 'w env" where
  "do_azure f e = (case f (remote e) of (rc, err, w) \<Rightarrow> (rc, err, e\<lparr>remote := w\<rparr>))"

section \<open>Facts about the accessors\<close>

lemma bump_frame [simp]:
  "pMethod (bump u n p) = pMethod p" "ops (bump u n p) = ops p" "zBlobName (bump u n p) = zBlobName p"
  "cacheFd (bump u n p) = cacheFd p" "zCachePath (bump u n p) = zCachePath p"
  "nData (bump u n p) = nData p" "dirty (bump u n p) = dirty p" "pageSize (bump u n p) = pageSize p"
  "lastSyncDirtyCount (bump u n p) = lastSyncDirtyCount p" "valid (bump u n p) = valid p"
  "prefetchMode (bump u n p) = prefetchMode p" "eLock (bump u n p) = eLock p"
  "leaseId (bump u n p) = leaseId p" "leaseAcquiredAt (bump u n p) = leaseAcquiredAt p"
  "leaseDuration (bump u n p) = leaseDuration p"
  "readsSinceSharedLock (bump u n p) = readsSinceSharedLock p"
  "lastSyncedSize (bump u n p) = lastSyncedSize p" "etag (bump u n p) = etag p"
  "snapshot (bump u n p) = snapshot p" "cacheReuse (bump u n p) = cacheReuse p"
  "eFileType (bump u n p) = eFileType p" "aJrnlData (bump u n p) = aJrnlData p"
  "nJrnlData (bump u n p) = nJrnlData p" "nJrnlAlloc (bump u n p) = nJrnlAlloc p"
  "aWalData (bump u n p) = aWalData p" "nWalData (bump u n p) = nWalData p"
  "nWalAlloc (bump u n p) = nWalAlloc p" "nDownloads (bump u n p) = nDownloads p"
  "ownClient (bump u n p) = ownClient p"
  by (simp_all add: bump_def)

lemma blob_bump [simp]: "blob (bump u n p) = blob p"
  by (simp add: blob_def)

lemma hasLease_bump [simp]: "hasLease (bump u n p) = hasLease p"
  by (simp add: hasLease_def)

lemma lease_arg_bump [simp]: "lease_arg (bump u n p) = lease_arg p"
  by (simp add: lease_arg_def)

lemma do_azure_frame:
  "do_azure f e = (rc, err, e') \<Longrightarrow>
     fs e' = fs e \<and> faults e' = faults e \<and> vfs_data e' = vfs_data e \<and> tmp_suffixes e' = tmp_suffixes e"
  by (auto simp: do_azure_def split: prod.splits)

lemma call_azure_frame:
  "call_azure f e = (rc, out, err, e') \<Longrightarrow>
     fs e' = fs e \<and> faults e' = faults e \<and> vfs_data e' = vfs_data e \<and> tmp_suffixes e' = tmp_suffixes e"
  by (auto simp: call_azure_def split: prod.splits)

end
