(* ===== verification/Page_Cache.thy ===== *)
theory Page_Cache
  imports File_State
begin

text \<open>
  The helpers of \<^verbatim>\<open>sqlite_objs_vfs.c\<close> around the local page cache: marking pages dirty and valid,
  growing the cache file and the bitmaps together, fetching pages from Azure on a miss, prefetching,
  applying an incremental diff, the growable heap buffers of journal and WAL files, lease renewal, the
  translation of Azure errors and the page-size detection.
\<close>

section \<open>Descriptors that may be closed\<close>

definition pread_fd :: "string option \<Rightarrow> int \<Rightarrow> int \<Rightarrow> 'a posix_scheme \<Rightarrow> int \<times> bytes \<times> 'a posix_scheme" where
  "pread_fd fd n off e = (case fd of None \<Rightarrow> (-1, [], e) | Some f \<Rightarrow> sys_pread f n off e)"

definition pwrite_fd :: "string option \<Rightarrow> bytes \<Rightarrow> int \<Rightarrow> 'a posix_scheme \<Rightarrow> int \<times> 'a posix_scheme" where
  "pwrite_fd fd d off e = (case fd of None \<Rightarrow> (-1, e) | Some f \<Rightarrow> sys_pwrite f d off e)"

definition ftruncate_fd :: "string option \<Rightarrow> int \<Rightarrow> 'a posix_scheme \<Rightarrow> int \<times> 'a posix_scheme" where
  "ftruncate_fd fd n e = (case fd of None \<Rightarrow> (-1, e) | Some f \<Rightarrow> sys_ftruncate f n e)"

definition fsync_fd :: "string option \<Rightarrow> 'a posix_scheme \<Rightarrow> int \<times> 'a posix_scheme" where
  "fsync_fd fd e = (case fd of None \<Rightarrow> (-1, e) | Some f \<Rightarrow> sys_fsync f e)"

section \<open>Marking pages\<close>

definition dirtyMarkPage :: "'w sqliteObjsFile \<Rightarrow> int \<Rightarrow> 'w sqliteObjsFile" where
  "dirtyMarkPage p off =
     (if pageSize p \<le> 0 then p
      else p\<lparr>dirty := bitmapSetBit (dirty p) (c_int (c_div off (pageSize p)))\<rparr>)"

definition validMarkPage :: "'w sqliteObjsFile \<Rightarrow> int \<Rightarrow> 'w sqliteObjsFile" where
  "validMarkPage p off =
     (if pageSize p \<le> 0 then p
      else p\<lparr>valid := bitmapSetBit (valid p) (c_int (c_div off (pageSize p)))\<rparr>)"

definition validMarkRange :: "'w sqliteObjsFile \<Rightarrow> int \<Rightarrow> int \<Rightarrow> 'w sqliteObjsFile" where
  "validMarkRange p startOffset endOffset =
     (if pageSize p \<le> 0 then p
      else let startPage = c_int (c_div startOffset (pageSize p));
               endPage = c_int (c_div (endOffset + pageSize p - 1) (pageSize p))
           in p\<lparr>valid := bitmapSetRange (valid p) startPage endPage\<rparr>)"

definition validMarkAll :: "'w sqliteObjsFile \<Rightarrow> 'w sqliteObjsFile" where
  "validMarkAll p =
     (if pageSize p \<le> 0 then p
      else let nPages = c_int (c_div (nData p + pageSize p - 1) (pageSize p))
           in p\<lparr>valid := bitmapSetAll (valid p) nPages\<rparr>)"

section \<open>Growing the cache\<close>

definition bitmapsEnsureCapacity ::
  "'w sqliteObjsFile \<Rightarrow> 'w env \<Rightarrow> sqlite_rc \<times> 'w sqliteObjsFile \<times> 'w env" where
  "bitmapsEnsureCapacity p e =
     (case bitmapEnsureCapacity (dirty p) (nData p) (pageSize p) e of (rc, bm, e) \<Rightarrow>
      let p = p\<lparr>dirty := bm\<rparr> in
      if rc \<noteq> SQLITE_OK then (rc, p, e)
      else if prefetchMode p = SQLITE_OBJS_PREFETCH_NONE
      then (case bitmapEnsureCapacity (valid p) (nData p) (pageSize p) e of
              (rc, bm, e) \<Rightarrow> (rc, p\<lparr>valid := bm\<rparr>, e))
      else (rc, p, e))"

definition cacheEnsureSize ::
  "'w sqliteObjsFile \<Rightarrow> int \<Rightarrow> 'w env \<Rightarrow> sqlite_rc \<times> 'w sqliteObjsFile \<times> 'w env" where
  "cacheEnsureSize p newSize e =
     (case cacheFd p of
        None \<Rightarrow> (SQLITE_IOERR, p, e)
      | Some fd \<Rightarrow>
          (case sys_lseek_end fd e of (currentSize, e) \<Rightarrow>
           if currentSize < 0 then (SQLITE_IOERR, p, e)
           else if newSize \<le> currentSize then (SQLITE_OK, p, e)
           else case sys_ftruncate fd newSize e of (r, e) \<Rightarrow>
           if r \<noteq> 0 then (SQLITE_IOERR, p, e)
           else bitmapsEnsureCapacity p e))"

section \<open>Fetching pages\<close>

text \<open>The part \<^verbatim>\<open>fetchPagesFromAzure\<close> and \<^verbatim>\<open>prefetchInvalidPages\<close> share: one ranged read of the blob, stored in
  the cache file at the same offset, its pages marked valid.\<close>

definition fetch_range ::
  "(string \<Rightarrow> int \<Rightarrow> int \<Rightarrow> ('w, bytes) azure_query) \<Rightarrow> 'w sqliteObjsFile \<Rightarrow> int \<Rightarrow> int \<Rightarrow> 'w env \<Rightarrow>
     sqlite_rc \<times> 'w sqliteObjsFile \<times> 'w env" where
  "fetch_range rd p startOffset fetchLen e =
     (case call_azure (rd (blob p) startOffset fetchLen) e of (arc, rbuf, aerr, e) \<Rightarrow>
      if arc \<noteq> AZURE_OK then (SQLITE_IOERR_READ, bump azure_errors_update 1 p, e)
      else if rbuf = [] then (SQLITE_IOERR_READ, p, e)
      else
        let p = bump blob_bytes_read_update (int (length rbuf)) (bump blob_reads_update 1 p);
            writeLen = (if int (length rbuf) < fetchLen then int (length rbuf) else fetchLen) in
        case pwrite_fd (cacheFd p) (take (nat writeLen) rbuf) startOffset e of (nw, e) \<Rightarrow>
        if nw < 0 \<or> nw \<noteq> writeLen then (SQLITE_IOERR_WRITE, p, e)
        else
          let p = bump disk_bytes_written_update writeLen (bump disk_writes_update 1 p)
          in (SQLITE_OK, validMarkRange p startOffset (startOffset + writeLen), e))"

definition fetchPagesFromAzure ::
  "'w sqliteObjsFile \<Rightarrow> int \<Rightarrow> 'w env \<Rightarrow> sqlite_rc \<times> 'w sqliteObjsFile \<times> 'w env" where
  "fetchPagesFromAzure p pageIdx e =
     (case Option.bind (ops p) page_blob_read of
        None \<Rightarrow> (SQLITE_IOERR_READ, p, e)
      | Some rd \<Rightarrow>
          if pageSize p \<le> 0 \<or> cacheFd p = None then (SQLITE_IOERR_READ, p, e)
          else
            let startOffset = pageIdx * pageSize p;
                endOffset = startOffset + SQLITE_OBJS_READAHEAD_PAGES * pageSize p;
                endOffset = (if nData p < endOffset then nData p else endOffset) in
            if nData p \<le> startOffset then (SQLITE_OK, p, e)
            else
              let fetchLen = endOffset - startOffset in
              if fetchLen = 0 then (SQLITE_OK, p, e)
              else fetch_range rd p startOffset fetchLen e)"

text \<open>The inner loop of \<^verbatim>\<open>prefetchInvalidPages\<close>: the end of the run of invalid pages that starts at \<open>i\<close>.\<close>

function invalid_run_end :: "bitmap \<Rightarrow> int \<Rightarrow> int \<Rightarrow> int" where
  "invalid_run_end bm nPages i =
     (if i < nPages \<and> \<not> bitmapTestBit bm i then invalid_run_end bm nPages (i + 1) else i)"
  by pat_completeness auto
termination
  by (relation "measure (\<lambda>(bm, nPages, i). nat (nPages - i))") auto

declare invalid_run_end.simps [simp del]

lemma invalid_run_end_ge: "i \<le> invalid_run_end bm nPages i"
proof (induction bm nPages i rule: invalid_run_end.induct)
  case (1 bm nPages i)
  then show ?case by (subst invalid_run_end.simps) (simp split: if_split, linarith?)
qed

lemma invalid_run_end_gt:
  "i < nPages \<Longrightarrow> \<not> bitmapTestBit bm i \<Longrightarrow> i < invalid_run_end bm nPages i"
  using invalid_run_end_ge [of "i + 1" bm nPages] by (subst invalid_run_end.simps) simp

function prefetch_loop ::
  "(string \<Rightarrow> int \<Rightarrow> int \<Rightarrow> ('w, bytes) azure_query) \<Rightarrow> int \<Rightarrow> int \<Rightarrow> 'w sqliteObjsFile \<Rightarrow> 'w env \<Rightarrow>
     sqlite_rc \<times> 'w sqliteObjsFile \<times> 'w env" where
  "prefetch_loop rd nPages i p e =
     (if \<not> i < nPages then (SQLITE_OK, p, e)
      else if bitmapTestBit (valid p) i then prefetch_loop rd nPages (i + 1) p e
      else
        let rangeStart = i; rangeEnd = invalid_run_end (valid p) nPages i;
            startOffset = rangeStart * pageSize p; endOffset = rangeEnd * pageSize p;
            endOffset = (if nData p < endOffset then nData p else endOffset);
            fetchLen = endOffset - startOffset in
        if fetchLen = 0 then prefetch_loop rd nPages rangeEnd p e
        else case fetch_range rd p startOffset fetchLen e of (rc, p, e) \<Rightarrow>
             if rc \<noteq> SQLITE_OK then (rc, p, e)
             else prefetch_loop rd nPages rangeEnd (bump prefetch_pages_update (rangeEnd - rangeStart) p) e)"
  by pat_completeness auto
termination
  by (relation "measure (\<lambda>(rd, nPages, i, p, e). nat (nPages - i))")
     (auto dest: invalid_run_end_gt)

declare prefetch_loop.simps [simp del]

definition prefetchInvalidPages ::
  "'w sqliteObjsFile \<Rightarrow> 'w env \<Rightarrow> sqlite_rc \<times> 'w sqliteObjsFile \<times> 'w env" where
  "prefetchInvalidPages p e =
     (if bm_data (valid p) = None \<or> pageSize p \<le> 0 \<or> nData p \<le> 0 then (SQLITE_OK, p, e)
      else case Option.bind (ops p) page_blob_read of
        None \<Rightarrow> (SQLITE_IOERR, p, e)
      | Some rd \<Rightarrow>
          let nPages = c_int (c_div (nData p + pageSize p - 1) (pageSize p))
          in prefetch_loop rd nPages 0 p e)"

section \<open>Page size\<close>

definition SQLITE_MAGIC :: bytes where
  "SQLITE_MAGIC = [83, 81, 76, 105, 116, 101, 32, 102, 111, 114, 109, 97, 116, 32, 51, 0]"

definition detectPageSize :: "bytes \<Rightarrow> int \<Rightarrow> int" where
  "detectPageSize aData n =
     (if n < 100 then 0
      else if take 16 aData \<noteq> SQLITE_MAGIC then 0
      else let ps = uint (aData ! 16) * 256 + uint (aData ! 17);
               ps = (if ps = 1 then 65536 else ps) in
           if ps < 512 \<or> 65536 < ps then 0
           else if ps AND (ps - 1) \<noteq> 0 then 0
           else ps)"

section \<open>Incremental diff\<close>

text \<open>The two branches of the loop body of \<^verbatim>\<open>applyIncrementalDiff\<close>; the boolean is \<^verbatim>\<open>diffOk\<close>.\<close>

definition diff_store ::
  "'w sqliteObjsFile \<Rightarrow> bytes \<Rightarrow> int \<Rightarrow> int \<Rightarrow> 'w env \<Rightarrow> bool \<times> 'w sqliteObjsFile \<times> 'w env" where
  "diff_store p d rangeStart rangeLen e =
     (case pwrite_fd (cacheFd p) d rangeStart e of (nw, e) \<Rightarrow>
      if nw \<noteq> rangeLen then (False, p, e)
      else
        let p = bump disk_bytes_written_update rangeLen (bump disk_writes_update 1 p);
            p = (if bm_data (valid p) \<noteq> None then validMarkRange p rangeStart (rangeStart + rangeLen) else p)
        in (True, p, e))"

definition diff_range ::
  "(string \<Rightarrow> int \<Rightarrow> int \<Rightarrow> ('w, bytes) azure_query) \<Rightarrow> azure_diff_range \<Rightarrow> 'w sqliteObjsFile \<Rightarrow> 'w env \<Rightarrow>
     bool \<times> 'w sqliteObjsFile \<times> 'w env" where
  "diff_range rd r p e =
     (let rangeStart = dr_start r; rangeLen = dr_end r - rangeStart + 1 in
      if rangeLen \<le> 0 then (True, p, e)
      else if dr_is_clear r
      then (case sys_malloc rangeLen e of
              (None, e) \<Rightarrow> (False, p, e)
            | (Some _, e) \<Rightarrow> diff_store p (replicate (nat rangeLen) 0) rangeStart rangeLen e)
      else
        case call_azure (rd (blob p) rangeStart rangeLen) e of (rrc, rbuf, rerr, e) \<Rightarrow>
        if rrc \<noteq> AZURE_OK \<or> rbuf = [] \<or> int (length rbuf) < rangeLen
        then (False, if rrc \<noteq> AZURE_OK then bump azure_errors_update 1 p else p, e)
        else
          let p = bump blob_bytes_read_update (int (length rbuf)) (bump blob_reads_update 1 p)
          in diff_store p (take (nat rangeLen) rbuf) rangeStart rangeLen e)"

fun diff_loop ::
  "(string \<Rightarrow> int \<Rightarrow> int \<Rightarrow> ('w, bytes) azure_query) \<Rightarrow> azure_diff_range list \<Rightarrow> 'w sqliteObjsFile \<Rightarrow> 'w env \<Rightarrow>
     bool \<times> 'w sqliteObjsFile \<times> 'w env" where
  "diff_loop rd [] p e = (True, p, e)"
| "diff_loop rd (r # rs) p e =
     (case diff_range rd r p e of
        (True, p, e) \<Rightarrow> diff_loop rd rs p e
      | (False, p, e) \<Rightarrow> (False, p, e))"

text \<open>What follows the loop when it succeeded.\<close>

definition diff_finish :: "'w sqliteObjsFile \<Rightarrow> int \<Rightarrow> 'w env \<Rightarrow> 'w sqliteObjsFile \<times> 'w env" where
  "diff_finish p blobSize e =
     (let e = (if blobSize < nData p then snd (ftruncate_fd (cacheFd p) blobSize e) else e);
          e = snd (fsync_fd (cacheFd p) e);
          p = p\<lparr>nData := blobSize, nDownloads := nDownloads p + 1\<rparr> in
      case pread_fd (cacheFd p) 100 0 e of (nRead, header, e) \<Rightarrow>
      let p = (if nRead = 100
               then let detected = detectPageSize header 100
                    in if detected > 0 then p\<lparr>pageSize := detected\<rparr> else p
               else p) in
      case bitmapsEnsureCapacity p e of (_, p, e) \<Rightarrow>
        (p\<lparr>dirty := bitmapClearAll (dirty p), lastSyncedSize := nData p\<rparr>, e))"

definition applyIncrementalDiff ::
  "'w sqliteObjsFile \<Rightarrow> int \<Rightarrow> 'w env \<Rightarrow> bool \<times> 'w sqliteObjsFile \<times> 'w env" where
  "applyIncrementalDiff p blobSize e =
     (if snapshot p = [] then (False, p, e)
      else case (Option.bind (ops p) blob_get_page_ranges_diff, Option.bind (ops p) page_blob_read) of
        (Some diff, Some rd) \<Rightarrow>
          (case call_azure (diff (blob p) (snapshot p)) e of (arc, diffRanges, aerr, e) \<Rightarrow>
           if arc \<noteq> AZURE_OK then (False, p, e)
           else
             let (diffOk, e) = (if nData p < blobSize
                                then case ftruncate_fd (cacheFd p) blobSize e of (r, e) \<Rightarrow> (r = 0, e)
                                else (True, e)) in
             if \<not> diffOk then (False, p, e)
             else case diff_loop rd diffRanges p e of (diffOk, p, e) \<Rightarrow>
             if \<not> diffOk then (False, p, e)
             else case diff_finish p blobSize e of (p, e) \<Rightarrow> (True, p, e))
      | _ \<Rightarrow> (False, p, e))"

section \<open>Heap buffers\<close>

text \<open>The doubling loop of \<^verbatim>\<open>bufferEnsure\<close>. The outer option is the loop's result, \<^term>\<open>None\<close> if it never
  ends; the inner one is \<^term>\<open>None\<close> on the \<^verbatim>\<open>SQLITE_NOMEM\<close> exit, when the doubled 64-bit value is negative.\<close>

partial_function (option) alloc_loop :: "int \<Rightarrow> int \<Rightarrow> int option option" where
  "alloc_loop alloc newSize =
     (if alloc < newSize
      then let alloc = c_int64 (alloc * 2) in
           if alloc < 0 then Some None else alloc_loop alloc newSize
      else Some (Some alloc))"

definition bufferEnsure ::
  "bytes option \<Rightarrow> int \<Rightarrow> int \<Rightarrow> 'a posix_scheme \<Rightarrow> (sqlite_rc \<times> bytes option \<times> int \<times> 'a posix_scheme) option"
where
  "bufferEnsure buf nAlloc newSize e =
     (if newSize \<le> nAlloc then Some (SQLITE_OK, buf, nAlloc, e)
      else
        let alloc = (if nAlloc = 0 then SQLITE_OBJS_INITIAL_ALLOC else nAlloc) in
        case alloc_loop alloc newSize of
          None \<Rightarrow> None
        | Some None \<Rightarrow> Some (SQLITE_NOMEM, buf, nAlloc, e)
        | Some (Some alloc) \<Rightarrow>
            (case sys_malloc alloc e of
               (None, e) \<Rightarrow> Some (SQLITE_NOMEM, buf, nAlloc, e)
             | (Some _, e) \<Rightarrow>
                 let old = (case buf of None \<Rightarrow> [] | Some b \<Rightarrow> b) in
                 Some (SQLITE_OK, Some (take (nat nAlloc) old @ replicate (nat (alloc - nAlloc)) 0), alloc, e)))"

definition jrnlBufferEnsure ::
  "'w sqliteObjsFile \<Rightarrow> int \<Rightarrow> 'w env \<Rightarrow> (sqlite_rc \<times> 'w sqliteObjsFile \<times> 'w env) option" where
  "jrnlBufferEnsure p newSize e =
     (case bufferEnsure (aJrnlData p) (nJrnlAlloc p) newSize e of
        None \<Rightarrow> None
      | Some (rc, buf, alloc, e) \<Rightarrow> Some (rc, p\<lparr>aJrnlData := buf, nJrnlAlloc := alloc\<rparr>, e))"

definition walBufferEnsure ::
  "'w sqliteObjsFile \<Rightarrow> int \<Rightarrow> 'w env \<Rightarrow> (sqlite_rc \<times> 'w sqliteObjsFile \<times> 'w env) option" where
  "walBufferEnsure p newSize e =
     (case bufferEnsure (aWalData p) (nWalAlloc p) newSize e of
        None \<Rightarrow> None
      | Some (rc, buf, alloc, e) \<Rightarrow> Some (rc, p\<lparr>aWalData := buf, nWalAlloc := alloc\<rparr>, e))"

section \<open>Leases and error codes\<close>

definition leaseRenewIfNeeded ::
  "'w sqliteObjsFile \<Rightarrow> 'w env \<Rightarrow> sqlite_rc \<times> 'w sqliteObjsFile \<times> 'w env" where
  "leaseRenewIfNeeded p e =
     (if \<not> hasLease p then (SQLITE_OK, p, e)
      else
        let renewAfter = (if leaseDuration p > 0 then c_div (leaseDuration p) 2
                          else c_div SQLITE_OBJS_LEASE_DURATION 2) in
        case sys_time e of (now, e) \<Rightarrow>
        if now - leaseAcquiredAt p < renewAfter then (SQLITE_OK, p, e)
        else case Option.bind (ops p) lease_renew of
          None \<Rightarrow> (UB_NULL_CALL, p, e)
        | Some renew \<Rightarrow>
            (case do_azure (renew (blob p) (leaseId p)) e of (rc, aerr, e) \<Rightarrow>
             if rc \<noteq> AZURE_OK then (SQLITE_IOERR_LOCK, bump azure_errors_update 1 p, e)
             else (SQLITE_OK, (bump lease_renewals_update 1 p)\<lparr>leaseAcquiredAt := now\<rparr>, e)))"

text \<open>A caller that maps every failure of the renewal to its own code.\<close>

definition fail_as :: "sqlite_rc \<Rightarrow> sqlite_rc \<Rightarrow> sqlite_rc" where
  "fail_as rc v = (if rc = UB_NULL_CALL then UB_NULL_CALL else v)"

text \<open>The second argument is the \<^verbatim>\<open>ioerr_variant\<close>, \<^term>\<open>None\<close> where the caller passes 0.\<close>

definition azureErrToSqlite :: "azure_err \<Rightarrow> sqlite_rc option \<Rightarrow> sqlite_rc" where
  "azureErrToSqlite aerr ioerr_variant =
     (case aerr of
        AZURE_OK \<Rightarrow> SQLITE_OK
      | AZURE_ERR_NOT_FOUND \<Rightarrow> SQLITE_CANTOPEN
      | AZURE_ERR_CONFLICT \<Rightarrow> SQLITE_BUSY
      | AZURE_ERR_THROTTLED \<Rightarrow> SQLITE_BUSY
      | AZURE_ERR_LEASE_EXPIRED \<Rightarrow> SQLITE_IOERR_LOCK
      | AZURE_ERR_AUTH \<Rightarrow> SQLITE_IOERR
      | AZURE_ERR_NOMEM \<Rightarrow> SQLITE_NOMEM
      | _ \<Rightarrow> (case ioerr_variant of Some v \<Rightarrow> v | None \<Rightarrow> SQLITE_IOERR))"

section \<open>The heap buffers are total\<close>

lemma c_int64_double:
  assumes "0 < a" and "a < 9223372036854775808"
  shows "c_int64 (a * 2) = (if a < 4611686018427387904 then a * 2 else a * 2 - 18446744073709551616)"
proof (cases "a < 4611686018427387904")
  case True
  then show ?thesis using assms by (simp add: c_int64_id)
next
  case False
  have "(a * 2 + 9223372036854775808) mod 18446744073709551616
      = (a * 2 + 9223372036854775808 - 18446744073709551616) mod 18446744073709551616"
    by (rule minus_mod_self2 [symmetric])
  also have "\<dots> = a * 2 + 9223372036854775808 - 18446744073709551616"
    using False assms by (intro mod_pos_pos_trivial) simp_all
  finally show ?thesis using False by (simp add: c_int64_def signed_take_bit_eq_take_bit_shift take_bit_eq_mod)
qed

lemma alloc_loop_done: "\<not> alloc < n \<Longrightarrow> alloc_loop alloc n = Some (Some alloc)"
  by (subst alloc_loop.simps) simp

lemma alloc_loop_step:
  assumes "alloc < n" and "0 < alloc" and "alloc < 9223372036854775808"
  shows "alloc_loop alloc n =
    (if alloc < 4611686018427387904 then alloc_loop (alloc * 2) n else Some None)"
  using assms by (subst alloc_loop.simps) (simp add: c_int64_double Let_def)

lemma alloc_loop_total:
  assumes "0 < alloc" and "alloc < 9223372036854775808"
  shows "(\<exists>a. alloc_loop alloc n = Some (Some a) \<and> n \<le> a \<and> alloc \<le> a \<and> a < 9223372036854775808 \<and>
            (alloc < n \<longrightarrow> a < 2 * n)) \<or>
         alloc_loop alloc n = Some None \<and> 4611686018427387904 < n"
  using assms
proof (induction "nat (n - alloc)" arbitrary: alloc rule: less_induct)
  case less
  show ?case
  proof (cases "alloc < n")
    case False
    then show ?thesis using less.prems by (simp add: alloc_loop_done)
  next
    case True
    show ?thesis
    proof (cases "alloc < 4611686018427387904")
      case False
      then show ?thesis using True less.prems by (simp add: alloc_loop_step)
    next
      case small: True
      have step: "alloc_loop alloc n = alloc_loop (alloc * 2) n"
        using True small less.prems by (simp add: alloc_loop_step)
      have "nat (n - alloc * 2) < nat (n - alloc)" using True less.prems by linarith
      from less.hyps [OF this] less.prems small
      have ih: "(\<exists>a. alloc_loop (alloc * 2) n = Some (Some a) \<and> n \<le> a \<and> alloc * 2 \<le> a \<and>
          a < 9223372036854775808 \<and> (alloc * 2 < n \<longrightarrow> a < 2 * n)) \<or>
          alloc_loop (alloc * 2) n = Some None \<and> 4611686018427387904 < n"
        by simp
      show ?thesis
      proof (cases "alloc * 2 < n")
        case True
        with ih step show ?thesis by auto
      next
        case False
        then have "alloc_loop (alloc * 2) n = Some (Some (alloc * 2))" by (rule alloc_loop_done)
        with step False True small less.prems show ?thesis by auto
      qed
    qed
  qed
qed

text \<open>A heap buffer as the VFS keeps it: allocated size and array belong together.\<close>

definition buf_wf :: "bytes option \<Rightarrow> int \<Rightarrow> bool" where
  "buf_wf buf nAlloc \<longleftrightarrow>
     (case buf of None \<Rightarrow> nAlloc = 0 | Some b \<Rightarrow> nAlloc = int (length b)) \<and> nAlloc < 9223372036854775808"

definition buf_bytes :: "bytes option \<Rightarrow> bytes" where
  "buf_bytes buf = (case buf of None \<Rightarrow> [] | Some b \<Rightarrow> b)"

lemma bufferEnsure_spec:
  assumes "buf_wf buf nAlloc" and "newSize < 9223372036854775808"
  shows "\<exists>rc buf' alloc' e'. bufferEnsure buf nAlloc newSize e = Some (rc, buf', alloc', e') \<and>
    fs e' = fs e \<and> posix.more e' = posix.more e \<and> buf_wf buf' alloc' \<and>
    (rc = SQLITE_OK \<and> newSize \<le> alloc' \<and> nAlloc \<le> alloc' \<and> alloc' \<le> max nAlloc (max 65536 (2 * newSize)) \<and>
       buf_bytes buf' = zpad (nat alloc') (buf_bytes buf) \<or>
     rc = SQLITE_NOMEM \<and> buf' = buf \<and> alloc' = nAlloc)"
proof (cases "newSize \<le> nAlloc")
  case True
  have "zpad (nat nAlloc) (buf_bytes buf) = buf_bytes buf"
    using assms by (auto simp: zpad_def buf_bytes_def buf_wf_def split: option.splits)
  then show ?thesis using True assms by (auto simp: bufferEnsure_def)
next
  case False
  let ?a0 = "if nAlloc = 0 then SQLITE_OBJS_INITIAL_ALLOC else nAlloc"
  have nn: "0 \<le> nAlloc" and old: "buf_bytes buf = [] \<and> nAlloc = 0 \<or> nAlloc = int (length (buf_bytes buf))"
    using assms(1) by (auto simp: buf_wf_def buf_bytes_def split: option.splits)
  have a0: "0 < ?a0" "?a0 < 9223372036854775808" using nn assms(1) by (auto simp: buf_wf_def)
  from alloc_loop_total [OF a0, of newSize] show ?thesis
  proof
    assume "alloc_loop ?a0 newSize = Some None \<and> 4611686018427387904 < newSize"
    then show ?thesis using False assms(1) by (auto simp: bufferEnsure_def Let_def)
  next
    assume "\<exists>a. alloc_loop ?a0 newSize = Some (Some a) \<and> newSize \<le> a \<and> ?a0 \<le> a \<and>
      a < 9223372036854775808 \<and> (?a0 < newSize \<longrightarrow> a < 2 * newSize)"
    then obtain a where a: "alloc_loop ?a0 newSize = Some (Some a)" "newSize \<le> a" "?a0 \<le> a"
      "a < 9223372036854775808" "?a0 < newSize \<longrightarrow> a < 2 * newSize" by blast
    have le: "a \<le> max nAlloc (max 65536 (2 * newSize))"
    proof (cases "?a0 < newSize")
      case True
      with a(5) show ?thesis by linarith
    next
      case F: False
      then have "alloc_loop ?a0 newSize = Some (Some ?a0)" by (rule alloc_loop_done)
      with a(1) F False show ?thesis by (auto split: if_splits)
    qed
    have na: "nAlloc \<le> a" using a(2) False by linarith
    have zp: "take (nat nAlloc) (buf_bytes buf) @ replicate (nat (a - nAlloc)) 0 = zpad (nat a) (buf_bytes buf)"
      using old na by (auto simp: zpad_def nat_diff_distrib)
    obtain m e1 where m: "sys_malloc a e = (m, e1)" by fastforce
    have wf: "buf_wf (Some (zpad (nat a) (buf_bytes buf))) a" using old na nn a(4) by (auto simp: buf_wf_def)
    have "bufferEnsure buf nAlloc newSize e =
      (case m of None \<Rightarrow> Some (SQLITE_NOMEM, buf, nAlloc, e1)
       | Some x \<Rightarrow> Some (SQLITE_OK, Some (zpad (nat a) (buf_bytes buf)), a, e1))"
      using False a(1) m zp by (simp add: bufferEnsure_def Let_def buf_bytes_def split: option.split)
    then show ?thesis using a(2) na le wf malloc_frame [OF m] assms(1)
      by (cases m) (simp_all add: buf_bytes_def)
  qed
qed


text \<open>C18 Growing a heap buffer always ends, for every 63-bit size: it returns \<^verbatim>\<open>SQLITE_OK\<close> with an allocation that
  holds the requested size and is less than twice as large (or the initial 64 KiB), the old bytes kept and
  the new ones zero, or \<^verbatim>\<open>SQLITE_NOMEM\<close> with the buffer as it was.\<close>

theorem bufferEnsure_total:
  assumes "buf_wf buf nAlloc" and "newSize < 9223372036854775808"
  shows "\<exists>rc buf' alloc' e'. bufferEnsure buf nAlloc newSize e = Some (rc, buf', alloc', e') \<and>
    buf_wf buf' alloc' \<and>
    (rc = SQLITE_OK \<and> newSize \<le> alloc' \<and> nAlloc \<le> alloc' \<and> alloc' \<le> max nAlloc (max 65536 (2 * newSize)) \<and>
       buf_bytes buf' = zpad (nat alloc') (buf_bytes buf) \<or>
     rc = SQLITE_NOMEM \<and> buf' = buf \<and> alloc' = nAlloc)"
  using bufferEnsure_spec [OF assms, of e] by blast

theorem bufferEnsure_total_witness:
  "\<exists>rc buf' alloc' e'. bufferEnsure (Some [1, 2, 3]) 3 100000 quiet_posix = Some (rc, buf', alloc', e') \<and>
    buf_wf buf' alloc' \<and>
    (rc = SQLITE_OK \<and> 100000 \<le> alloc' \<and> 3 \<le> alloc' \<and> alloc' \<le> max 3 (max 65536 (2 * 100000)) \<and>
       buf_bytes buf' = zpad (nat alloc') (buf_bytes (Some [1, 2, 3])) \<or>
     rc = SQLITE_NOMEM \<and> buf' = Some [1, 2, 3] \<and> alloc' = 3)"
  by (rule bufferEnsure_total) (simp_all add: buf_wf_def)

end
