(* ===== verification/File_Control.thy ===== *)
theory File_Control
  imports Page_Cache
begin

text \<open>
  The remaining io methods of \<^verbatim>\<open>sqlite_objs_vfs.c\<close>: \<^verbatim>\<open>formatMetrics\<close>, \<^verbatim>\<open>xFileControl\<close> with its pragmas,
  \<^verbatim>\<open>xSectorSize\<close>, \<^verbatim>\<open>xDeviceCharacteristics\<close> and the shared-memory stubs.

  The C library's \<^verbatim>\<open>atoi\<close> and \<^verbatim>\<open>%lld\<close>/\<^verbatim>\<open>%d\<close> conversions and SQLite's \<^verbatim>\<open>sqlite3_stricmp\<close> (equality without
  regard to ASCII case) are defined here; an allocation failure inside \<^verbatim>\<open>sqlite3_mprintf\<close> is not
  modelled.
\<close>

section \<open>Numbers and names as text\<close>

function dec_nat :: "nat \<Rightarrow> string" where
  "dec_nat n = (if n < 10 then [char_of (48 + n)] else dec_nat (n div 10) @ [char_of (48 + n mod 10)])"
  by pat_completeness auto
termination by (relation "measure id") auto

declare dec_nat.simps [simp del]

definition dec_int :: "int \<Rightarrow> string" where
  "dec_int i = (if i < 0 then CHR ''-'' # dec_nat (nat (- i)) else dec_nat (nat i))"

definition is_digit :: "char \<Rightarrow> bool" where
  "is_digit c \<longleftrightarrow> 48 \<le> (of_char c :: nat) \<and> (of_char c :: nat) \<le> 57"

definition digits_value :: "string \<Rightarrow> nat" where
  "digits_value s = foldl (\<lambda>n c. 10 * n + (of_char c - 48)) 0 s"

definition is_space :: "char \<Rightarrow> bool" where
  "is_space c \<longleftrightarrow> c = CHR '' '' \<or> 9 \<le> (of_char c :: nat) \<and> (of_char c :: nat) \<le> 13"

text \<open>\<^verbatim>\<open>atoi\<close> is \<^verbatim>\<open>(int) strtol(s, NULL, 10)\<close>: the value saturates at 64 bits and is then cut to 32.\<close>

definition atoi :: "string \<Rightarrow> int" where
  "atoi s =
     (let s = dropWhile is_space s;
          (neg, s) = (case s of
                        [] \<Rightarrow> (False, [])
                      | c # cs \<Rightarrow> if c = CHR ''-'' then (True, cs) else if c = CHR ''+'' then (False, cs) else (False, s));
          v = int (digits_value (takeWhile is_digit s));
          v = (if neg then - v else v)
      in c_int (max (- (2 ^ 63)) (min (2 ^ 63 - 1) v)))"

definition ascii_lower :: "char \<Rightarrow> char" where
  "ascii_lower c = (let n = of_char c :: nat in if 65 \<le> n \<and> n \<le> 90 then char_of (n + 32) else c)"

definition stricmp_eq :: "string \<Rightarrow> string \<Rightarrow> bool" where
  "stricmp_eq a b \<longleftrightarrow> map ascii_lower a = map ascii_lower b"

section \<open>Metrics\<close>

text \<open>The keys and values of \<^verbatim>\<open>formatMetrics\<close> in the order of its format string.\<close>

definition metrics_fields :: "sqlite_objs_metrics \<Rightarrow> (string \<times> int) list" where
  "metrics_fields m =
     [(''disk_reads'', disk_reads m), (''disk_writes'', disk_writes m),
      (''disk_bytes_read'', disk_bytes_read m), (''disk_bytes_written'', disk_bytes_written m),
      (''blob_reads'', blob_reads m), (''blob_writes'', blob_writes m),
      (''blob_bytes_read'', blob_bytes_read m), (''blob_bytes_written'', blob_bytes_written m),
      (''cache_hits'', cache_hits m), (''cache_misses'', cache_misses m),
      (''cache_miss_pages'', cache_miss_pages m), (''prefetch_pages'', prefetch_pages m),
      (''lease_acquires'', lease_acquires m), (''lease_renewals'', lease_renewals m),
      (''lease_releases'', lease_releases m), (''syncs'', syncs m),
      (''dirty_pages_synced'', dirty_pages_synced m), (''blob_resizes'', blob_resizes m),
      (''revalidations'', revalidations m), (''revalidation_downloads'', revalidation_downloads m),
      (''revalidation_diffs'', revalidation_diffs m), (''revalidation_busy'', revalidation_busy m),
      (''pages_invalidated'', pages_invalidated m), (''journal_uploads'', journal_uploads m),
      (''journal_bytes_uploaded'', journal_bytes_uploaded m), (''wal_uploads'', wal_uploads m),
      (''wal_bytes_uploaded'', wal_bytes_uploaded m), (''azure_errors'', azure_errors m)]"

fun join_lines :: "string list \<Rightarrow> string" where
  "join_lines [] = []"
| "join_lines [x] = x"
| "join_lines (x # y # ys) = x @ CHR 0x0A # join_lines (y # ys)"

definition metrics_line :: "string \<times> int \<Rightarrow> string" where
  "metrics_line kv = fst kv @ CHR ''='' # dec_int (snd kv)"

definition formatMetrics :: "sqlite_objs_metrics \<Rightarrow> string" where
  "formatMetrics m = join_lines (map metrics_line (metrics_fields m))"

section \<open>xFileControl\<close>

text \<open>The operation codes with their argument; a pragma has a name and an optional value.\<close>

datatype fcntl_op =
    FCNTL_PRAGMA "string option" "string option"
  | FCNTL_VFSNAME
  | FCNTL_DOWNLOAD_COUNT
  | FCNTL_STATS
  | FCNTL_STATS_RESET
  | FCNTL_OTHER int

datatype fcntl_out = No_out | Str_out string | Int_out int

definition pragma_is :: "string option \<Rightarrow> string \<Rightarrow> bool" where
  "pragma_is z name \<longleftrightarrow> (case z of None \<Rightarrow> False | Some s \<Rightarrow> stricmp_eq s name)"

definition on_off :: "int \<Rightarrow> string" where
  "on_off v = (if v \<noteq> 0 then ''on'' else ''off'')"

definition fcntl_pragma ::
  "'w sqliteObjsFile \<Rightarrow> string option \<Rightarrow> string option \<Rightarrow> 'w env \<Rightarrow>
     sqlite_rc \<times> fcntl_out \<times> 'w sqliteObjsFile \<times> 'w env" where
  "fcntl_pragma p name arg e =
     (if pragma_is name ''journal_mode'' \<and> pragma_is arg ''wal''
      then if Option.bind (ops p) block_blob_upload = None \<or> Option.bind (ops p) block_blob_download = None
           then (SQLITE_OK, Str_out ''delete'', p, e)
           else (SQLITE_NOTFOUND, No_out, p, e)
      else if pragma_is name ''sqlite_objs_wal_parallel''
      then case arg of
             Some a \<Rightarrow>
               let val = (if stricmp_eq a ''on'' \<or> stricmp_eq a ''1'' then 1 else 0 :: int) in
               (SQLITE_OK, Str_out (on_off val), p,
                e\<lparr>vfs_data := (vfs_data e)\<lparr>walParallelUpload := val\<rparr>\<rparr>)
           | None \<Rightarrow> (SQLITE_OK, Str_out (on_off (walParallelUpload (vfs_data e))), p, e)
      else if pragma_is name ''sqlite_objs_wal_chunk_size''
      then case arg of
             Some a \<Rightarrow>
               let val = atoi a; val = (if val < 0 then 0 else val) in
               (SQLITE_OK, Str_out (dec_int val), p, e\<lparr>vfs_data := (vfs_data e)\<lparr>walChunkSize := val\<rparr>\<rparr>)
           | None \<Rightarrow> (SQLITE_OK, Str_out (dec_int (walChunkSize (vfs_data e))), p, e)
      else if pragma_is name ''sqlite_objs_prefetch''
      then if prefetchMode p = SQLITE_OBJS_PREFETCH_NONE \<and> bm_data (valid p) \<noteq> None
           then case prefetchInvalidPages p e of (rc, p, e) \<Rightarrow>
                if rc \<noteq> SQLITE_OK then (rc, Str_out ''error'', p, e)
                else (SQLITE_OK, Str_out ''ok'', p, e)
           else (SQLITE_OK, Str_out ''noop'', p, e)
      else if pragma_is name ''sqlite_objs_stats''
      then (SQLITE_OK, Str_out (formatMetrics (metrics p)), p, e)
      else if pragma_is name ''sqlite_objs_stats_reset''
      then (SQLITE_OK, Str_out ''ok'', p\<lparr>metrics := metrics_zero\<rparr>, e)
      else (SQLITE_NOTFOUND, No_out, p, e))"

definition sqliteObjsFileControl ::
  "'w sqliteObjsFile \<Rightarrow> fcntl_op \<Rightarrow> 'w env \<Rightarrow> sqlite_rc \<times> fcntl_out \<times> 'w sqliteObjsFile \<times> 'w env" where
  "sqliteObjsFileControl p opc e =
     (case opc of
        FCNTL_PRAGMA name arg \<Rightarrow> fcntl_pragma p name arg e
      | FCNTL_VFSNAME \<Rightarrow> (SQLITE_OK, Str_out ''sqlite-objs'', p, e)
      | FCNTL_DOWNLOAD_COUNT \<Rightarrow> (SQLITE_OK, Int_out (nDownloads p), p, e)
      | FCNTL_STATS \<Rightarrow> (SQLITE_OK, Str_out (formatMetrics (metrics p)), p, e)
      | FCNTL_STATS_RESET \<Rightarrow> (SQLITE_OK, No_out, p\<lparr>metrics := metrics_zero\<rparr>, e)
      | FCNTL_OTHER _ \<Rightarrow> (SQLITE_NOTFOUND, No_out, p, e))"

section \<open>Device description and shared memory\<close>

definition sqliteObjsSectorSize :: "'w sqliteObjsFile \<Rightarrow> int" where
  "sqliteObjsSectorSize p = 512"

definition SQLITE_IOCAP_ATOMIC512 :: int where "SQLITE_IOCAP_ATOMIC512 = 0x2"
definition SQLITE_IOCAP_POWERSAFE_OVERWRITE :: int where "SQLITE_IOCAP_POWERSAFE_OVERWRITE = 0x1000"
definition SQLITE_IOCAP_SUBPAGE_READ :: int where "SQLITE_IOCAP_SUBPAGE_READ = 0x8000"

definition sqliteObjsDeviceCharacteristics :: "'w sqliteObjsFile \<Rightarrow> int" where
  "sqliteObjsDeviceCharacteristics p = SQLITE_IOCAP_POWERSAFE_OVERWRITE OR SQLITE_IOCAP_SUBPAGE_READ"

text \<open>The region pointer \<^verbatim>\<open>*pp\<close> is an option.\<close>

definition sqliteObjsShmMap :: "'w sqliteObjsFile \<Rightarrow> int \<Rightarrow> int \<Rightarrow> bool \<Rightarrow> sqlite_rc \<times> bytes option" where
  "sqliteObjsShmMap p iRegion szRegion bExtend = (SQLITE_IOERR, None)"

definition sqliteObjsShmLock :: "'w sqliteObjsFile \<Rightarrow> int \<Rightarrow> int \<Rightarrow> int \<Rightarrow> sqlite_rc" where
  "sqliteObjsShmLock p off n flags = SQLITE_OK"

definition sqliteObjsShmBarrier :: "'w sqliteObjsFile \<Rightarrow> 'w sqliteObjsFile" where
  "sqliteObjsShmBarrier p = p"

definition sqliteObjsShmUnmap :: "'w sqliteObjsFile \<Rightarrow> bool \<Rightarrow> sqlite_rc" where
  "sqliteObjsShmUnmap p deleteFlag = SQLITE_OK"

end
