(* ===== verification/Azure_Http.thy ===== *)
theory Azure_Http
  imports Azure_Error File_Control
begin

text \<open>
  The transport-independent part of \<^verbatim>\<open>azure_client.c\<close>: the growable response buffer, the header
  callback, percent-encoding and URL construction, and the retry loop. One HTTP attempt
  (\<^verbatim>\<open>execute_single\<close>, a libcurl transfer) is an argument of the retry loop.

  Sizes of type \<^verbatim>\<open>size_t\<close> are natural numbers below \<open>SIZE_MAX + 1\<close>.
\<close>

definition SIZE_MAX :: int where "SIZE_MAX = 18446744073709551615"

section \<open>Response buffer\<close>

partial_function (option) grow_cap :: "int \<Rightarrow> int \<Rightarrow> int option" where
  "grow_cap new_cap needed =
     (if new_cap < needed
      then if SIZE_MAX div 2 < new_cap then Some needed else grow_cap (new_cap * 2) needed
      else Some new_cap)"

text \<open>The outer option is the loop's termination; the integer is the C result (0 or -1).\<close>

definition azure_buffer_append ::
  "azure_buffer \<Rightarrow> bytes \<Rightarrow> bool \<Rightarrow> (int \<times> azure_buffer) option" where
  "azure_buffer_append buf d realloc_ok =
     (let len = int (length d) in
      if SIZE_MAX - buf_size buf < len then Some (-1, buf)
      else
        let needed = buf_size buf + len;
            old = (case buf_data buf of None \<Rightarrow> [] | Some b \<Rightarrow> b) in
        if buf_capacity buf < needed
        then (case grow_cap (if buf_capacity buf = 0 then 4096 else buf_capacity buf) needed of
                None \<Rightarrow> None
              | Some new_cap \<Rightarrow>
                  if \<not> realloc_ok then Some (-1, buf)
                  else Some (0, \<lparr>buf_data = Some (take (nat (buf_size buf)) old @ d),
                                 buf_size = needed, buf_capacity = new_cap\<rparr>))
        else Some (0, buf\<lparr>buf_data := Some (take (nat (buf_size buf)) old @ d), buf_size := needed\<rparr>))"

text \<open>\<^verbatim>\<open>curl_write_cb\<close> on one piece of the body: whether it took the piece, and the buffer.\<close>

definition curl_write_cb :: "bytes \<Rightarrow> bool \<Rightarrow> azure_buffer \<Rightarrow> (bool \<times> azure_buffer) option" where
  "curl_write_cb contents realloc_ok buf =
     (case azure_buffer_append buf contents realloc_ok of
        None \<Rightarrow> None
      | Some (r, buf) \<Rightarrow> Some (r = 0, buf))"

section \<open>Response headers\<close>

record azure_response_headers =
  rh_lease_id :: string
  rh_lease_state :: string
  rh_lease_status :: string
  rh_request_id :: string
  rh_error_code :: string
  rh_etag :: string
  rh_snapshot :: string
  rh_content_length :: int
  rh_lease_time :: int
  rh_retry_after :: int

definition headers_zero :: azure_response_headers where
  "headers_zero =
     \<lparr>rh_lease_id = [], rh_lease_state = [], rh_lease_status = [], rh_request_id = [], rh_error_code = [],
      rh_etag = [], rh_snapshot = [], rh_content_length = 0, rh_lease_time = 0, rh_retry_after = -1\<rparr>"

text \<open>\<^verbatim>\<open>strtoll\<close>: as \<^verbatim>\<open>atoi\<close> before the cut to 32 bits.\<close>

definition strtoll :: "string \<Rightarrow> int" where
  "strtoll s =
     (let s = dropWhile is_space s;
          (neg, s) = (case s of
                        [] \<Rightarrow> (False, [])
                      | c # cs \<Rightarrow> if c = CHR ''-'' then (True, cs) else if c = CHR ''+'' then (False, cs) else (False, s));
          v = int (digits_value (takeWhile is_digit s));
          v = (if neg then - v else v)
      in max (- (2 ^ 63)) (min (2 ^ 63 - 1) v))"

definition is_crlf :: "char \<Rightarrow> bool" where
  "is_crlf c \<longleftrightarrow> c = CHR 0x0D \<or> c = CHR 0x0A"

definition curl_header_cb :: "string \<Rightarrow> azure_response_headers \<Rightarrow> azure_response_headers" where
  "curl_header_cb buffer h =
     (if CHR '':'' \<notin> set buffer then h
      else
        let name = takeWhile (\<lambda>c. c \<noteq> CHR '':'') buffer;
            rest = drop (length name + 1) buffer;
            v = dropWhile (\<lambda>c. c = CHR '' '') rest;
            v = rev (dropWhile is_crlf (rev v)) in
        if stricmp_eq name ''x-ms-lease-id'' then h\<lparr>rh_lease_id := take 63 v\<rparr>
        else if stricmp_eq name ''x-ms-lease-state'' then h\<lparr>rh_lease_state := take 31 v\<rparr>
        else if stricmp_eq name ''x-ms-lease-status'' then h\<lparr>rh_lease_status := take 31 v\<rparr>
        else if stricmp_eq name ''x-ms-request-id'' then h\<lparr>rh_request_id := take 63 v\<rparr>
        else if stricmp_eq name ''x-ms-error-code'' then h\<lparr>rh_error_code := take 127 v\<rparr>
        else if stricmp_eq name ''etag'' then h\<lparr>rh_etag := take 127 v\<rparr>
        else if stricmp_eq name ''x-ms-snapshot'' then h\<lparr>rh_snapshot := take 127 v\<rparr>
        else if stricmp_eq name ''Content-Length'' then h\<lparr>rh_content_length := strtoll (take 31 v)\<rparr>
        else if stricmp_eq name ''x-ms-lease-time'' then h\<lparr>rh_lease_time := atoi (take 31 v)\<rparr>
        else if stricmp_eq name ''Retry-After'' then h\<lparr>rh_retry_after := atoi (take 31 v)\<rparr>
        else h)"

section \<open>URLs\<close>

definition unreserved :: "char \<Rightarrow> bool" where
  "unreserved c \<longleftrightarrow>
     (let n = of_char c :: nat in
      65 \<le> n \<and> n \<le> 90 \<or> 97 \<le> n \<and> n \<le> 122 \<or> 48 \<le> n \<and> n \<le> 57 \<or>
      c = CHR ''-'' \<or> c = CHR ''.'' \<or> c = CHR ''_'' \<or> c = CHR ''~'' \<or> c = CHR ''/'')"

definition HEX :: string where "HEX = ''0123456789ABCDEF''"

text \<open>The loop with the output written so far; \<^term>\<open>None\<close> is -1.\<close>

fun uri_encode_loop :: "string \<Rightarrow> nat \<Rightarrow> string \<Rightarrow> string option" where
  "uri_encode_loop [] output_size out = (if output_size \<le> length out then None else Some out)"
| "uri_encode_loop (c # cs) output_size out =
     (if unreserved c
      then if output_size \<le> length out + 1 then None
           else uri_encode_loop cs output_size (out @ [c])
      else if output_size \<le> length out + 3 then None
           else uri_encode_loop cs output_size
                  (out @ [CHR ''%'', HEX ! (of_char c div 16), HEX ! (of_char c mod 16)]))"

definition uri_encode :: "string \<Rightarrow> nat \<Rightarrow> string option" where
  "uri_encode input output_size = uri_encode_loop input output_size []"

text \<open>\<^verbatim>\<open>azure_client_t\<close> without its handles; an empty endpoint is the public one.\<close>

record azure_client =
  ac_account :: string
  ac_container :: string
  ac_endpoint :: string
  ac_key_b64 :: string
  ac_key_raw :: bytes
  ac_sas_token :: string
  ac_use_sas :: bool

definition build_blob_url :: "azure_client \<Rightarrow> string \<Rightarrow> nat \<Rightarrow> string" where
  "build_blob_url client blob_name url_buf_size =
     (let encoded_name = (case uri_encode blob_name 2048 of Some s \<Rightarrow> s | None \<Rightarrow> take 2047 blob_name) in
      take (url_buf_size - 1)
        (if ac_endpoint client \<noteq> []
         then ac_endpoint client @ ''/'' @ ac_account client @ ''/'' @ ac_container client @ ''/'' @ encoded_name
         else ''https://'' @ ac_account client @ ''.blob.core.windows.net/'' @ ac_container client @ ''/''
                @ encoded_name))"

section \<open>Retry loop\<close>

text \<open>One attempt on the response buffer: the result code, the error record, the headers and the buffer it leaves;
  \<^term>\<open>None\<close> when it never returns. The loop also returns the list of delays it slept.\<close>

type_synonym 'w http_attempt =
  "azure_buffer \<Rightarrow> 'w \<Rightarrow> (azure_err \<times> azure_error \<times> azure_response_headers \<times> azure_buffer \<times> 'w) option"

function retry_loop ::
  "'w http_attempt \<Rightarrow> (nat \<Rightarrow> 32 word option) \<Rightarrow> nat \<Rightarrow> int list \<Rightarrow> azure_buffer \<Rightarrow> 'w \<Rightarrow>
     (azure_err \<times> azure_error \<times> azure_response_headers \<times> azure_buffer \<times> int list \<times> 'w) option" where
  "retry_loop execute_single rnd attempt slept buf w =
     (case execute_single (buf\<lparr>buf_size := 0\<rparr>) w of
        None \<Rightarrow> None
      | Some (rc, err, rh, buf, w) \<Rightarrow>
      if rc = AZURE_OK \<or> \<not> azure_is_retryable rc then Some (rc, err, rh, buf, slept, w)
      else if attempt < AZURE_MAX_RETRIES
      then retry_loop execute_single rnd (Suc attempt)
             (slept @ [azure_compute_retry_delay (int attempt) (rh_retry_after rh) (rnd attempt)]) buf w
      else Some (rc, err, rh, buf, slept, w))"
  by pat_completeness auto
termination
  by (relation "measure (\<lambda>(ex, rnd, attempt, slept, buf, w). Suc AZURE_MAX_RETRIES - attempt)") auto

declare retry_loop.simps [simp del]

definition execute_with_retry ::
  "'w http_attempt \<Rightarrow> (nat \<Rightarrow> 32 word option) \<Rightarrow> azure_buffer \<Rightarrow> 'w \<Rightarrow>
     (azure_err \<times> azure_error \<times> azure_response_headers \<times> azure_buffer \<times> int list \<times> 'w) option" where
  "execute_with_retry execute_single rnd buf w = retry_loop execute_single rnd 0 [] buf w"

section \<open>The response buffer holds what was received\<close>

definition resp_bytes :: "azure_buffer \<Rightarrow> bytes" where
  "resp_bytes b = take (nat (buf_size b)) (case buf_data b of None \<Rightarrow> [] | Some d \<Rightarrow> d)"

definition buffer_ok :: "azure_buffer \<Rightarrow> bool" where
  "buffer_ok b \<longleftrightarrow> 0 \<le> buf_size b \<and> buf_size b \<le> buf_capacity b \<and> buf_capacity b \<le> SIZE_MAX \<and>
     buf_size b \<le> int (length (case buf_data b of None \<Rightarrow> [] | Some d \<Rightarrow> d))"

lemma buffer_ok_init [simp]: "buffer_ok azure_buffer_init" "resp_bytes azure_buffer_init = []"
  by (simp_all add: buffer_ok_def azure_buffer_init_def resp_bytes_def SIZE_MAX_def)

lemma buffer_ok_reset [simp]: "buffer_ok b \<Longrightarrow> buffer_ok (b\<lparr>buf_size := 0\<rparr>)" "resp_bytes (b\<lparr>buf_size := 0\<rparr>) = []"
  by (auto simp: buffer_ok_def resp_bytes_def)

lemma grow_cap_total:
  assumes "0 < n" and "n \<le> SIZE_MAX" and "needed \<le> SIZE_MAX"
  shows "\<exists>m. grow_cap n needed = Some m \<and> needed \<le> m \<and> n \<le> m \<and> m \<le> SIZE_MAX"
  using assms
proof (induction "nat (SIZE_MAX - n)" arbitrary: n rule: less_induct)
  case less
  consider "needed \<le> n" | "n < needed" "SIZE_MAX div 2 < n" | "n < needed" "n \<le> SIZE_MAX div 2" by linarith
  then show ?case
  proof cases
    case 3
    then have "n * 2 \<le> SIZE_MAX" "nat (SIZE_MAX - n * 2) < nat (SIZE_MAX - n)" using less.prems by (auto simp: SIZE_MAX_def)
    then obtain m where "grow_cap (n * 2) needed = Some m" "needed \<le> m" "n * 2 \<le> m" "m \<le> SIZE_MAX"
      using less.hyps [of "n * 2"] less.prems by auto
    then show ?thesis using 3 less.prems by (subst grow_cap.simps) auto
  qed (use less.prems in \<open>auto simp: grow_cap.simps [of n]\<close>)
qed

lemma buffer_append_cases:
  assumes "buffer_ok b"
  shows "\<exists>r b'. azure_buffer_append b d realloc_ok = Some (r, b') \<and> buffer_ok b' \<and>
    (if SIZE_MAX < buf_size b + int (length d) \<or> buf_capacity b < buf_size b + int (length d) \<and> \<not> realloc_ok
     then r = -1 \<and> b' = b else r = 0 \<and> resp_bytes b' = resp_bytes b @ d)"
proof -
  define old where "old = (case buf_data b of None \<Rightarrow> [] | Some d \<Rightarrow> d)"
  have old: "0 \<le> buf_size b" "buf_size b \<le> int (length old)" "buf_size b \<le> buf_capacity b" "buf_capacity b \<le> SIZE_MAX" "0 \<le> buf_capacity b"
    using assms unfolding buffer_ok_def old_def by linarith+
  have n: "length (take (nat (buf_size b)) old) = nat (buf_size b)" using old by simp
  let ?need = "buf_size b + int (length d)"
  consider "SIZE_MAX < ?need" | "?need \<le> SIZE_MAX" "?need \<le> buf_capacity b" | "?need \<le> SIZE_MAX" "buf_capacity b < ?need" by linarith
  then show ?thesis
  proof cases
    case 1
    then show ?thesis using assms by (simp add: azure_buffer_append_def)
  next
    case 2
    then show ?thesis using old n assms
      by (auto simp: azure_buffer_append_def Let_def buffer_ok_def resp_bytes_def old_def [symmetric])
  next
    case 3
    have "0 < (if buf_capacity b = 0 then 4096 else buf_capacity b)" "(if buf_capacity b = 0 then 4096 else buf_capacity b) \<le> SIZE_MAX"
      using old by (auto simp: SIZE_MAX_def)
    then obtain m where "grow_cap (if buf_capacity b = 0 then 4096 else buf_capacity b) ?need = Some m" "?need \<le> m" "m \<le> SIZE_MAX"
      using grow_cap_total 3(1) by blast
    then show ?thesis using 3 old n assms
      by (auto simp: azure_buffer_append_def Let_def buffer_ok_def resp_bytes_def old_def [symmetric])
  qed
qed

text \<open>C28 Appending a piece of a response to the buffer always ends and keeps the buffer well formed: it either stores the
  piece behind the bytes received so far or, exactly when the size would overflow or memory is short, changes nothing.\<close>

theorem buffer_append_exact:
  assumes "buffer_ok b"
  shows "\<exists>r b'. azure_buffer_append b d realloc_ok = Some (r, b') \<and> buffer_ok b' \<and>
    (if SIZE_MAX < buf_size b + int (length d) \<or> buf_capacity b < buf_size b + int (length d) \<and> \<not> realloc_ok
     then r = -1 \<and> b' = b else r = 0 \<and> resp_bytes b' = resp_bytes b @ d)"
  by (rule buffer_append_cases [OF assms])

theorem buffer_append_exact_witness:
  "\<exists>b'. azure_buffer_append azure_buffer_init [1, 2, 3] True = Some (0, b') \<and> resp_bytes b' = [1, 2, 3] \<and> buffer_ok b'"
  using buffer_append_exact [OF buffer_ok_init(1), of "[1, 2, 3]" True]
  by (auto simp: azure_buffer_init_def SIZE_MAX_def) (simp add: resp_bytes_def)

lemma curl_write_cb_total:
  assumes "buffer_ok b"
  shows "\<exists>took b'. curl_write_cb d ok b = Some (took, b') \<and> buffer_ok b'"
  using buffer_append_cases [OF assms, of d ok] by (auto simp: curl_write_cb_def)

section \<open>The retry loop ends\<close>

lemma retry_loop_spec:
  assumes "\<And>b s. keep b s \<Longrightarrow> \<exists>rc err rh b' s'. ex (b\<lparr>buf_size := 0\<rparr>) s = Some (rc, err, rh, b', s') \<and> keep b' s'"
    and "keep buf w" and "attempt \<le> AZURE_MAX_RETRIES" and "length slept = attempt"
  shows "\<exists>rc err rh buf' slept' w'. retry_loop ex rnd attempt slept buf w = Some (rc, err, rh, buf', slept', w') \<and> keep buf' w' \<and>
    length slept' \<le> AZURE_MAX_RETRIES \<and> (azure_is_retryable rc \<and> rc \<noteq> AZURE_OK \<longrightarrow> length slept' = AZURE_MAX_RETRIES) \<and>
    (\<exists>b s. keep b s \<and> ex (b\<lparr>buf_size := 0\<rparr>) s = Some (rc, err, rh, buf', w'))"
  using assms(2-)
proof (induction "AZURE_MAX_RETRIES - attempt" arbitrary: attempt slept buf w)
  case 0
  obtain rc err rh b w1 where e: "ex (buf\<lparr>buf_size := 0\<rparr>) w = Some (rc, err, rh, b, w1)" "keep b w1"
    using assms(1) [OF 0(2)] by blast
  have "attempt = AZURE_MAX_RETRIES" using 0 by simp
  then have "\<not> attempt < AZURE_MAX_RETRIES" by simp
  then have "retry_loop ex rnd attempt slept buf w = Some (rc, err, rh, b, slept, w1)"
    unfolding retry_loop.simps [of ex rnd attempt] using e by simp
  then show ?case using e 0 \<open>attempt = AZURE_MAX_RETRIES\<close> by blast
next
  case (Suc k)
  obtain rc err rh b w1 where e: "ex (buf\<lparr>buf_size := 0\<rparr>) w = Some (rc, err, rh, b, w1)" "keep b w1"
    using assms(1) [OF Suc.prems(1)] by blast
  show ?case
  proof (cases "rc = AZURE_OK \<or> \<not> azure_is_retryable rc")
    case True
    then have "retry_loop ex rnd attempt slept buf w = Some (rc, err, rh, b, slept, w1)"
      using e by (simp add: retry_loop.simps [of ex rnd attempt])
    then show ?thesis using e True Suc.prems by blast
  next
    case False
    have a: "attempt < AZURE_MAX_RETRIES" using Suc.hyps(2) by simp
    have "retry_loop ex rnd attempt slept buf w = retry_loop ex rnd (Suc attempt)
        (slept @ [azure_compute_retry_delay (int attempt) (rh_retry_after rh) (rnd attempt)]) b w1"
      using e False a by (simp add: retry_loop.simps [of ex rnd attempt])
    then show ?thesis using Suc.hyps(1) [of "Suc attempt" b w1] e(2) Suc.hyps(2) Suc.prems a by simp
  qed
qed

text \<open>C27 A request with retries always comes to an end: if every attempt returns and keeps an invariant of the buffer and the
  client, it makes at most six attempts and sleeps between them, it returns the outcome of the last one, keeps the invariant,
  and reports a transient error only after all five retries.\<close>

theorem execute_with_retry_total:
  assumes "\<And>b s. keep b s \<Longrightarrow> \<exists>rc err rh b' s'. ex (b\<lparr>buf_size := 0\<rparr>) s = Some (rc, err, rh, b', s') \<and> keep b' s'"
    and "keep buf w"
  shows "\<exists>rc err rh buf' slept w'. execute_with_retry ex rnd buf w = Some (rc, err, rh, buf', slept, w') \<and> keep buf' w' \<and>
    length slept \<le> AZURE_MAX_RETRIES \<and> (azure_is_retryable rc \<and> rc \<noteq> AZURE_OK \<longrightarrow> length slept = AZURE_MAX_RETRIES) \<and>
    (\<exists>b s. keep b s \<and> ex (b\<lparr>buf_size := 0\<rparr>) s = Some (rc, err, rh, buf', w'))"
  unfolding execute_with_retry_def using assms by (intro retry_loop_spec) auto

text \<open>A server that is busy for the first three requests.\<close>

definition sample_attempt :: "nat http_attempt" where
  "sample_attempt buf n = Some (if n < 3 then AZURE_ERR_SERVER else AZURE_OK, azure_error_init, headers_zero, buf, Suc n)"

theorem execute_with_retry_total_witness:
  "\<exists>err rh buf' slept. execute_with_retry sample_attempt (\<lambda>_. None) azure_buffer_init 0 = Some (AZURE_OK, err, rh, buf', slept, 4) \<and>
    length slept = 3 \<and> length slept \<le> AZURE_MAX_RETRIES"
proof -
  have run: "execute_with_retry sample_attempt (\<lambda>_. None) azure_buffer_init 0 =
      Some (AZURE_OK, azure_error_init, headers_zero, azure_buffer_init, [500, 1000, 2000], 4)"
    by code_simp
  have "\<exists>rc err rh b' s'. sample_attempt (b\<lparr>buf_size := 0\<rparr>) s = Some (rc, err, rh, b', s') \<and> buffer_ok b'" if "buffer_ok b" for b s
    using that by (simp add: sample_attempt_def)
  from execute_with_retry_total [where ex = sample_attempt and keep = "\<lambda>b s. buffer_ok b", OF this buffer_ok_init(1), of "\<lambda>_. None" 0] run
  show ?thesis by auto
qed

end
