(* ===== verification/Main_Io.thy ===== *)
theory Main_Io
  imports Page_Cache
begin

text \<open>
  The data path of the io methods of \<^verbatim>\<open>sqlite_objs_vfs.c\<close>: \<^verbatim>\<open>bufferRead\<close>, \<^verbatim>\<open>xRead\<close>, \<^verbatim>\<open>xWrite\<close>,
  \<^verbatim>\<open>xTruncate\<close> and \<^verbatim>\<open>xFileSize\<close> for the three kinds of file.

  \<open>random_access_file\<close> is the contract SQLite relies on: a write changes exactly the bytes it covers, a read returns the bytes
  of the file, zero-filled past its end, and says whether it was short. The journal buffer, the WAL
  buffer and the disk-backed database cache are three interpretations of it.
\<close>

section \<open>xRead\<close>

definition bufferRead :: "bytes option \<Rightarrow> int \<Rightarrow> int \<Rightarrow> int \<Rightarrow> sqlite_rc \<times> bytes" where
  "bufferRead src srcLen iAmt iOfst =
     (case src of
        None \<Rightarrow> (SQLITE_IOERR_SHORT_READ, replicate (nat iAmt) 0)
      | Some s \<Rightarrow>
          if srcLen \<le> iOfst then (SQLITE_IOERR_SHORT_READ, replicate (nat iAmt) 0)
          else
            let avail = srcLen - iOfst in
            if iAmt \<le> avail then (SQLITE_OK, bslice s (nat iOfst) (nat iAmt))
            else (SQLITE_IOERR_SHORT_READ,
                  bslice s (nat iOfst) (nat avail) @ replicate (nat (iAmt - avail)) 0))"

text \<open>The page loop of the lazy cache in \<^verbatim>\<open>xRead\<close>; it returns \<^verbatim>\<open>hadMiss\<close> with the result.\<close>

function lazy_fetch_loop ::
  "int \<Rightarrow> int \<Rightarrow> bool \<Rightarrow> 'w sqliteObjsFile \<Rightarrow> 'w env \<Rightarrow> sqlite_rc \<times> bool \<times> 'w sqliteObjsFile \<times> 'w env" where
  "lazy_fetch_loop pg endPage hadMiss p e =
     (if \<not> pg < endPage then (SQLITE_OK, hadMiss, p, e)
      else if bitmapTestBit (valid p) pg then lazy_fetch_loop (pg + 1) endPage hadMiss p e
      else
        let p = (if hadMiss then p else bump cache_misses_update 1 p);
            p = bump cache_miss_pages_update 1 p in
        case fetchPagesFromAzure p pg e of (rc, p, e) \<Rightarrow>
        if rc \<noteq> SQLITE_OK then (rc, True, p, e)
        else lazy_fetch_loop (pg + 1) endPage True p e)"
  by pat_completeness auto
termination
  by (relation "measure (\<lambda>(pg, endPage, hadMiss, p, e). nat (endPage - pg))") auto

declare lazy_fetch_loop.simps [simp del]

definition lazy_fetch ::
  "int \<Rightarrow> int \<Rightarrow> 'w sqliteObjsFile \<Rightarrow> 'w env \<Rightarrow> sqlite_rc \<times> 'w sqliteObjsFile \<times> 'w env" where
  "lazy_fetch iAmt iOfst p e =
     (if prefetchMode p = SQLITE_OBJS_PREFETCH_NONE \<and> bm_data (valid p) \<noteq> None \<and> pageSize p > 0
      then
        let readEnd = iOfst + iAmt;
            readEnd = (if nData p < readEnd then nData p else readEnd);
            startPage = c_int (c_div iOfst (pageSize p));
            endPage = c_int (c_div (readEnd + pageSize p - 1) (pageSize p)) in
        case lazy_fetch_loop startPage endPage False p e of (rc, hadMiss, p, e) \<Rightarrow>
        if rc \<noteq> SQLITE_OK then (rc, p, e)
        else (SQLITE_OK, if hadMiss then p else bump cache_hits_update 1 p, e)
      else (SQLITE_OK, p, e))"

text \<open>The last step of \<^verbatim>\<open>xRead\<close> on a database: read the cache file.\<close>

definition cache_read ::
  "int \<Rightarrow> int \<Rightarrow> 'w sqliteObjsFile \<Rightarrow> 'w env \<Rightarrow> sqlite_rc \<times> bytes \<times> 'w sqliteObjsFile \<times> 'w env" where
  "cache_read iAmt iOfst p e =
     (let avail = nData p - iOfst;
          toRead = (if iAmt \<le> avail then iAmt else c_int avail) in
      if toRead > 0
      then
        case pread_fd (cacheFd p) toRead iOfst e of (nRead, d, e) \<Rightarrow>
        let p = bump disk_reads_update 1 p;
            p = bump disk_bytes_read_update (if nRead > 0 then nRead else 0) p in
        if nRead < 0 then (SQLITE_IOERR_READ, replicate (nat iAmt) 0, p, e)
        else
          let buf = (if nRead < toRead then d @ replicate (nat (toRead - nRead)) 0 else d) in
          if toRead < iAmt
          then (SQLITE_IOERR_SHORT_READ, buf @ replicate (nat (iAmt - toRead)) 0, p, e)
          else if nRead < iAmt then (SQLITE_IOERR_SHORT_READ, buf, p, e)
          else (SQLITE_OK, buf, p, e)
      else (SQLITE_IOERR_SHORT_READ, replicate (nat iAmt) 0, p, e))"

definition sqliteObjsRead ::
  "'w sqliteObjsFile \<Rightarrow> int \<Rightarrow> int \<Rightarrow> 'w env \<Rightarrow> sqlite_rc \<times> bytes \<times> 'w sqliteObjsFile \<times> 'w env" where
  "sqliteObjsRead p iAmt iOfst e =
     (case eFileType p of
        WAL \<Rightarrow> (case bufferRead (aWalData p) (nWalData p) iAmt iOfst of (rc, buf) \<Rightarrow> (rc, buf, p, e))
      | MAIN_JOURNAL \<Rightarrow>
          (let e = e\<lparr>g_xread_journal_count := g_xread_journal_count e + 1\<rparr> in
           case bufferRead (aJrnlData p) (nJrnlData p) iAmt iOfst of (rc, buf) \<Rightarrow> (rc, buf, p, e))
      | MAIN_DB \<Rightarrow>
          (let e = e\<lparr>g_xread_count := g_xread_count e + 1\<rparr>;
               p = (if SQLITE_LOCK_SHARED \<le> eLock p
                    then p\<lparr>readsSinceSharedLock := readsSinceSharedLock p + 1\<rparr> else p) in
           if cacheFd p = None then (SQLITE_IOERR_SHORT_READ, replicate (nat iAmt) 0, p, e)
           else if nData p \<le> iOfst then (SQLITE_IOERR_SHORT_READ, replicate (nat iAmt) 0, p, e)
           else case lazy_fetch iAmt iOfst p e of (rc, p, e) \<Rightarrow>
                if rc \<noteq> SQLITE_OK then (rc, replicate (nat iAmt) 0, p, e)
                else cache_read iAmt iOfst p e))"

section \<open>xWrite\<close>

text \<open>\<^verbatim>\<open>memcpy(buf + ofst, pBuf, n)\<close> into a heap buffer that is large enough.\<close>

definition heap_write :: "bytes option \<Rightarrow> int \<Rightarrow> bytes \<Rightarrow> bytes option" where
  "heap_write buf ofst d = map_option (\<lambda>b. put b (nat ofst) d) buf"

text \<open>The loop that marks the pages of a write; \<^verbatim>\<open>pageSize\<close> is positive where it is entered.\<close>

function mark_written_loop :: "int \<Rightarrow> int \<Rightarrow> int \<Rightarrow> 'w sqliteObjsFile \<Rightarrow> 'w sqliteObjsFile" where
  "mark_written_loop ps pageStart endOfs p =
     (if 0 < ps \<and> pageStart < endOfs
      then
        let p = dirtyMarkPage p pageStart;
            p = (if bm_data (valid p) \<noteq> None then validMarkPage p pageStart else p)
        in mark_written_loop ps (pageStart + ps) endOfs p
      else p)"
  by pat_completeness auto
termination
  by (relation "measure (\<lambda>(ps, pageStart, endOfs, p). nat (endOfs - pageStart))") auto

declare mark_written_loop.simps [simp del]

definition sqliteObjsWrite ::
  "'w sqliteObjsFile \<Rightarrow> bytes \<Rightarrow> int \<Rightarrow> 'w env \<Rightarrow> (sqlite_rc \<times> 'w sqliteObjsFile \<times> 'w env) option" where
  "sqliteObjsWrite p pBuf iOfst e =
     (let iAmt = int (length pBuf); endOfs = iOfst + iAmt in
      case eFileType p of
        WAL \<Rightarrow>
          (case walBufferEnsure p endOfs e of
             None \<Rightarrow> None
           | Some (rc, p, e) \<Rightarrow>
               if rc \<noteq> SQLITE_OK then Some (rc, p, e)
               else
                 let p = p\<lparr>aWalData := heap_write (aWalData p) iOfst pBuf\<rparr>;
                     p = (if nWalData p < endOfs then p\<lparr>nWalData := endOfs\<rparr> else p)
                 in Some (SQLITE_OK, p, e))
      | MAIN_JOURNAL \<Rightarrow>
          (case jrnlBufferEnsure p endOfs e of
             None \<Rightarrow> None
           | Some (rc, p, e) \<Rightarrow>
               if rc \<noteq> SQLITE_OK then Some (rc, p, e)
               else
                 let p = p\<lparr>aJrnlData := heap_write (aJrnlData p) iOfst pBuf\<rparr>;
                     p = (if nJrnlData p < endOfs then p\<lparr>nJrnlData := endOfs\<rparr> else p)
                 in Some (SQLITE_OK, p, e))
      | MAIN_DB \<Rightarrow>
          if cacheFd p = None then Some (SQLITE_IOERR_WRITE, p, e)
          else
            let prevNData = nData p;
                p = (if nData p < endOfs then p\<lparr>nData := endOfs\<rparr> else p) in
            case (if prevNData < endOfs then cacheEnsureSize p endOfs e else (SQLITE_OK, p, e)) of
              (rc, p, e) \<Rightarrow>
            if rc \<noteq> SQLITE_OK then Some (rc, p\<lparr>nData := prevNData\<rparr>, e)
            else case pwrite_fd (cacheFd p) pBuf iOfst e of (nWritten, e) \<Rightarrow>
            if nWritten \<noteq> iAmt then Some (SQLITE_IOERR_WRITE, p\<lparr>nData := prevNData\<rparr>, e)
            else
              let p = bump disk_bytes_written_update iAmt (bump disk_writes_update 1 p) in
              case (if hasLease p then leaseRenewIfNeeded p e else (SQLITE_OK, p, e)) of (rc, p, e) \<Rightarrow>
              if rc \<noteq> SQLITE_OK then Some (rc, p, e)
              else if pageSize p > 0
              then Some (SQLITE_OK,
                         mark_written_loop (pageSize p) (c_div iOfst (pageSize p) * pageSize p) endOfs p, e)
              else Some (SQLITE_OK, p, e))"

section \<open>xTruncate and xFileSize\<close>

text \<open>\<^verbatim>\<open>(n + 511) & ~511\<close>\<close>

definition align512 :: "int \<Rightarrow> int" where
  "align512 n = (n + 511) AND NOT 511"

definition truncate_wal :: "'w sqliteObjsFile \<Rightarrow> int \<Rightarrow> 'w env \<Rightarrow> 'w sqliteObjsFile \<times> 'w env" where
  "truncate_wal p sz e =
     (if sz = 0
      then
        let e = (case Option.bind (ops p) blob_delete of
                   None \<Rightarrow> e
                 | Some del \<Rightarrow> (case do_azure (del (blob p)) e of (_, _, e) \<Rightarrow> e))
        in (p\<lparr>nWalData := 0,
              aWalData := map_option (\<lambda>_. replicate (nat (nWalAlloc p)) 0) (aWalData p)\<rparr>, e)
      else if sz < nWalData p then (p\<lparr>nWalData := sz\<rparr>, e)
      else (p, e))"

definition truncate_journal :: "'w sqliteObjsFile \<Rightarrow> int \<Rightarrow> 'w sqliteObjsFile" where
  "truncate_journal p sz =
     (if sz < nJrnlData p
      then
        let p = p\<lparr>nJrnlData := sz\<rparr> in
        if sz < nJrnlAlloc p
        then p\<lparr>aJrnlData := map_option (\<lambda>b. put b (nat sz) (replicate (nat (nJrnlAlloc p - sz)) 0))
                 (aJrnlData p)\<rparr>
        else p
      else p)"

definition sqliteObjsTruncate ::
  "'w sqliteObjsFile \<Rightarrow> int \<Rightarrow> 'w env \<Rightarrow> sqlite_rc \<times> 'w sqliteObjsFile \<times> 'w env" where
  "sqliteObjsTruncate p sz e =
     (case eFileType p of
        WAL \<Rightarrow> (case truncate_wal p sz e of (p, e) \<Rightarrow> (SQLITE_OK, p, e))
      | MAIN_JOURNAL \<Rightarrow> (SQLITE_OK, truncate_journal p sz, e)
      | MAIN_DB \<Rightarrow>
          (case (case Option.bind (ops p) page_blob_resize of
                   None \<Rightarrow> (AZURE_OK, p, e)
                 | Some resize \<Rightarrow>
                     (case do_azure (resize (blob p) (align512 sz) (lease_arg p)) e of (arc, aerr, e) \<Rightarrow>
                      (arc, if arc = AZURE_OK then p\<lparr>lastSyncedSize := sz\<rparr> else p, e))) of
             (arc, p, e) \<Rightarrow>
           if arc \<noteq> AZURE_OK then (azureErrToSqlite arc (Some SQLITE_IOERR_TRUNCATE), p, e)
           else case (if cacheFd p = None then (0, e) else ftruncate_fd (cacheFd p) sz e) of (r, e) \<Rightarrow>
           if r \<noteq> 0 then (SQLITE_IOERR_TRUNCATE, p, e)
           else if sz < nData p
           then
             let p = (if bm_data (valid p) \<noteq> None \<and> pageSize p > 0
                      then
                        let firstGone = c_int (c_div (sz + pageSize p - 1) (pageSize p));
                            nPages = c_int (c_div (nData p + pageSize p - 1) (pageSize p))
                        in p\<lparr>valid := foldl bitmapClearBit (valid p) [firstGone..nPages - 1]\<rparr>
                      else p)
             in (SQLITE_OK, p\<lparr>nData := sz\<rparr>, e)
           else (SQLITE_OK, p, e)))"

definition sqliteObjsFileSize :: "'w sqliteObjsFile \<Rightarrow> sqlite_rc \<times> int" where
  "sqliteObjsFileSize p =
     (case eFileType p of
        WAL \<Rightarrow> (SQLITE_OK, nWalData p)
      | MAIN_JOURNAL \<Rightarrow> (SQLITE_OK, nJrnlData p)
      | MAIN_DB \<Rightarrow> (SQLITE_OK, nData p))"

section \<open>The contract of a random-access file\<close>

text \<open>A sequence of writes, each of which must succeed.\<close>

fun write_all ::
  "('p \<Rightarrow> bytes \<Rightarrow> int \<Rightarrow> 'e \<Rightarrow> (sqlite_rc \<times> 'p \<times> 'e) option) \<Rightarrow> (int \<times> bytes) list \<Rightarrow> 'p \<Rightarrow> 'e \<Rightarrow> ('p \<times> 'e) option"
where
  "write_all wr [] p e = Some (p, e)"
| "write_all wr ((off, d) # ws) p e =
     (case wr p d off e of Some (SQLITE_OK, p, e) \<Rightarrow> write_all wr ws p e | _ \<Rightarrow> None)"

definition puts :: "(int \<times> bytes) list \<Rightarrow> bytes \<Rightarrow> bytes" where
  "puts ws c = foldl (\<lambda>c (off, d). put c (nat off) d) c ws"

text \<open>The offsets SQLite can use: not negative, ends below \<open>2^62\<close>.\<close>

definition write_ok :: "int \<times> bytes \<Rightarrow> bool" where
  "write_ok w \<longleftrightarrow> 0 \<le> fst w \<and> fst w + int (length (snd w)) < 4611686018427387904"

locale random_access_file =
  fixes wr :: "'p \<Rightarrow> bytes \<Rightarrow> int \<Rightarrow> 'e \<Rightarrow> (sqlite_rc \<times> 'p \<times> 'e) option"
    and rd :: "'p \<Rightarrow> int \<Rightarrow> int \<Rightarrow> 'e \<Rightarrow> sqlite_rc \<times> bytes \<times> 'p \<times> 'e"
    and view :: "'p \<Rightarrow> 'e \<Rightarrow> bytes"
    and inv :: "'p \<Rightarrow> 'e \<Rightarrow> bool"
  assumes wr_cases: "inv p e \<Longrightarrow> write_ok (off, d) \<Longrightarrow>
      \<exists>rc p' e'. wr p d off e = Some (rc, p', e') \<and> inv p' e' \<and>
        (rc = SQLITE_OK \<and> view p' e' = put (view p e) (nat off) d \<or>
         rc \<noteq> SQLITE_OK \<and> view p' e' = view p e)"
    and rd_cases: "inv p e \<Longrightarrow> 0 \<le> off \<Longrightarrow> 0 < n \<Longrightarrow> n < 2147483648 \<Longrightarrow>
      \<exists>p' e'. rd p n off e =
        (if nat off + nat n \<le> length (view p e) then SQLITE_OK else SQLITE_IOERR_SHORT_READ,
         zero_fill (nat n) (bslice (view p e) (nat off) (nat n)), p', e')
        \<and> inv p' e' \<and> view p' e' = view p e"
begin

lemma write_all_view:
  assumes "inv p e" and "list_all write_ok ws" and "write_all wr ws p e = Some (p', e')"
  shows "inv p' e' \<and> view p' e' = puts ws (view p e)"
  using assms
proof (induction ws arbitrary: p e)
  case Nil
  then show ?case by (simp add: puts_def)
next
  case (Cons w ws)
  obtain off d where w: "w = (off, d)" by (cases w)
  obtain rc p1 e1 where s: "wr p d off e = Some (rc, p1, e1)" "inv p1 e1"
      "rc = SQLITE_OK \<and> view p1 e1 = put (view p e) (nat off) d \<or> rc \<noteq> SQLITE_OK \<and> view p1 e1 = view p e"
    using wr_cases [of p e off d] Cons.prems w by auto
  have ok: "rc = SQLITE_OK" "write_all wr ws p1 e1 = Some (p', e')"
    using Cons.prems(3) s(1) w by (auto split: sqlite_rc.splits)
  show ?case using Cons.IH [OF s(2) _ ok(2)] Cons.prems(2) s(3) ok(1) w by (simp add: puts_def)
qed

lemma read_after_writes:
  assumes "inv p e" and "list_all write_ok ws" and "write_all wr ws p e = Some (p1, e1)"
    and "0 \<le> off" and "0 < n" and "n < 2147483648"
  shows "\<exists>p2 e2. rd p1 n off e1 =
    (if nat off + nat n \<le> length (puts ws (view p e)) then SQLITE_OK else SQLITE_IOERR_SHORT_READ,
     zero_fill (nat n) (bslice (puts ws (view p e)) (nat off) (nat n)), p2, e2)"
  using write_all_view [OF assms(1-3)] rd_cases [of p1 e1 off n] assms(4-6) by auto

end

text \<open>A file whose writes cannot fail on a machine without faults.\<close>

locale quiet_file = random_access_file wr rd view inv
  for wr :: "'p \<Rightarrow> bytes \<Rightarrow> int \<Rightarrow> 'e \<Rightarrow> (sqlite_rc \<times> 'p \<times> 'e) option"
    and rd :: "'p \<Rightarrow> int \<Rightarrow> int \<Rightarrow> 'e \<Rightarrow> sqlite_rc \<times> bytes \<times> 'p \<times> 'e"
    and view :: "'p \<Rightarrow> 'e \<Rightarrow> bytes"
    and inv :: "'p \<Rightarrow> 'e \<Rightarrow> bool" +
  fixes quiet :: "'e \<Rightarrow> bool"
  assumes wr_quiet: "inv p e \<Longrightarrow> quiet e \<Longrightarrow> write_ok (off, d) \<Longrightarrow>
      \<exists>p' e'. wr p d off e = Some (SQLITE_OK, p', e') \<and> quiet e'"
begin

lemma writes_succeed:
  assumes "inv p e" and "quiet e" and "list_all write_ok ws"
  shows "\<exists>p' e'. write_all wr ws p e = Some (p', e')"
  using assms
proof (induction ws arbitrary: p e)
  case (Cons w ws)
  obtain off d where w: "w = (off, d)" by (cases w)
  have ok: "write_ok (off, d)" using Cons.prems w by simp
  obtain p1 e1 where s: "wr p d off e = Some (SQLITE_OK, p1, e1)" "quiet e1"
    using wr_quiet [OF Cons.prems(1,2) ok] by blast
  then have "inv p1 e1" using wr_cases [OF Cons.prems(1) ok] by auto
  from Cons.IH [OF this s(2)] Cons.prems(3) s(1) w show ?case by simp
qed simp

lemma refines_byte_array:
  assumes "inv p e" and "quiet e" and "list_all write_ok ws" and "0 \<le> off" and "0 < n" and "n < 2147483648"
  shows "\<exists>p1 e1 p2 e2. write_all wr ws p e = Some (p1, e1) \<and>
    rd p1 n off e1 =
      (if nat off + nat n \<le> length (puts ws (view p e)) then SQLITE_OK else SQLITE_IOERR_SHORT_READ,
       zero_fill (nat n) (bslice (puts ws (view p e)) (nat off) (nat n)), p2, e2)"
proof -
  obtain p1 e1 where w: "write_all wr ws p e = Some (p1, e1)" using writes_succeed [OF assms(1-3)] by blast
  from read_after_writes [OF assms(1,3) this assms(4-6)] w show ?thesis by blast
qed

end

section \<open>Journal and WAL buffers\<close>

text \<open>A heap buffer with logical size \<open>n\<close>: everything allocated beyond it is zero.\<close>

definition heap_file :: "bytes option \<Rightarrow> int \<Rightarrow> int \<Rightarrow> bool" where
  "heap_file buf n nAlloc \<longleftrightarrow>
     buf_wf buf nAlloc \<and> 0 \<le> n \<and> n \<le> nAlloc \<and> (\<forall>i \<ge> nat n. byte_at (buf_bytes buf) i = 0)"

definition heap_view :: "bytes option \<Rightarrow> int \<Rightarrow> bytes" where
  "heap_view buf n = take (nat n) (buf_bytes buf)"

lemma buf_wf_length: "buf_wf buf nAlloc \<Longrightarrow> int (length (buf_bytes buf)) = nAlloc"
  by (auto simp: buf_wf_def buf_bytes_def split: option.splits)

lemma length_heap_view: "heap_file buf n nAlloc \<Longrightarrow> int (length (heap_view buf n)) = n"
  using buf_wf_length [of buf nAlloc] by (auto simp: heap_file_def heap_view_def)

lemma byte_at_heap_view: "heap_file buf n nAlloc \<Longrightarrow> byte_at (heap_view buf n) i = byte_at (buf_bytes buf) i"
  by (auto simp: heap_file_def heap_view_def byte_at_take)

lemma bufferRead_spec:
  assumes "heap_file src n nAlloc" and "0 \<le> off" and "0 < iAmt"
  shows "bufferRead src n iAmt off =
    (if nat off + nat iAmt \<le> length (heap_view src n) then SQLITE_OK else SQLITE_IOERR_SHORT_READ,
     zero_fill (nat iAmt) (bslice (heap_view src n) (nat off) (nat iAmt)))"
proof (cases src)
  case None
  then have "n = 0" using assms(1) by (auto simp: heap_file_def buf_wf_def)
  with None assms show ?thesis
    by (simp add: bufferRead_def heap_view_def buf_bytes_def bslice_def zero_fill_Nil)
next
  case (Some b)
  have len: "n \<le> int (length b)" "0 \<le> n" using assms(1) Some by (auto simp: heap_file_def buf_wf_def)
  have hv: "heap_view src n = take (nat n) b" using Some by (simp add: heap_view_def buf_bytes_def)
  consider "n \<le> off" | "off < n" "iAmt \<le> n - off" | "off < n" "n - off < iAmt" by linarith
  then show ?thesis
  proof cases
    case 1
    then have "bslice (heap_view src n) (nat off) (nat iAmt) = []" using len by (simp add: hv bslice_def)
    moreover have "\<not> nat off + nat iAmt \<le> length (heap_view src n)" using 1 len assms(3) by (simp add: hv)
    ultimately show ?thesis using 1 Some by (simp add: bufferRead_def zero_fill_Nil)
  next
    case 2
    then have "bslice b (nat off) (nat iAmt) = bslice (heap_view src n) (nat off) (nat iAmt)"
      using assms len by (intro bytes_eqI) (auto simp: hv byte_at_bslice byte_at_take)
    moreover have "length (bslice b (nat off) (nat iAmt)) = nat iAmt" using 2 len assms by auto
    ultimately show ?thesis using 2 Some len assms by (simp add: bufferRead_def hv nat_le_iff nat_add_distrib [symmetric])
  next
    case 3
    have l: "length (bslice b (nat off) (nat (n - off))) = nat (n - off)" using 3 len assms by auto
    have "bslice b (nat off) (nat (n - off)) @ replicate (nat (iAmt - (n - off))) 0
        = zero_fill (nat iAmt) (bslice (heap_view src n) (nat off) (nat iAmt))" (is "?l = ?r")
    proof (rule bytes_eqI)
      show "length ?l = length ?r" using 3 assms l by simp
      show "byte_at ?l i = byte_at ?r i" for i
        using 3 assms(2)
        by (auto simp: byte_at_append_at l byte_at_zero_fill byte_at_bslice hv byte_at_take simp del: length_bslice)
    qed
    moreover have "\<not> nat off + nat iAmt \<le> length (heap_view src n)" using 3 len assms by (simp add: hv)
    ultimately show ?thesis using 3 Some by (simp add: bufferRead_def)
  qed
qed

lemma heap_write_spec:
  assumes "heap_file buf n nAlloc" and "write_ok (off, d)" and "buf_wf buf' alloc'"
    and "off + int (length d) \<le> alloc'" and "nAlloc \<le> alloc'" and "buf_bytes buf' = zpad (nat alloc') (buf_bytes buf)"
  shows "heap_file (heap_write buf' off d) (max n (off + int (length d))) alloc'"
    "heap_view (heap_write buf' off d) (max n (off + int (length d))) = put (heap_view buf n) (nat off) d"
proof -
  have l: "int (length (buf_bytes buf')) = alloc'" using buf_wf_length [OF assms(3)] .
  have off: "0 \<le> off" using assms(2) by (simp add: write_ok_def)
  have nn: "0 \<le> n" "n \<le> nAlloc" "\<forall>i \<ge> nat n. byte_at (buf_bytes buf) i = 0"
    using assms(1) by (auto simp: heap_file_def)
  have b: "buf_bytes (heap_write buf' off d) = (if buf' = None then [] else put (buf_bytes buf') (nat off) d)"
    by (auto simp: buf_bytes_def heap_write_def)
  have none: "buf' = None \<Longrightarrow> alloc' = 0 \<and> off = 0 \<and> d = [] \<and> n = 0"
    using assms(3,4,5) off nn length_0_conv [of d] by (simp add: buf_wf_def del: length_0_conv)
  have ba: "byte_at (buf_bytes (heap_write buf' off d)) i =
      (if nat off \<le> i \<and> i < nat off + length d then d ! (i - nat off) else byte_at (buf_bytes buf) i)" for i
  proof -
    have z: "byte_at (buf_bytes buf') i = byte_at (buf_bytes buf) i" by (simp add: assms(6))
    show ?thesis
    proof (cases "buf' = None")
      case True
      then have "buf_bytes (heap_write buf' off d) = []" "byte_at (buf_bytes buf) i = 0" "d = []"
        using b z none by (simp_all add: buf_bytes_def)
      then show ?thesis by (auto simp del: length_greater_0_conv)
    next
      case False
      then show ?thesis using z by (auto simp: b byte_at_put)
    qed
  qed
  have wf: "buf_wf (heap_write buf' off d) alloc'"
    using assms(3,4) off l none by (auto simp: buf_wf_def heap_write_def buf_bytes_def split: option.splits)
  show hf: "heap_file (heap_write buf' off d) (max n (off + int (length d))) alloc'"
    using wf nn assms(4,5) off ba unfolding heap_file_def by auto
  show "heap_view (heap_write buf' off d) (max n (off + int (length d))) = put (heap_view buf n) (nat off) d"
  proof (rule bytes_eqI)
    show "length (heap_view (heap_write buf' off d) (max n (off + int (length d)))) = length (put (heap_view buf n) (nat off) d)"
      using length_heap_view [OF hf] length_heap_view [OF assms(1)] off by simp
    show "byte_at (heap_view (heap_write buf' off d) (max n (off + int (length d)))) i = byte_at (put (heap_view buf n) (nat off) d) i" for i
      by (simp add: byte_at_heap_view [OF hf] byte_at_heap_view [OF assms(1)] ba byte_at_put)
  qed
qed


definition jrnl_inv :: "'w sqliteObjsFile \<Rightarrow> 'w env \<Rightarrow> bool" where
  "jrnl_inv p e \<longleftrightarrow> eFileType p = MAIN_JOURNAL \<and> heap_file (aJrnlData p) (nJrnlData p) (nJrnlAlloc p)"

definition jrnl_view :: "'w sqliteObjsFile \<Rightarrow> 'w env \<Rightarrow> bytes" where
  "jrnl_view p e = heap_view (aJrnlData p) (nJrnlData p)"

definition wal_inv :: "'w sqliteObjsFile \<Rightarrow> 'w env \<Rightarrow> bool" where
  "wal_inv p e \<longleftrightarrow> eFileType p = WAL \<and> heap_file (aWalData p) (nWalData p) (nWalAlloc p)"

definition wal_view :: "'w sqliteObjsFile \<Rightarrow> 'w env \<Rightarrow> bytes" where
  "wal_view p e = heap_view (aWalData p) (nWalData p)"

lemma max_alt: "(if a < b then b else a) = max a b" for a b :: int
  by (simp add: max_def)

lemma bufferEnsure_quiet:
  assumes "buf_wf buf nAlloc" and "newSize < 4611686018427387904" and "no_faults e"
  shows "\<exists>buf' alloc'. bufferEnsure buf nAlloc newSize e = Some (SQLITE_OK, buf', alloc', e)"
proof -
  have "0 \<le> nAlloc" "nAlloc < 9223372036854775808" using assms(1) by (auto simp: buf_wf_def split: option.splits)
  then have "\<exists>a. alloc_loop (if nAlloc = 0 then SQLITE_OBJS_INITIAL_ALLOC else nAlloc) newSize = Some (Some a)"
    using alloc_loop_total [of "if nAlloc = 0 then SQLITE_OBJS_INITIAL_ALLOC else nAlloc" newSize] assms(2)
    by (auto split: if_splits)
  then show ?thesis using assms(3) by (auto simp: bufferEnsure_def malloc_ok Let_def)
qed

lemma heap_grow_cases:
  assumes "heap_file buf n nAlloc" and "write_ok (off, d)"
  obtains (ok) buf' alloc' e' where "bufferEnsure buf nAlloc (off + int (length d)) e = Some (SQLITE_OK, buf', alloc', e')"
      "heap_file (heap_write buf' off d) (max n (off + int (length d))) alloc'"
      "heap_view (heap_write buf' off d) (max n (off + int (length d))) = put (heap_view buf n) (nat off) d"
  | (nomem) e' where "bufferEnsure buf nAlloc (off + int (length d)) e = Some (SQLITE_NOMEM, buf, nAlloc, e')"
      "\<not> no_faults e"
proof -
  have wf: "buf_wf buf nAlloc" and lim: "off + int (length d) < 9223372036854775808"
    using assms by (auto simp: heap_file_def write_ok_def)
  obtain rc buf' alloc' e' where b: "bufferEnsure buf nAlloc (off + int (length d)) e = Some (rc, buf', alloc', e')"
      "buf_wf buf' alloc'"
      "rc = SQLITE_OK \<and> off + int (length d) \<le> alloc' \<and> nAlloc \<le> alloc' \<and>
         buf_bytes buf' = zpad (nat alloc') (buf_bytes buf) \<or>
       rc = SQLITE_NOMEM \<and> buf' = buf \<and> alloc' = nAlloc"
    using bufferEnsure_spec [OF wf lim, of e] by blast
  show thesis
  proof (cases "rc = SQLITE_OK")
    case True
    with b have "off + int (length d) \<le> alloc'" "nAlloc \<le> alloc'" "buf_bytes buf' = zpad (nat alloc') (buf_bytes buf)"
      by auto
    from heap_write_spec [OF assms b(2) this] b(1) True ok show thesis by blast
  next
    case False
    moreover have "rc = SQLITE_OK" if "no_faults e"
      using bufferEnsure_quiet [OF wf _ that, of "off + int (length d)"] b(1) assms(2) by (auto simp: write_ok_def)
    ultimately show thesis using b nomem by auto
  qed
qed

interpretation jrnl: quiet_file sqliteObjsWrite sqliteObjsRead jrnl_view jrnl_inv no_faults
proof
  fix p :: "'w sqliteObjsFile" and e :: "'w env" and off :: int and d :: bytes
  assume i: "jrnl_inv p e" and w: "write_ok (off, d)"
  then have h: "eFileType p = MAIN_JOURNAL" "heap_file (aJrnlData p) (nJrnlData p) (nJrnlAlloc p)"
    by (simp_all add: jrnl_inv_def)
  from h(2) w show "\<exists>rc p' e'. sqliteObjsWrite p d off e = Some (rc, p', e') \<and> jrnl_inv p' e' \<and>
      (rc = SQLITE_OK \<and> jrnl_view p' e' = put (jrnl_view p e) (nat off) d \<or>
       rc \<noteq> SQLITE_OK \<and> jrnl_view p' e' = jrnl_view p e)"
  proof (cases rule: heap_grow_cases [where e = e])
    case (ok buf' alloc' e')
    then show ?thesis using h(1)
      by (cases "nJrnlData p < off + int (length d)")
         (simp_all add: sqliteObjsWrite_def jrnlBufferEnsure_def jrnl_inv_def jrnl_view_def Let_def
            max.absorb2 max.absorb1)
  next
    case (nomem e')
    then show ?thesis using h by (simp add: sqliteObjsWrite_def jrnlBufferEnsure_def jrnl_inv_def jrnl_view_def Let_def)
  qed
next
  fix p :: "'w sqliteObjsFile" and e :: "'w env" and off n :: int
  assume i: "jrnl_inv p e" and n: "0 \<le> off" "0 < n"
  then have h: "heap_file (aJrnlData p) (nJrnlData p) (nJrnlAlloc p)" by (simp add: jrnl_inv_def)
  show "\<exists>p' e'. sqliteObjsRead p n off e =
      (if nat off + nat n \<le> length (jrnl_view p e) then SQLITE_OK else SQLITE_IOERR_SHORT_READ,
       zero_fill (nat n) (bslice (jrnl_view p e) (nat off) (nat n)), p', e')
      \<and> jrnl_inv p' e' \<and> jrnl_view p' e' = jrnl_view p e"
    using i bufferRead_spec [OF h n] by (simp add: sqliteObjsRead_def jrnl_inv_def jrnl_view_def Let_def)
next
  fix p :: "'w sqliteObjsFile" and e :: "'w env" and off :: int and d :: bytes
  assume i: "jrnl_inv p e" and q: "no_faults e" and w: "write_ok (off, d)"
  then have h: "eFileType p = MAIN_JOURNAL" "buf_wf (aJrnlData p) (nJrnlAlloc p)" by (simp_all add: jrnl_inv_def heap_file_def)
  obtain buf' alloc' where "bufferEnsure (aJrnlData p) (nJrnlAlloc p) (off + int (length d)) e = Some (SQLITE_OK, buf', alloc', e)"
    using bufferEnsure_quiet [OF h(2) _ q, of "off + int (length d)"] w by (auto simp: write_ok_def)
  with h(1) q show "\<exists>p' e'. sqliteObjsWrite p d off e = Some (SQLITE_OK, p', e') \<and> no_faults e'"
    by (simp add: sqliteObjsWrite_def jrnlBufferEnsure_def Let_def)
qed

interpretation wal: quiet_file sqliteObjsWrite sqliteObjsRead wal_view wal_inv no_faults
proof
  fix p :: "'w sqliteObjsFile" and e :: "'w env" and off :: int and d :: bytes
  assume i: "wal_inv p e" and w: "write_ok (off, d)"
  then have h: "eFileType p = WAL" "heap_file (aWalData p) (nWalData p) (nWalAlloc p)"
    by (simp_all add: wal_inv_def)
  from h(2) w show "\<exists>rc p' e'. sqliteObjsWrite p d off e = Some (rc, p', e') \<and> wal_inv p' e' \<and>
      (rc = SQLITE_OK \<and> wal_view p' e' = put (wal_view p e) (nat off) d \<or>
       rc \<noteq> SQLITE_OK \<and> wal_view p' e' = wal_view p e)"
  proof (cases rule: heap_grow_cases [where e = e])
    case (ok buf' alloc' e')
    then show ?thesis using h(1)
      by (cases "nWalData p < off + int (length d)")
         (simp_all add: sqliteObjsWrite_def walBufferEnsure_def wal_inv_def wal_view_def Let_def
            max.absorb2 max.absorb1)
  next
    case (nomem e')
    then show ?thesis using h by (simp add: sqliteObjsWrite_def walBufferEnsure_def wal_inv_def wal_view_def Let_def)
  qed
next
  fix p :: "'w sqliteObjsFile" and e :: "'w env" and off n :: int
  assume i: "wal_inv p e" and n: "0 \<le> off" "0 < n"
  then have h: "heap_file (aWalData p) (nWalData p) (nWalAlloc p)" by (simp add: wal_inv_def)
  show "\<exists>p' e'. sqliteObjsRead p n off e =
      (if nat off + nat n \<le> length (wal_view p e) then SQLITE_OK else SQLITE_IOERR_SHORT_READ,
       zero_fill (nat n) (bslice (wal_view p e) (nat off) (nat n)), p', e')
      \<and> wal_inv p' e' \<and> wal_view p' e' = wal_view p e"
    using i bufferRead_spec [OF h n] by (simp add: sqliteObjsRead_def wal_inv_def wal_view_def Let_def)
next
  fix p :: "'w sqliteObjsFile" and e :: "'w env" and off :: int and d :: bytes
  assume i: "wal_inv p e" and q: "no_faults e" and w: "write_ok (off, d)"
  then have h: "eFileType p = WAL" "buf_wf (aWalData p) (nWalAlloc p)" by (simp_all add: wal_inv_def heap_file_def)
  obtain buf' alloc' where "bufferEnsure (aWalData p) (nWalAlloc p) (off + int (length d)) e = Some (SQLITE_OK, buf', alloc', e)"
    using bufferEnsure_quiet [OF h(2) _ q, of "off + int (length d)"] w by (auto simp: write_ok_def)
  with h(1) q show "\<exists>p' e'. sqliteObjsWrite p d off e = Some (SQLITE_OK, p', e') \<and> no_faults e'"
    by (simp add: sqliteObjsWrite_def walBufferEnsure_def Let_def)
qed


section \<open>The database cache without local faults\<close>

lemma set_file_same: "fs e fd = Some c \<Longrightarrow> set_file fd c e = e"
  by (simp add: set_file_def fun_upd_idem)

lemma zpad_id: "n \<le> length c \<Longrightarrow> zpad n c = c"
  by (simp add: zpad_def)

lemma bitmaps_same [simp]: "p\<lparr>dirty := dirty p, valid := valid p\<rparr> = p" for p :: "'w sqliteObjsFile"
  by (cases p) simp

lemma valid_same [simp]: "p\<lparr>valid := valid p\<rparr> = p" for p :: "'w sqliteObjsFile"
  by (cases p) simp

lemma ensureCapacity_quiet:
  "no_faults e \<Longrightarrow> \<exists>bm'. bitmapEnsureCapacity bm fsz ps e = (SQLITE_OK, bm', e)"
  by (simp add: bitmapEnsureCapacity_def malloc_ok Let_def)

lemma bitmapsEnsure_quiet:
  assumes "no_faults e"
  shows "\<exists>dm vm. bitmapsEnsureCapacity p e = (SQLITE_OK, p\<lparr>dirty := dm, valid := vm\<rparr>, e) \<and>
    bitmapEnsureCapacity (dirty p) (nData p) (pageSize p) e = (SQLITE_OK, dm, e) \<and>
    (prefetchMode p \<noteq> SQLITE_OBJS_PREFETCH_NONE \<longrightarrow> vm = valid p) \<and>
    (prefetchMode p = SQLITE_OBJS_PREFETCH_NONE \<longrightarrow>
       bitmapEnsureCapacity (valid p) (nData p) (pageSize p) e = (SQLITE_OK, vm, e))"
proof -
  obtain dm where d: "bitmapEnsureCapacity (dirty p) (nData p) (pageSize p) e = (SQLITE_OK, dm, e)"
    using ensureCapacity_quiet [OF assms] by blast
  obtain vm where v: "bitmapEnsureCapacity (valid p) (nData p) (pageSize p) e = (SQLITE_OK, vm, e)"
    using ensureCapacity_quiet [OF assms] by blast
  show ?thesis
  proof (cases "prefetchMode p = SQLITE_OBJS_PREFETCH_NONE")
    case True
    with d v show ?thesis by (simp add: bitmapsEnsureCapacity_def)
  next
    case False
    with d show ?thesis by - (rule exI [of _ dm], rule exI [of _ "valid p"], simp add: bitmapsEnsureCapacity_def)
  qed
qed

text \<open>\<^verbatim>\<open>cacheEnsureSize\<close> pads the file with zeros and grows the bitmaps only when it had to grow the file.\<close>

lemma cacheEnsure_quiet:
  assumes "no_faults e" and "cacheFd p = Some fd" and "fs e fd = Some c" and "0 \<le> n"
  shows "\<exists>dm vm. cacheEnsureSize p n e =
      (SQLITE_OK, p\<lparr>dirty := dm, valid := vm\<rparr>, set_file fd (zpad (nat n) c) e) \<and>
    (n \<le> int (length c) \<longrightarrow> dm = dirty p \<and> vm = valid p) \<and>
    (int (length c) < n \<longrightarrow> bitmapEnsureCapacity (dirty p) (nData p) (pageSize p) (set_file fd (zpad (nat n) c) e)
        = (SQLITE_OK, dm, set_file fd (zpad (nat n) c) e))"
proof (cases "n \<le> int (length c)")
  case True
  then have "zpad (nat n) c = c" by (simp add: zpad_id)
  then show ?thesis using True assms
    by - (rule exI [of _ "dirty p"], rule exI [of _ "valid p"], simp add: cacheEnsureSize_def posix_simps file_of_def set_file_same)
next
  case False
  let ?e = "set_file fd (zpad (nat n) c) e"
  have t: "take (nat n) (zpad (nat n) c) = zpad (nat n) c" using False by (simp add: zpad_def)
  have q: "no_faults ?e" using assms(1) by simp
  obtain dm vm where b: "bitmapsEnsureCapacity p ?e = (SQLITE_OK, p\<lparr>dirty := dm, valid := vm\<rparr>, ?e)"
      "bitmapEnsureCapacity (dirty p) (nData p) (pageSize p) ?e = (SQLITE_OK, dm, ?e)"
    using bitmapsEnsure_quiet [OF q, of p] by blast
  show ?thesis using False assms b t
    by - (rule exI [of _ dm], rule exI [of _ vm], simp add: cacheEnsureSize_def posix_simps file_of_def)
qed

lemma mark_written_frame: "\<exists>dm vm. mark_written_loop ps s en p = p\<lparr>dirty := dm, valid := vm\<rparr>"
proof (induction ps s en p rule: mark_written_loop.induct)
  case (1 ps s en p)
  show ?case
  proof (cases "0 < ps \<and> s < en")
    case False
    then show ?thesis
      by - (rule exI [of _ "dirty p"], rule exI [of _ "valid p"], simp only: mark_written_loop.simps [of ps s en p] if_False bitmaps_same)
  next
    case True
    define p1 where "p1 = dirtyMarkPage p s"
    define p2 where "p2 = (if bm_data (valid p1) \<noteq> None then validMarkPage p1 s else p1)"
    have u: "mark_written_loop ps s en p = mark_written_loop ps (s + ps) en p2"
      using True by (simp add: mark_written_loop.simps [of ps s en p] Let_def p1_def p2_def)
    obtain dm vm where ih: "mark_written_loop ps (s + ps) en p2 = p2\<lparr>dirty := dm, valid := vm\<rparr>"
      using "1.IH" [OF True p1_def p2_def] by blast
    have "p2\<lparr>dirty := dm, valid := vm\<rparr> = p\<lparr>dirty := dm, valid := vm\<rparr>"
      by (simp add: p2_def p1_def dirtyMarkPage_def validMarkPage_def)
    with u ih show ?thesis by auto
  qed
qed

text \<open>No lease renewal falls due while the file is used.\<close>

definition lease_quiet :: "'w sqliteObjsFile \<Rightarrow> 'w env \<Rightarrow> bool" where
  "lease_quiet p e \<longleftrightarrow>
     (hasLease p \<longrightarrow> ticks e = [] \<and>
        clock e - leaseAcquiredAt p < (if leaseDuration p > 0 then leaseDuration p div 2 else 15))"

lemma leaseRenew_quiet: "lease_quiet p e \<Longrightarrow> leaseRenewIfNeeded p e = (SQLITE_OK, p, e)"
  by (auto simp: lease_quiet_def leaseRenewIfNeeded_def sys_time_def Let_def)

definition db_file :: "'w sqliteObjsFile \<Rightarrow> 'w env \<Rightarrow> bytes" where
  "db_file p e = (case cacheFd p of None \<Rightarrow> [] | Some fd \<Rightarrow> file_of e fd)"

definition db_view :: "'w sqliteObjsFile \<Rightarrow> 'w env \<Rightarrow> bytes" where
  "db_view p e = take (nat (nData p)) (db_file p e)"

definition db_inv :: "'w sqliteObjsFile \<Rightarrow> 'w env \<Rightarrow> bool" where
  "db_inv p e \<longleftrightarrow>
     eFileType p = MAIN_DB \<and> prefetchMode p \<noteq> SQLITE_OBJS_PREFETCH_NONE \<and> no_faults e \<and> lease_quiet p e \<and>
     (\<exists>fd c. cacheFd p = Some fd \<and> fs e fd = Some c) \<and> 0 \<le> nData p \<and>
     nData p \<le> int (length (db_file p e)) \<and> (\<forall>i \<ge> nat (nData p). byte_at (db_file p e) i = 0)"

lemma lease_quiet_upd [simp]:
  "lease_quiet (p\<lparr>nData := n\<rparr>) e = lease_quiet p e"
  "lease_quiet (p\<lparr>dirty := dm\<rparr>) e = lease_quiet p e"
  "lease_quiet (p\<lparr>valid := vm\<rparr>) e = lease_quiet p e"
  "lease_quiet (p\<lparr>readsSinceSharedLock := k\<rparr>) e = lease_quiet p e"
  "lease_quiet (bump u k p) e = lease_quiet p e"
  "lease_quiet p (set_file fd c e) = lease_quiet p e"
  "lease_quiet p (e\<lparr>g_xread_count := k\<rparr>) = lease_quiet p e"
  by (simp_all add: lease_quiet_def hasLease_def)

lemma bump_upd [simp]:
  "(bump u k p)\<lparr>dirty := dm\<rparr> = bump u k (p\<lparr>dirty := dm\<rparr>)"
  "(bump u k p)\<lparr>valid := vm\<rparr> = bump u k (p\<lparr>valid := vm\<rparr>)"
  by (simp_all add: bump_def)

text \<open>The record after a database write, up to the two bitmaps and the counters.\<close>

definition written :: "'w sqliteObjsFile \<Rightarrow> int \<Rightarrow> int \<Rightarrow> bitmap \<Rightarrow> bitmap \<Rightarrow> 'w sqliteObjsFile" where
  "written p len endOfs dm vm =
     bump disk_bytes_written_update len (bump disk_writes_update 1
       (p\<lparr>nData := max (nData p) endOfs, dirty := dm, valid := vm\<rparr>))"

lemma written_fields [simp]:
  "nData (written p l en dm vm) = max (nData p) en" "dirty (written p l en dm vm) = dm"
  "valid (written p l en dm vm) = vm" "cacheFd (written p l en dm vm) = cacheFd p"
  "eFileType (written p l en dm vm) = eFileType p" "prefetchMode (written p l en dm vm) = prefetchMode p"
  "pageSize (written p l en dm vm) = pageSize p" "lease_quiet (written p l en dm vm) e = lease_quiet p e"
  "hasLease (written p l en dm vm) = hasLease p"
  by (simp_all add: written_def hasLease_def)

lemma written_again [simp]:
  "(written p l en dm vm)\<lparr>dirty := dm', valid := vm'\<rparr> = written p l en dm' vm'"
  by (simp add: written_def bump_def)

text \<open>The growth step of a write that ends at \<open>en\<close>.\<close>

lemma write_grow_quiet:
  assumes nf: "no_faults e" and fd: "cacheFd p = Some fd" "fs e fd = Some c" and n: "nData p \<le> int (length c)" and en: "0 \<le> en"
  shows "\<exists>dm0 vm0. (if nData p < en then cacheEnsureSize (p\<lparr>nData := max (nData p) en\<rparr>) en e
        else (SQLITE_OK, p\<lparr>nData := max (nData p) en\<rparr>, e)) =
      (SQLITE_OK, p\<lparr>nData := max (nData p) en, dirty := dm0, valid := vm0\<rparr>, set_file fd (zpad (nat en) c) e) \<and>
    (en \<le> int (length c) \<longrightarrow> dm0 = dirty p \<and> vm0 = valid p) \<and>
    (int (length c) < en \<longrightarrow> bitmapEnsureCapacity (dirty p) en (pageSize p) (set_file fd (zpad (nat en) c) e) =
       (SQLITE_OK, dm0, set_file fd (zpad (nat en) c) e))"
proof (cases "nData p < en")
  case True
  let ?p1 = "p\<lparr>nData := max (nData p) en\<rparr>" and ?e1 = "set_file fd (zpad (nat en) c) e"
  have "cacheFd ?p1 = Some fd" using fd(1) by simp
  from cacheEnsure_quiet [OF nf this fd(2) en] show ?thesis using True by auto
next
  case False
  then have "zpad (nat en) c = c" "en \<le> int (length c)" using n by (auto intro: zpad_id)
  then show ?thesis using False fd(2)
    by - (rule exI [of _ "dirty p"], rule exI [of _ "valid p"], simp add: set_file_same max_def)
qed

lemma db_write_quiet:
  fixes p :: "'w sqliteObjsFile" and e :: "'w env"
  assumes "db_inv p e" and "write_ok (off, d)"
  obtains fd dm0 vm0 dm vm where "cacheFd p = Some fd"
    "sqliteObjsWrite p d off e =
      Some (SQLITE_OK, written p (int (length d)) (off + int (length d)) dm vm,
        set_file fd (put (zpad (nat (off + int (length d))) (db_file p e)) (nat off) d) e)"
    "written p (int (length d)) (off + int (length d)) dm vm =
       (if 0 < pageSize p
        then mark_written_loop (pageSize p) (c_div off (pageSize p) * pageSize p) (off + int (length d))
               (written p (int (length d)) (off + int (length d)) dm0 vm0)
        else written p (int (length d)) (off + int (length d)) dm0 vm0)"
    "off + int (length d) \<le> int (length (db_file p e)) \<Longrightarrow> dm0 = dirty p \<and> vm0 = valid p"
    "int (length (db_file p e)) < off + int (length d) \<Longrightarrow>
       \<exists>e' :: 'w env. bitmapEnsureCapacity (dirty p) (off + int (length d)) (pageSize p) e' = (SQLITE_OK, dm0, e')"
proof -
  let ?len = "int (length d)" and ?en = "off + int (length d)"
  obtain fd c where fd: "cacheFd p = Some fd" "fs e fd = Some c" and t: "eFileType p = MAIN_DB"
    and nf: "no_faults e" and lq: "lease_quiet p e" and n: "0 \<le> nData p" "nData p \<le> int (length c)"
    using assms(1) by (auto simp: db_inv_def db_file_def file_of_def)
  have c: "db_file p e = c" using fd by (simp add: db_file_def file_of_def)
  have off: "0 \<le> off" using assms(2) by (simp add: write_ok_def)
  define p1 where "p1 = p\<lparr>nData := max (nData p) ?en\<rparr>"
  have p1: "(if nData p < ?en then p\<lparr>nData := ?en\<rparr> else p) = p1"
    by (cases p) (simp add: p1_def max_def)
  let ?e1 = "set_file fd (zpad (nat ?en) c) e"
  obtain dm0 vm0 where ce: "(if nData p < ?en then cacheEnsureSize p1 ?en e else (SQLITE_OK, p1, e)) =
      (SQLITE_OK, p1\<lparr>dirty := dm0, valid := vm0\<rparr>, ?e1)"
      "?en \<le> int (length c) \<longrightarrow> dm0 = dirty p \<and> vm0 = valid p"
      "int (length c) < ?en \<longrightarrow> bitmapEnsureCapacity (dirty p) ?en (pageSize p) ?e1 = (SQLITE_OK, dm0, ?e1)"
    using write_grow_quiet [OF nf fd n(2), of ?en] off unfolding p1_def by auto
  define e1 where "e1 = ?e1"
  define e2 where "e2 = set_file fd (put (zpad (nat ?en) c) (nat off) d) e"
  define q1 where "q1 = p1\<lparr>dirty := dm0, valid := vm0\<rparr>"
  define p2 where "p2 = written p ?len ?en dm0 vm0"
  have q1: "cacheFd q1 = Some fd" using fd(1) by (simp add: q1_def p1_def)
  have w: "pwrite_fd (Some fd) d off e1 = (?len, e2)"
    using nf off by (simp add: pwrite_fd_def pwrite_ok e1_def e2_def) (simp add: set_file_def)
  have p2: "bump disk_bytes_written_update ?len (bump disk_writes_update 1 q1) = p2"
    by (simp add: written_def p1_def q1_def p2_def)
  have lr: "(if hasLease p2 then leaseRenewIfNeeded p2 e2 else (SQLITE_OK, p2, e2)) = (SQLITE_OK, p2, e2)"
    using lq by (simp add: leaseRenew_quiet p2_def e2_def)
  have ps: "pageSize p2 = pageSize p" by (simp add: p2_def)
  define p3 where "p3 = (if 0 < pageSize p then mark_written_loop (pageSize p) (c_div off (pageSize p) * pageSize p) ?en p2 else p2)"
  obtain dm vm where p3: "p3 = written p ?len ?en dm vm"
  proof (cases "0 < pageSize p")
    case True
    obtain dm vm where "mark_written_loop (pageSize p) (c_div off (pageSize p) * pageSize p) ?en p2 = p2\<lparr>dirty := dm, valid := vm\<rparr>"
      using mark_written_frame by blast
    with True that show thesis by (simp add: p3_def p2_def)
  next
    case False
    with that show thesis by (simp add: p3_def p2_def)
  qed
  have r: "sqliteObjsWrite p d off e = Some (SQLITE_OK, p3, e2)"
    unfolding sqliteObjsWrite_def Let_def t file_type.case p1 ce(1) [folded q1_def e1_def] prod.case q1 w p2 lr
      ps p3_def
    by (simp add: fd(1))
  have mk: "written p ?len ?en dm vm =
      (if 0 < pageSize p then mark_written_loop (pageSize p) (c_div off (pageSize p) * pageSize p) ?en
         (written p ?len ?en dm0 vm0) else written p ?len ?en dm0 vm0)"
    using p3 [symmetric] unfolding p3_def p2_def .
  show thesis
  proof (rule that [OF fd(1) _ mk])
    show "sqliteObjsWrite p d off e = Some (SQLITE_OK, written p ?len ?en dm vm,
        set_file fd (put (zpad (nat ?en) (db_file p e)) (nat off) d) e)"
      using r by (simp add: p3 e2_def c)
  qed (use ce(2,3) c in blast)+
qed


lemma put_zpad_at: "byte_at (put (zpad m c) k d) i = byte_at (put c k d) i"
  by (simp add: byte_at_put)

lemma cache_read_quiet:
  assumes "no_faults e" and "cacheFd p = Some fd" and "0 \<le> off" and "off < nData p"
    and "nData p \<le> int (length (db_file p e))" and "0 < n" and "n < 2147483648"
  obtains k where "cache_read n off p e =
    (if nat off + nat n \<le> nat (nData p) then SQLITE_OK else SQLITE_IOERR_SHORT_READ,
     zero_fill (nat n) (bslice (db_view p e) (nat off) (nat n)),
     bump disk_bytes_read_update k (bump disk_reads_update 1 p), e)"
proof -
  define c where "c = file_of e fd"
  have c: "db_file p e = c" using assms(2) by (simp add: db_file_def c_def)
  define m where "m = (if n \<le> nData p - off then n else nData p - off)"
  have m: "0 < m" "m \<le> n" "off + m \<le> nData p" using assms by (auto simp: m_def)
  have cm: "(if n \<le> nData p - off then n else c_int (nData p - off)) = m" using assms by (simp add: m_def)
  let ?s = "bslice c (nat off) (nat m)"
  have ls: "length ?s = nat m" using m assms(3,5) c by auto
  have pr: "pread_fd (cacheFd p) m off e = (m, ?s, e)"
    using assms(1-3) ls m(1) by (simp add: pread_fd_def pread_ok c_def del: length_bslice)
  have z: "?s @ replicate (nat (n - m)) 0 = zero_fill (nat n) (bslice (db_view p e) (nat off) (nat n))" (is "?l = ?r")
  proof (rule bytes_eqI)
    show "length ?l = length ?r" using ls m by simp
    show "byte_at ?l i = byte_at ?r i" for i
      using ls m assms(3,4)
      by (auto simp: byte_at_append_at byte_at_zero_fill byte_at_bslice db_view_def byte_at_take c m_def
          simp del: length_bslice)
  qed
  show thesis
  proof (cases "n \<le> nData p - off")
    case True
    then have "m = n" by (simp add: m_def)
    with True assms cm pr z m show thesis
      by (intro that [of n]) (simp add: cache_read_def Let_def nat_le_iff nat_add_distrib [symmetric])
  next
    case False
    then have "m < n" by (simp add: m_def)
    with False assms cm pr z m show thesis
      by (intro that [of m]) (simp add: cache_read_def Let_def nat_add_distrib [symmetric])
  qed
qed

lemma db_write_view:
  fixes p :: "'w sqliteObjsFile" and e :: "'w env"
  assumes i: "db_inv p e" and w: "write_ok (off, d)"
  shows "\<exists>p' e'. sqliteObjsWrite p d off e = Some (SQLITE_OK, p', e') \<and> db_inv p' e' \<and> no_faults e' \<and>
    db_view p' e' = put (db_view p e) (nat off) d"
proof -
  let ?en = "off + int (length d)"
  have off: "0 \<le> off" using w by (simp add: write_ok_def)
  have n: "0 \<le> nData p" "nData p \<le> int (length (db_file p e))" "\<forall>i \<ge> nat (nData p). byte_at (db_file p e) i = 0"
    using i by (simp_all add: db_inv_def)
  obtain fd dm vm where fd: "cacheFd p = Some fd" and r: "sqliteObjsWrite p d off e =
      Some (SQLITE_OK, written p (int (length d)) ?en dm vm,
        set_file fd (put (zpad (nat ?en) (db_file p e)) (nat off) d) e)"
    using db_write_quiet [OF i w] by blast
  define p' where "p' = written p (int (length d)) ?en dm vm"
  define e' where "e' = set_file fd (put (zpad (nat ?en) (db_file p e)) (nat off) d) e"
  have f': "db_file p' e' = put (zpad (nat ?en) (db_file p e)) (nat off) d"
    by (simp add: db_file_def p'_def e'_def fd)
  have l: "nat off + length d = nat ?en" using off by simp
  have len: "length (db_file p' e') = max (nat ?en) (length (db_file p e))"
    using l by (simp add: f')
  have at: "byte_at (db_file p' e') k = byte_at (put (db_file p e) (nat off) d) k" for k
    by (simp add: f' put_zpad_at)
  have nd: "nData p' = max (nData p) ?en" by (simp add: p'_def)
  have i': "db_inv p' e'"
    unfolding db_inv_def
  proof (intro conjI)
    show "\<exists>fd c. cacheFd p' = Some fd \<and> fs e' fd = Some c" by (simp add: p'_def e'_def fd)
    show "nData p' \<le> int (length (db_file p' e'))" unfolding len using n by (simp add: p'_def) linarith
    show "\<forall>i \<ge> nat (nData p'). byte_at (db_file p' e') i = 0"
      using n(3) off by (auto simp: at byte_at_put nd)
    show "0 \<le> nData p'" using n(1) by (simp add: nd)
  qed (use i in \<open>simp_all add: db_inv_def p'_def e'_def\<close>)
  have "db_view p' e' = put (db_view p e) (nat off) d"
  proof (rule bytes_eqI)
    show "length (db_view p' e') = length (put (db_view p e) (nat off) d)"
      using len n l by (simp add: db_view_def nd)
    show "byte_at (db_view p' e') k = byte_at (put (db_view p e) (nat off) d) k" for k
      using n off by (auto simp: db_view_def byte_at_take at byte_at_put nd)
  qed
  moreover have "no_faults e'" using i' by (simp add: db_inv_def)
  ultimately show ?thesis using r i' by (auto simp: p'_def e'_def)
qed

lemma db_read_view:
  assumes i: "db_inv p e" and n: "0 \<le> off" "0 < n" "n < 2147483648"
  shows "\<exists>p' e'. sqliteObjsRead p n off e =
      (if nat off + nat n \<le> length (db_view p e) then SQLITE_OK else SQLITE_IOERR_SHORT_READ,
       zero_fill (nat n) (bslice (db_view p e) (nat off) (nat n)), p', e')
      \<and> db_inv p' e' \<and> db_view p' e' = db_view p e"
proof -
  define e1 where "e1 = e\<lparr>g_xread_count := g_xread_count e + 1\<rparr>"
  define p1 where "p1 = (if SQLITE_LOCK_SHARED \<le> eLock p
                  then p\<lparr>readsSinceSharedLock := readsSinceSharedLock p + 1\<rparr> else p)"
  have f1: "cacheFd p1 = cacheFd p" "nData p1 = nData p" "eFileType p1 = eFileType p"
    "prefetchMode p1 = prefetchMode p" "lease_quiet p1 e1 = lease_quiet p e" "fs e1 = fs e" "no_faults e1 = no_faults e"
    by (simp_all add: p1_def e1_def no_faults_def)
  have df: "db_file p1 e1 = db_file p e" by (simp add: db_file_def f1 file_of_def split: option.split)
  have inv1: "db_inv p1 e1" using i by (simp add: db_inv_def f1 df)
  have v1: "db_view p1 e1 = db_view p e" by (simp add: db_view_def df f1)
  obtain fd where fd: "cacheFd p = Some fd" and t: "eFileType p = MAIN_DB" and nd: "0 \<le> nData p"
      "nData p \<le> int (length (db_file p e))"
    using i by (auto simp: db_inv_def)
  have lz: "lazy_fetch n off p1 e1 = (SQLITE_OK, p1, e1)"
    using i by (simp add: lazy_fetch_def f1 db_inv_def)
  have lv: "length (db_view p e) = nat (nData p)" using nd by (simp add: db_view_def)
  have rd: "sqliteObjsRead p n off e =
      (if nData p \<le> off then (SQLITE_IOERR_SHORT_READ, replicate (nat n) 0, p1, e1) else cache_read n off p1 e1)"
    unfolding sqliteObjsRead_def t file_type.case Let_def e1_def [symmetric] p1_def [symmetric]
    by (simp add: f1 fd lz)
  show ?thesis
  proof (cases "nData p \<le> off")
    case True
    then have "bslice (db_view p e) (nat off) (nat n) = []" using nd by (simp add: db_view_def bslice_def)
    moreover have "\<not> nat off + nat n \<le> length (db_view p e)" using True n nd unfolding lv by linarith
    ultimately show ?thesis using True rd inv1 v1 by (simp add: zero_fill_Nil)
  next
    case False
    obtain k where k: "cache_read n off p1 e1 =
        (if nat off + nat n \<le> nat (nData p) then SQLITE_OK else SQLITE_IOERR_SHORT_READ,
         zero_fill (nat n) (bslice (db_view p e) (nat off) (nat n)),
         bump disk_bytes_read_update k (bump disk_reads_update 1 p1), e1)"
      using cache_read_quiet [of e1 p1 fd off n] inv1 False fd n nd by (auto simp: f1 df v1 db_inv_def)
    have "db_inv (bump disk_bytes_read_update k (bump disk_reads_update 1 p1)) e1"
         "db_view (bump disk_bytes_read_update k (bump disk_reads_update 1 p1)) e1 = db_view p e"
      using inv1 v1 by (simp_all add: db_inv_def db_view_def db_file_def)
    with k rd False lv show ?thesis by simp
  qed
qed

interpretation db: quiet_file sqliteObjsWrite sqliteObjsRead db_view db_inv no_faults
proof
  fix p :: "'w sqliteObjsFile" and e :: "'w env" and off :: int and d :: bytes
  assume "db_inv p e" and "write_ok (off, d)"
  then show "\<exists>rc p' e'. sqliteObjsWrite p d off e = Some (rc, p', e') \<and> db_inv p' e' \<and>
      (rc = SQLITE_OK \<and> db_view p' e' = put (db_view p e) (nat off) d \<or>
       rc \<noteq> SQLITE_OK \<and> db_view p' e' = db_view p e)"
    using db_write_view by blast
next
  fix p :: "'w sqliteObjsFile" and e :: "'w env" and off :: int and d :: bytes
  assume "db_inv p e" and "write_ok (off, d)"
  then show "\<exists>p' e'. sqliteObjsWrite p d off e = Some (SQLITE_OK, p', e') \<and> no_faults e'"
    using db_write_view by blast
qed (rule db_read_view)

section \<open>Which pages a write marks\<close>

text \<open>The pages of size \<open>ps\<close> that a write of \<open>len\<close> bytes at \<open>off\<close> touches.\<close>

definition touched :: "int \<Rightarrow> int \<Rightarrow> int \<Rightarrow> int set" where
  "touched ps off len = {j. off div ps \<le> j \<and> j * ps < off + len}"

lemma mark_written_pages:
  assumes "bm_ok (dirty p)" and "0 \<le> k" and "0 < ps" and "pageSize p = ps" and "en \<le> 2147483640 * ps"
  shows "bm_ok (dirty (mark_written_loop ps (k * ps) en p)) \<and>
    capacity (dirty (mark_written_loop ps (k * ps) en p)) = capacity (dirty p) \<and>
    pages (dirty (mark_written_loop ps (k * ps) en p)) =
      pages (dirty p) \<union> {j. k \<le> j \<and> j * ps < en \<and> j < capacity (dirty p)}"
  using assms
proof (induction "nat (en - k * ps)" arbitrary: k p rule: less_induct)
  case less
  note simps = mark_written_loop.simps [of ps "k * ps" en p]
  show ?case
  proof (cases "k * ps < en")
    case False
    have "j * ps < en \<Longrightarrow> k \<le> j \<Longrightarrow> False" for j
      using False mult_right_mono [of k j ps] less.prems(3) by linarith
    then have "{j. k \<le> j \<and> j * ps < en \<and> j < capacity (dirty p)} = {}" by blast
    moreover have "mark_written_loop ps (k * ps) en p = p" using False by (simp only: simps) simp
    ultimately show ?thesis using less.prems(1) by (simp only: Un_empty_right simp_thms)
  next
    case True
    define p1 where "p1 = dirtyMarkPage p (k * ps)"
    define p2 where "p2 = (if bm_data (valid p1) \<noteq> None then validMarkPage p1 (k * ps) else p1)"
    have step: "mark_written_loop ps (k * ps) en p = mark_written_loop ps ((k + 1) * ps) en p2"
      using True less.prems(3) by (simp add: simps Let_def p1_def p2_def algebra_simps)
    have "k * ps < 2147483640 * ps" using True less.prems(5) by linarith
    then have k: "k < 2147483640" using less.prems(3) by simp
    have ck: "c_int (c_div (k * ps) ps) = k" using k less.prems(2,3) by simp
    have d2: "dirty p2 = bitmapSetBit (dirty p) k" "pageSize p2 = ps"
      using less.prems(3,4) ck by (simp_all add: p2_def p1_def dirtyMarkPage_def validMarkPage_def)
    have ok2: "bm_ok (dirty p2)" using less.prems(1,2) by (simp add: d2 bm_ok_setBit)
    have "nat (en - (k + 1) * ps) < nat (en - k * ps)" using True less.prems(3) by (simp add: algebra_simps)
    from less.hyps [OF this ok2 _ less.prems(3) d2(2) less.prems(5)] less.prems(2)
    have ih: "bm_ok (dirty (mark_written_loop ps ((k + 1) * ps) en p2)) \<and>
      capacity (dirty (mark_written_loop ps ((k + 1) * ps) en p2)) = capacity (dirty p2) \<and>
      pages (dirty (mark_written_loop ps ((k + 1) * ps) en p2)) =
        pages (dirty p2) \<union> {j. k + 1 \<le> j \<and> j * ps < en \<and> j < capacity (dirty p2)}"
      by simp
    have sp: "pages (dirty p2) = (if k < capacity (dirty p) then insert k (pages (dirty p)) else pages (dirty p))"
      using less.prems(1,2) by (simp add: d2 pages_setBit bm_ok_shape)
    have "{j. k \<le> j \<and> j * ps < en \<and> j < capacity (dirty p)} =
        {j. k + 1 \<le> j \<and> j * ps < en \<and> j < capacity (dirty p)} \<union> (if k < capacity (dirty p) then {k} else {})"
      using True by (auto simp: le_less)
    with ih sp show ?thesis unfolding step by (auto simp: d2)
  qed
qed

text \<open>The dirty bitmap covers the whole cache file.\<close>

definition db_cover :: "'w sqliteObjsFile \<Rightarrow> 'w env \<Rightarrow> bool" where
  "db_cover p e \<longleftrightarrow>
     bm_ok (dirty p) \<and> 0 < pageSize p \<and> int (length (db_file p e)) \<le> capacity (dirty p) * pageSize p"

lemma ensureCapacity_covers:
  assumes "bm_ok bm" and "bitmapEnsureCapacity bm n ps e = (SQLITE_OK, bm', e')" and "0 < ps" and "0 < n" and "n < 2147483640 * ps"
  shows "bm_ok bm' \<and> pages bm' = pages bm \<and> n \<le> capacity bm' * ps"
proof -
  have "(n + ps - 1) div ps \<le> 8 * bitmapSize n ps" using bitmapSize_bounds(2) [OF assms(3,5)] assms(4) by simp
  also have "\<dots> \<le> capacity bm'" using ensureCapacity(5) [OF assms(1,2)] by simp
  finally have c: "(n + ps - 1) div ps \<le> capacity bm'" .
  have "n \<le> (n + ps - 1) div ps * ps"
    using minus_mod_eq_div_mult [of "n + ps - 1" ps] pos_mod_bound [OF assms(3), of "n + ps - 1"] by linarith
  also have "\<dots> \<le> capacity bm' * ps" using c assms(3) by (intro mult_right_mono) simp_all
  finally show ?thesis using ensureCapacity(1,2) [OF assms(1,2)] by simp
qed

lemma db_write_marks:
  assumes "db_inv p e" and "db_cover p e" and "write_ok (off, d)"
    and "off + int (length d) < 2147483640 * pageSize p"
  obtains p' e' where "sqliteObjsWrite p d off e = Some (SQLITE_OK, p', e')" "db_inv p' e'" "db_cover p' e'"
    "pages (dirty p') = pages (dirty p) \<union> touched (pageSize p) off (int (length d))"
    "pageSize p' = pageSize p" "db_view p' e' = put (db_view p e) (nat off) d"
    "cacheFd p' = cacheFd p" "remote e' = remote e"
proof -
  let ?en = "off + int (length d)" and ?ps = "pageSize p"
  have ps: "0 < ?ps" and ok: "bm_ok (dirty p)" and cov: "int (length (db_file p e)) \<le> capacity (dirty p) * ?ps"
    using assms(2) by (auto simp: db_cover_def)
  have off: "0 \<le> off" using assms(3) by (simp add: write_ok_def)
  obtain fd dm0 vm0 dm vm where w: "cacheFd p = Some fd"
    "sqliteObjsWrite p d off e = Some (SQLITE_OK, written p (int (length d)) ?en dm vm,
        set_file fd (put (zpad (nat ?en) (db_file p e)) (nat off) d) e)"
    "written p (int (length d)) ?en dm vm =
       (if 0 < ?ps then mark_written_loop ?ps (c_div off ?ps * ?ps) ?en (written p (int (length d)) ?en dm0 vm0)
        else written p (int (length d)) ?en dm0 vm0)"
    "?en \<le> int (length (db_file p e)) \<Longrightarrow> dm0 = dirty p \<and> vm0 = valid p"
    "int (length (db_file p e)) < ?en \<Longrightarrow>
       \<exists>e' :: 'a env. bitmapEnsureCapacity (dirty p) ?en ?ps e' = (SQLITE_OK, dm0, e')"
    by (rule db_write_quiet [OF assms(1,3)]) blast
  define p' where "p' = written p (int (length d)) ?en dm vm"
  define e' where "e' = set_file fd (put (zpad (nat ?en) (db_file p e)) (nat off) d) e"
  obtain rc p2 e2 where "sqliteObjsWrite p d off e = Some (rc, p2, e2)" "db_inv p2 e2"
      "rc = SQLITE_OK \<and> db_view p2 e2 = put (db_view p e) (nat off) d \<or> rc \<noteq> SQLITE_OK \<and> db_view p2 e2 = db_view p e"
    using db.wr_cases [OF assms(1,3)] by blast
  with w(2) have inv': "db_inv p' e'" "db_view p' e' = put (db_view p e) (nat off) d"
    by (auto simp: p'_def e'_def)
  have cap: "bm_ok dm0 \<and> pages dm0 = pages (dirty p) \<and> max ?en (int (length (db_file p e))) \<le> capacity dm0 * ?ps"
  proof (cases "?en \<le> int (length (db_file p e))")
    case False
    then obtain e3 :: "'a env" where "bitmapEnsureCapacity (dirty p) ?en ?ps e3 = (SQLITE_OK, dm0, e3)" using w(5) by auto
    from ensureCapacity_covers [OF ok this ps _ assms(4)] False show ?thesis by simp
  qed (use w(4) ok cov in simp)
  have dm: "dm = dirty (mark_written_loop ?ps (off div ?ps * ?ps) ?en (written p (int (length d)) ?en dm0 vm0))"
    using arg_cong [OF w(3), of dirty] ps off by simp
  have m: "bm_ok dm \<and> capacity dm = capacity dm0 \<and>
      pages dm = pages dm0 \<union> {j. off div ?ps \<le> j \<and> j * ?ps < ?en \<and> j < capacity dm0}"
    using mark_written_pages [of "written p (int (length d)) ?en dm0 vm0" "off div ?ps" ?ps ?en] cap ps off
      assms(4) unfolding dm by (simp add: pos_imp_zdiv_nonneg_iff)
  have "j < capacity dm0" if "j * ?ps < ?en" for j
  proof -
    have "j * ?ps < capacity dm0 * ?ps" using that cap by linarith
    then show ?thesis using ps by simp
  qed
  then have pg: "pages (dirty p') = pages (dirty p) \<union> touched ?ps off (int (length d))"
    using m cap by (auto simp: p'_def touched_def)
  have "length (db_file p' e') = max (nat ?en) (length (db_file p e))"
    using off by (simp add: db_file_def p'_def e'_def w(1))
  then have cov': "db_cover p' e'" using m cap ps by (simp add: db_cover_def p'_def) linarith
  show thesis
    by (rule that [of p' e'])
       (use w(1,2) inv' cov' pg in \<open>simp_all add: p'_def [symmetric] e'_def [symmetric]\<close>, simp_all add: p'_def e'_def set_file_def)
qed


section \<open>Properties\<close>

text \<open>Concrete files for the witnesses: an open database with an empty cache file, and a journal and a WAL
  that were just opened.\<close>

definition sample_db :: "unit sqliteObjsFile" where
  "sample_db = file_zero\<lparr>pMethod := True, cacheFd := Some ''c'', zCachePath := Some ''c'', pageSize := 512\<rparr>"

definition sample_env :: "unit env" where
  "sample_env = set_file ''c'' [] (env_start ())"

definition sample_journal :: "unit sqliteObjsFile" where
  "sample_journal = file_zero\<lparr>pMethod := True, eFileType := MAIN_JOURNAL\<rparr>"

definition sample_wal :: "unit sqliteObjsFile" where
  "sample_wal = file_zero\<lparr>pMethod := True, eFileType := WAL\<rparr>"

lemma sample_db_inv: "db_inv sample_db sample_env"
  by (simp add: db_inv_def sample_db_def sample_env_def file_zero_def env_start_def no_faults_def
      lease_quiet_def hasLease_def db_file_def)

lemma sample_journal_inv: "jrnl_inv sample_journal sample_env" "no_faults sample_env"
  by (simp_all add: jrnl_inv_def sample_journal_def file_zero_def heap_file_def buf_wf_def buf_bytes_def
      sample_env_def env_start_def no_faults_def)

lemma sample_wal_inv: "wal_inv sample_wal sample_env"
  by (simp add: wal_inv_def sample_wal_def file_zero_def heap_file_def buf_wf_def buf_bytes_def)



text \<open>C15 A journal file refines a byte array in the same sense, for writes at any offsets and in any
  order.\<close>

theorem journal_refines_byte_array:
  assumes "jrnl_inv p e" and "no_faults e" and "list_all write_ok ws" and "0 \<le> off" and "0 < n" and "n < 2147483648"
  shows "\<exists>p1 e1 p2 e2. write_all sqliteObjsWrite ws p e = Some (p1, e1) \<and>
    sqliteObjsRead p1 n off e1 =
      (if nat off + nat n \<le> length (puts ws (jrnl_view p e)) then SQLITE_OK else SQLITE_IOERR_SHORT_READ,
       zero_fill (nat n) (bslice (puts ws (jrnl_view p e)) (nat off) (nat n)), p2, e2)"
  by (rule jrnl.refines_byte_array [OF assms])

theorem journal_refines_byte_array_witness:
  "\<exists>p1 e1 p2 e2. write_all sqliteObjsWrite [(0, [1, 2, 3]), (5, [9])] sample_journal sample_env = Some (p1, e1) \<and>
    sqliteObjsRead p1 6 0 e1 = (SQLITE_OK, [1, 2, 3, 0, 0, 9], p2, e2)"
proof -
  have v: "jrnl_view sample_journal sample_env = []"
    by (simp add: jrnl_view_def sample_journal_def file_zero_def heap_view_def buf_bytes_def)
  show ?thesis
    using journal_refines_byte_array [OF sample_journal_inv, of "[(0, [1, 2, 3]), (5, [9])]" 0 6]
    by (simp add: write_ok_def v puts_def put_def zpad_def bslice_def zero_fill_def numeral_eq_Suc)
qed



lemma cache_read_length:
  assumes "cache_read n off p e = (rc, buf, p', e')" and "0 \<le> n" and "n < 2147483648" and "off < nData p'"
    and "nData p' = nData p"
  shows "length buf = nat n \<and> (rc \<noteq> SQLITE_OK \<and> rc \<noteq> SQLITE_IOERR_SHORT_READ \<longrightarrow> buf = replicate (nat n) 0)"
proof -
  define m where "m = (if n \<le> nData p - off then n else nData p - off)"
  have cm: "(if n \<le> nData p - off then n else c_int (nData p - off)) = m" using assms by (simp add: m_def)
  have m: "0 \<le> m" "m \<le> n" using assms by (auto simp: m_def)
  obtain r d e1 where r: "pread_fd (cacheFd p) m off e = (r, d, e1)" by (cases "pread_fd (cacheFd p) m off e") auto
  have l: "r = -1 \<and> d = [] \<or> r = int (length d) \<and> length d \<le> nat m"
    using r pread_length [of _ m off e r d e1] by (auto simp: pread_fd_def split: option.splits)
  show ?thesis
    using assms(1) l m r by (auto simp: cache_read_def cm Let_def split: if_splits)
qed

lemma fetch_range_nData: "fetch_range rd p a b e = (rc, p', e') \<Longrightarrow> nData p' = nData p"
  by (auto simp: fetch_range_def validMarkRange_def Let_def split: prod.splits if_splits)

lemma fetchPages_nData: "fetchPagesFromAzure p i e = (rc, p', e') \<Longrightarrow> nData p' = nData p"
  by (auto simp: fetchPagesFromAzure_def Let_def split: option.splits if_splits dest: fetch_range_nData)

lemma lazy_loop_nData: "lazy_fetch_loop pg en h p e = (rc, h', p', e') \<Longrightarrow> nData p' = nData p"
proof (induction pg en h p e arbitrary: rc h' p' e' rule: lazy_fetch_loop.induct)
  case (1 pg en h p e)
  show ?case
  proof (cases "pg < en \<and> \<not> bitmapTestBit (valid p) pg")
    case False
    then show ?thesis using "1.IH"(1) "1.prems" by (auto simp: lazy_fetch_loop.simps [of pg en h p e] split: if_splits)
  next
    case True
    define q where "q = bump cache_miss_pages_update 1 (if h then p else bump cache_misses_update 1 p)"
    have nq: "nData q = nData p" by (simp add: q_def)
    obtain rc1 p1 e1 where f: "fetchPagesFromAzure q pg e = (rc1, p1, e1)" by (cases "fetchPagesFromAzure q pg e")
    show ?thesis
    proof (cases "rc1 = SQLITE_OK")
      case ok: True
      have "lazy_fetch_loop (pg + 1) en True p1 e1 = (rc, h', p', e')"
        using "1.prems" True ok f by (simp add: lazy_fetch_loop.simps [of pg en h p e] q_def Let_def)
      then have "nData p' = nData p1"
        using "1.IH"(2) [OF _ _ refl _ f [symmetric] refl] True ok by (auto simp: q_def)
      with fetchPages_nData [OF f] nq show ?thesis by simp
    next
      case False
      then have "p' = p1" using "1.prems" True f by (simp add: lazy_fetch_loop.simps [of pg en h p e] q_def Let_def)
      with fetchPages_nData [OF f] nq show ?thesis by simp
    qed
  qed
qed

lemma lazy_fetch_nData: "lazy_fetch n off p e = (rc, p', e') \<Longrightarrow> nData p' = nData p"
  by (auto simp: lazy_fetch_def Let_def split: if_splits prod.splits dest: lazy_loop_nData)

lemma cache_read_nData: "cache_read n off p e = (rc, buf, p', e') \<Longrightarrow> nData p' = nData p"
  by (auto simp: cache_read_def Let_def split: if_splits prod.splits)

text \<open>C20 Under every pattern of local and remote failures, for every kind of file and in both cache modes,
  \<^verbatim>\<open>xRead\<close> defines the whole buffer: it returns exactly the number of bytes asked for, and all of them are zero
  when the result is neither \<^verbatim>\<open>SQLITE_OK\<close> nor \<^verbatim>\<open>SQLITE_IOERR_SHORT_READ\<close>.\<close>

theorem read_fills_buffer:
  assumes "sqliteObjsRead p n off e = (rc, buf, p', e')" and "0 < n" and "n < 2147483648" and "0 \<le> off"
    and "eFileType p = MAIN_JOURNAL \<longrightarrow> heap_file (aJrnlData p) (nJrnlData p) (nJrnlAlloc p)"
    and "eFileType p = WAL \<longrightarrow> heap_file (aWalData p) (nWalData p) (nWalAlloc p)"
  shows "length buf = nat n \<and>
    (rc \<noteq> SQLITE_OK \<and> rc \<noteq> SQLITE_IOERR_SHORT_READ \<longrightarrow> buf = replicate (nat n) 0)"
proof (cases "eFileType p")
  case MAIN_JOURNAL
  then show ?thesis using assms(1,5) bufferRead_spec [OF _ assms(4,2)] by (auto simp: sqliteObjsRead_def Let_def split: if_splits)
next
  case WAL
  then show ?thesis using assms(1,6) bufferRead_spec [OF _ assms(4,2)] by (auto simp: sqliteObjsRead_def Let_def split: if_splits)
next
  case MAIN_DB
  define e1 where "e1 = e\<lparr>g_xread_count := g_xread_count e + 1\<rparr>"
  define p1 where "p1 = (if SQLITE_LOCK_SHARED \<le> eLock p
                    then p\<lparr>readsSinceSharedLock := readsSinceSharedLock p + 1\<rparr> else p)"
  have p1: "nData p1 = nData p" by (simp add: p1_def)
  obtain rc2 p2 e2 where l: "lazy_fetch n off p1 e1 = (rc2, p2, e2)" by (cases "lazy_fetch n off p1 e1")
  have n2: "nData p2 = nData p" using lazy_fetch_nData [OF l] p1 by simp
  have r: "(if cacheFd p1 = None \<or> nData p \<le> off then (SQLITE_IOERR_SHORT_READ, replicate (nat n) 0, p1, e1)
      else if rc2 \<noteq> SQLITE_OK then (rc2, replicate (nat n) 0, p2, e2) else cache_read n off p2 e2) = (rc, buf, p', e')"
    using assms(1) unfolding sqliteObjsRead_def MAIN_DB file_type.case Let_def e1_def [symmetric] p1_def [symmetric]
    by (auto simp: l p1 split: if_splits)
  show ?thesis
  proof (cases "cacheFd p1 = None \<or> nData p \<le> off \<or> rc2 \<noteq> SQLITE_OK")
    case True
    with r show ?thesis by (auto split: if_splits)
  next
    case False
    then have c: "cache_read n off p2 e2 = (rc, buf, p', e')" using r by (auto split: if_splits)
    have "nData p' = nData p2" by (rule cache_read_nData [OF c])
    then show ?thesis using cache_read_length [OF c] False assms(2,3) n2 by simp
  qed
qed

theorem read_fills_buffer_witness:
  "length (fst (snd (sqliteObjsRead sample_journal 16 3 sample_env))) = nat 16"
proof (cases "sqliteObjsRead sample_journal 16 3 sample_env")
  case (fields rc buf p' e')
  from read_fills_buffer [OF fields] sample_journal_inv(1) fields show ?thesis
    by (simp add: jrnl_inv_def)
qed

end
