(* ===== verification/Sidecar.thy ===== *)
theory Sidecar
  imports Posix
begin

text \<open>
  The sidecar files of a persistent cache (\<^verbatim>\<open>.etag\<close>, \<^verbatim>\<open>.snapshot\<close>, \<^verbatim>\<open>.state\<close> beside \<^verbatim>\<open>.cache\<close>), from
  \<^verbatim>\<open>sqlite_objs_vfs.c\<close>: path construction, the two text files, the little-endian and CRC helpers and
  the \<^verbatim>\<open>.state\<close> format with its write-then-rename protocol.

  A C string that may be \<^verbatim>\<open>NULL\<close> is a \<open>string option\<close>. The result \<^verbatim>\<open>-1\<close>/\<^verbatim>\<open>0\<close> of the C functions is an integer,
  or \<^term>\<open>None\<close>/\<^term>\<open>Some\<close> for \<^verbatim>\<open>readStateFile\<close>, whose outputs are only written on success.
\<close>

section \<open>Strings in files\<close>

definition bytes_of_string :: "string \<Rightarrow> bytes" where
  "bytes_of_string = map (\<lambda>c. word_of_nat (of_char c))"

definition string_of_bytes :: "bytes \<Rightarrow> string" where
  "string_of_bytes = map (\<lambda>b. char_of (unat b))"

text \<open>The C string at the start of a buffer: the characters up to the first NUL.\<close>

definition c_str :: "string \<Rightarrow> string" where
  "c_str = takeWhile (\<lambda>c. c \<noteq> CHR 0x00)"

section \<open>Paths\<close>

definition ends_with :: "string \<Rightarrow> string \<Rightarrow> bool" where
  "ends_with s suf \<longleftrightarrow> length suf \<le> length s \<and> drop (length s - length suf) s = suf"

definition buildSidecarPath :: "string option \<Rightarrow> string \<Rightarrow> 'a posix_scheme \<Rightarrow> string option \<times> 'a posix_scheme" where
  "buildSidecarPath cachePath ext e =
     (case cachePath of
        None \<Rightarrow> (None, e)
      | Some cp \<Rightarrow>
          let len = length cp; extLen = length ext; suffixLen = 6 in
          if suffixLen \<le> len \<and> drop (len - suffixLen) cp = ''.cache''
          then let baseLen = len - suffixLen in
               (case sys_malloc (int (baseLen + extLen + 1)) e of
                  (None, e) \<Rightarrow> (None, e)
                | (Some _, e) \<Rightarrow> (Some (take baseLen cp @ ext), e))
          else (case sys_malloc (int (len + extLen + 1)) e of
                  (None, e) \<Rightarrow> (None, e)
                | (Some _, e) \<Rightarrow> (Some (cp @ ext), e)))"

text \<open>The path alone, when the allocation succeeds.\<close>

definition sidecar_path :: "string \<Rightarrow> string \<Rightarrow> string" where
  "sidecar_path cp ext = (if ends_with cp ''.cache'' then take (length cp - 6) cp else cp) @ ext"

definition buildEtagPath :: "string option \<Rightarrow> 'a posix_scheme \<Rightarrow> string option \<times> 'a posix_scheme" where
  "buildEtagPath cachePath e = buildSidecarPath cachePath ''.etag'' e"

definition buildSnapshotPath :: "string option \<Rightarrow> 'a posix_scheme \<Rightarrow> string option \<times> 'a posix_scheme" where
  "buildSnapshotPath cachePath e = buildSidecarPath cachePath ''.snapshot'' e"

definition buildStatePath :: "string option \<Rightarrow> 'a posix_scheme \<Rightarrow> string option \<times> 'a posix_scheme" where
  "buildStatePath cachePath e = buildSidecarPath cachePath ''.state'' e"

definition unlinkSidecarFile :: "string option \<Rightarrow> string \<Rightarrow> 'a posix_scheme \<Rightarrow> 'a posix_scheme" where
  "unlinkSidecarFile cachePath ext e =
     (case cachePath of
        None \<Rightarrow> e
      | Some _ \<Rightarrow> (case buildSidecarPath cachePath ext e of
                    (None, e) \<Rightarrow> e
                  | (Some path, e) \<Rightarrow> sys_unlink path e))"

definition unlinkEtagFile :: "string option \<Rightarrow> 'a posix_scheme \<Rightarrow> 'a posix_scheme" where
  "unlinkEtagFile cachePath e = unlinkSidecarFile cachePath ''.etag'' e"

definition unlinkSnapshotFile :: "string option \<Rightarrow> 'a posix_scheme \<Rightarrow> 'a posix_scheme" where
  "unlinkSnapshotFile cachePath e = unlinkSidecarFile cachePath ''.snapshot'' e"

definition unlinkStateFile :: "string option \<Rightarrow> 'a posix_scheme \<Rightarrow> 'a posix_scheme" where
  "unlinkStateFile cachePath e = unlinkSidecarFile cachePath ''.state'' e"

section \<open>The text files\<close>

text \<open>The loop that drops trailing newlines, carriage returns and spaces.\<close>

definition is_trailing_space :: "char \<Rightarrow> bool" where
  "is_trailing_space c \<longleftrightarrow> c = CHR 0x0A \<or> c = CHR 0x0D \<or> c = CHR '' ''"

definition rtrim :: "string \<Rightarrow> string" where
  "rtrim s = rev (dropWhile is_trailing_space (rev s))"

text \<open>The tail common to \<^verbatim>\<open>readEtagFile\<close> and \<^verbatim>\<open>readSnapshotFile\<close>: open, read once, trim. On success
  the buffer is the returned string, on failure it is left as it was.\<close>

definition readEtagFile ::
  "string option \<Rightarrow> nat \<Rightarrow> 'a posix_scheme \<Rightarrow> (int \<times> string) \<times> 'a posix_scheme" where
  "readEtagFile path bufSize e =
     (case path of
        None \<Rightarrow> ((-1, []), e)
      | Some path \<Rightarrow>
          if bufSize = 0 then ((-1, []), e)
          else case sys_open path e of
                 (None, e) \<Rightarrow> ((-1, []), e)
               | (Some fd, e) \<Rightarrow>
                   (case sys_pread fd (int bufSize - 1) 0 e of (n, d, e) \<Rightarrow>
                      if n \<le> 0 then ((-1, []), e)
                      else ((0, c_str (rtrim (string_of_bytes d))), e)))"

definition writeEtagFile :: "string option \<Rightarrow> string \<Rightarrow> 'a posix_scheme \<Rightarrow> int \<times> 'a posix_scheme" where
  "writeEtagFile cachePath etag e =
     (if cachePath = None \<or> etag = [] then (-1, e)
      else case buildEtagPath cachePath e of
             (None, e) \<Rightarrow> (-1, e)
           | (Some etagPath, e) \<Rightarrow>
               (case sys_open_trunc etagPath e of
                  (None, e) \<Rightarrow> (-1, e)
                | (Some fd, e) \<Rightarrow>
                    (case sys_pwrite fd (bytes_of_string etag) 0 e of (nw, e) \<Rightarrow>
                     case sys_fsync fd e of (_, e) \<Rightarrow>
                       (if nw = int (length etag) then 0 else -1, e))))"

definition readSnapshotFile ::
  "string option \<Rightarrow> nat \<Rightarrow> 'a posix_scheme \<Rightarrow> (int \<times> string) \<times> 'a posix_scheme" where
  "readSnapshotFile cachePath bufSize e =
     (if cachePath = None \<or> bufSize = 0 then ((-1, []), e)
      else case buildSnapshotPath cachePath e of
             (None, e) \<Rightarrow> ((-1, []), e)
           | (Some snapPath, e) \<Rightarrow>
               (case sys_open snapPath e of
                  (None, e) \<Rightarrow> ((-1, []), e)
                | (Some fd, e) \<Rightarrow>
                    (case sys_pread fd (int bufSize - 1) 0 e of (n, d, e) \<Rightarrow>
                       if n \<le> 0 then ((-1, []), e)
                       else ((0, c_str (rtrim (string_of_bytes d))), e))))"

definition writeSnapshotFile :: "string option \<Rightarrow> string \<Rightarrow> 'a posix_scheme \<Rightarrow> int \<times> 'a posix_scheme" where
  "writeSnapshotFile cachePath snapshot e =
     (if cachePath = None \<or> snapshot = [] then (-1, e)
      else case buildSnapshotPath cachePath e of
             (None, e) \<Rightarrow> (-1, e)
           | (Some snapPath, e) \<Rightarrow>
               (case sys_open_trunc snapPath e of
                  (None, e) \<Rightarrow> (-1, e)
                | (Some fd, e) \<Rightarrow>
                    (case sys_pwrite fd (bytes_of_string snapshot) 0 e of (nw, e) \<Rightarrow>
                     case sys_fsync fd e of (_, e) \<Rightarrow>
                       (if nw = int (length snapshot) then 0 else -1, e))))"

section \<open>Checksum and little-endian integers\<close>

definition crc_table :: "32 word list" where
  "crc_table =
     [0x00000000, 0x77073096, 0xEE0E612C, 0x990951BA, 0x076DC419, 0x706AF48F, 0xE963A535, 0x9E6495A3,
      0x0EDB8832, 0x79DCB8A4, 0xE0D5E91B, 0x97D2D988, 0x09B64C2B, 0x7EB17CBB, 0xE7B82D09, 0x90BF1D91,
      0x1DB71064, 0x6AB020F2, 0xF3B97148, 0x84BE41DE, 0x1ADAD47D, 0x6DDDE4EB, 0xF4D4B551, 0x83D385C7,
      0x136C9856, 0x646BA8C0, 0xFD62F97A, 0x8A65C9EC, 0x14015C4F, 0x63066CD9, 0xFA0F3D63, 0x8D080DF5,
      0x3B6E20C8, 0x4C69105E, 0xD56041E4, 0xA2677172, 0x3C03E4D1, 0x4B04D447, 0xD20D85FD, 0xA50AB56B,
      0x35B5A8FA, 0x42B2986C, 0xDBBDB8D6, 0xACBCBEC8, 0x32D86CE3, 0x45DF5C75, 0xDCD60DCF, 0xABD13D59,
      0x26D930AC, 0x51DE003A, 0xC8D75180, 0xBFD06116, 0x21B4F4B5, 0x56B3C423, 0xCFBA9599, 0xB8BDA50F,
      0x2802B89E, 0x5F058808, 0xC60CD9B2, 0xB10BE924, 0x2F6F7C87, 0x58684C11, 0xC1611DAB, 0xB6662D3D,
      0x76DC4190, 0x01DB7106, 0x98D220BC, 0xEFD5102A, 0x71B18589, 0x06B6B51F, 0x9FBFE4A5, 0xE8B8D433,
      0x7807C9A2, 0x0F00F934, 0x9609A88E, 0xE10E9818, 0x7F6A0D69, 0x086D3D2B, 0x91646C97, 0xE6635C01,
      0x6B6B51F4, 0x1C6C6162, 0x856530D8, 0xF262004E, 0x6C0695ED, 0x1B01A57B, 0x8208F4C1, 0xF50FC457,
      0x65B0D9C6, 0x12B7E950, 0x8BBEB8EA, 0xFCB9887C, 0x62DD1DDF, 0x15DA2D49, 0x8CD37CF3, 0xFBD44C65,
      0x4DB26158, 0x3AB551CE, 0xA3BC0074, 0xD4BB30E2, 0x4ADFA541, 0x3DD895D7, 0xA4D1C46D, 0xD3D6F4DB,
      0x4369E96A, 0x346ED9FC, 0xAD678846, 0xDA60B8D0, 0x44042D73, 0x33031DE5, 0xAA0A4C5F, 0xDD0D7822,
      0x3B6E20C8, 0x4C69105E, 0xD56041E4, 0xA2677172, 0x3C03E4D1, 0x4B04D447, 0xD20D85FD, 0xA50AB56B,
      0x35B5A8FA, 0x42B2986C, 0xDBBDB8D6, 0xACBCBEC8, 0x32D86CE3, 0x45DF5C75, 0xDCD60DCF, 0xABD13D59,
      0x26D930AC, 0x51DE003A, 0xC8D75180, 0xBFD06116, 0x21B4F4B5, 0x56B3C423, 0xCFBA9599, 0xB8BDA50F,
      0x2802B89E, 0x5F058808, 0xC60CD9B2, 0xB10BE924, 0x2F6F7C87, 0x58684C11, 0xC1611DAB, 0xB6662D3D,
      0x76DC4190, 0x01DB7106, 0x98D220BC, 0xEFD5102A, 0x71B18589, 0x06B6B51F, 0x9FBFE4A5, 0xE8B8D433,
      0x7807C9A2, 0x0F00F934, 0x9609A88E, 0xE10E9818, 0x7F6A0D69, 0x086D3D2B, 0x91646C97, 0xE6635C01,
      0x6B6B51F4, 0x1C6C6162, 0x856530D8, 0xF262004E, 0x6C0695ED, 0x1B01A57B, 0x8208F4C1, 0xF50FC457,
      0x65B0D9C6, 0x12B7E950, 0x8BBEB8EA, 0xFCB9887C, 0x62DD1DDF, 0x15DA2D49, 0x8CD37CF3, 0xFBD44C65,
      0x4DB26158, 0x3AB551CE, 0xA3BC0074, 0xD4BB30E2, 0x4ADFA541, 0x3DD895D7, 0xA4D1C46D, 0xD3D6F4DB,
      0x4369E96A, 0x346ED9FC, 0xAD678846, 0xDA60B8D0, 0x44042D73, 0x33031DE5, 0xAA0A4C5F, 0xDD0D7822,
      0x9B64C2B0, 0xEC63F226, 0x756AA39C, 0x026D930A, 0x9C0906A9, 0xEB0E363F, 0x72076785, 0x05005713,
      0x95BF4A82, 0xE2B87A14, 0x7BB12BAE, 0x0CB61B38, 0x92D28E9B, 0xE5D5BE0D, 0x7CDCEFB7, 0x0BDBDF21,
      0x86D3D2D4, 0xF1D4E242, 0x68DDB3F6, 0x1FDA836E, 0x81BE16CD, 0xF6B9265B, 0x6FB077E1, 0x18B74777,
      0x88085AE6, 0xFF0F6B70, 0x66063BCA, 0x11010B5C, 0x8F659EFF, 0xF862AE69, 0x616BFFD3, 0x166CCF45,
      0xA00AE278, 0xD70DD2EE, 0x4E048354, 0x3903B3C2, 0xA7672661, 0xD06016F7, 0x4969474D, 0x3E6E77DB,
      0xAED16A4A, 0xD9D65ADC, 0x40DF0B66, 0x37D83BF0, 0xA9BCAE53, 0xDEBB9EC5, 0x47B2CF7F, 0x30B5FFE9,
      0xBDBDF21C, 0xCABAC28A, 0x53B39330, 0x24B4A3A6, 0xBAD03605, 0xCDD706FF, 0x54DE5729, 0x23D967BF,
      0xB3667A2E, 0xC4614AB8, 0x5D681B02, 0x2A6F2B94, 0xB40BBE37, 0xC30C8EA1, 0x5A05DF1B, 0x2D02EF8D]"

definition crc_step :: "32 word \<Rightarrow> byte \<Rightarrow> 32 word" where
  "crc_step crc b = crc_table ! unat ((crc XOR ucast b) AND 0xFF) XOR drop_bit 8 crc"

definition stateCrc32 :: "bytes \<Rightarrow> 32 word" where
  "stateCrc32 data = foldl crc_step 0xFFFFFFFF data XOR 0xFFFFFFFF"

definition writeLE32 :: "32 word \<Rightarrow> bytes" where
  "writeLE32 v = [ucast v, ucast (drop_bit 8 v), ucast (drop_bit 16 v), ucast (drop_bit 24 v)]"

definition readLE32 :: "bytes \<Rightarrow> 32 word" where
  "readLE32 p = ucast (p ! 0) OR push_bit 8 (ucast (p ! 1)) OR push_bit 16 (ucast (p ! 2))
     OR push_bit 24 (ucast (p ! 3))"

definition writeLE64 :: "64 word \<Rightarrow> bytes" where
  "writeLE64 v = map (\<lambda>i. ucast (drop_bit (i * 8) v)) [0..<8]"

definition readLE64 :: "bytes \<Rightarrow> 64 word" where
  "readLE64 p = foldl (\<lambda>v i. v OR push_bit (i * 8) (ucast (p ! i))) 0 [0..<8]"

section \<open>The state file\<close>

definition STATE_MAGIC :: bytes where "STATE_MAGIC = bytes_of_string ''SQOS''"
definition STATE_VERSION :: "32 word" where "STATE_VERSION = 1"

text \<open>The buffer \<^verbatim>\<open>writeStateFile\<close> fills: header (24 bytes), bitmap, checksum.\<close>

definition state_header :: "int \<Rightarrow> int \<Rightarrow> int \<Rightarrow> bytes" where
  "state_header pageSize fileSize nValidBytes =
     STATE_MAGIC @ writeLE32 STATE_VERSION @ writeLE32 (word_of_int pageSize)
       @ writeLE64 (word_of_int fileSize) @ writeLE32 (word_of_int nValidBytes)"

definition state_bytes :: "int \<Rightarrow> int \<Rightarrow> bytes \<Rightarrow> int \<Rightarrow> bytes" where
  "state_bytes pageSize fileSize aValid nValidBytes =
     (let body = state_header pageSize fileSize nValidBytes @ take (nat nValidBytes) aValid
      in body @ writeLE32 (stateCrc32 body))"

definition writeStateFile ::
  "string option \<Rightarrow> int \<Rightarrow> int \<Rightarrow> bytes option \<Rightarrow> int \<Rightarrow> 'a posix_scheme \<Rightarrow> int \<times> 'a posix_scheme" where
  "writeStateFile cachePath pageSize fileSize aValid nValidBytes e =
     (case (cachePath, aValid) of
        (Some cp, Some aValid) \<Rightarrow>
          if nValidBytes \<le> 0 then (-1, e)
          else case buildStatePath (Some cp) e of
             (None, e) \<Rightarrow> (-1, e)
           | (Some statePath, e) \<Rightarrow>
          (case sys_malloc (int (length statePath) + 5) e of
             (None, e) \<Rightarrow> (-1, e)
           | (Some _, e) \<Rightarrow>
          let tmpPath = statePath @ ''.tmp''; totalSize = 24 + nValidBytes + 4 in
          (case sys_malloc totalSize e of
             (None, e) \<Rightarrow> (-1, e)
           | (Some _, e) \<Rightarrow>
          let buf = state_bytes pageSize fileSize aValid nValidBytes in
          (case sys_open_trunc tmpPath e of
             (None, e) \<Rightarrow> (-1, e)
           | (Some fd, e) \<Rightarrow>
          (case sys_pwrite fd buf 0 e of (nw, e) \<Rightarrow>
           if nw \<noteq> totalSize then (-1, sys_unlink tmpPath e)
           else case sys_fsync fd e of (r, e) \<Rightarrow>
           if r \<noteq> 0 then (-1, sys_unlink tmpPath e)
           else case sys_rename tmpPath statePath e of (r, e) \<Rightarrow>
           if r \<noteq> 0 then (-1, sys_unlink tmpPath e)
           else (0, e)))))
      | _ \<Rightarrow> (-1, e))"

definition readStateFile ::
  "string option \<Rightarrow> 'a posix_scheme \<Rightarrow> (bytes \<times> int \<times> int \<times> int) option \<times> 'a posix_scheme" where
  "readStateFile cachePath e =
     (case cachePath of
        None \<Rightarrow> (None, e)
      | Some cp \<Rightarrow>
          (case buildStatePath (Some cp) e of
             (None, e) \<Rightarrow> (None, e)
           | (Some statePath, e) \<Rightarrow>
          (case sys_open statePath e of
             (None, e) \<Rightarrow> (None, e)
           | (Some fd, e) \<Rightarrow>
          (case sys_pread fd 24 0 e of (nr, header, e) \<Rightarrow>
           if nr \<noteq> 24 then (None, e)
           else if take 4 header \<noteq> STATE_MAGIC then (None, e)
           else if readLE32 (drop 4 header) \<noteq> STATE_VERSION then (None, e)
           else
             let ps = readLE32 (drop 8 header); fsz = readLE64 (drop 12 header);
                 bitmapSize = readLE32 (drop 20 header) in
             if ps < 512 \<or> 65536 < ps \<or> ps AND (ps - 1) \<noteq> 0 then (None, e)
             else if bitmapSize = 0 \<or> 1024 * 1024 < bitmapSize then (None, e)
             else case sys_malloc (uint bitmapSize + 4) e of
                (None, e) \<Rightarrow> (None, e)
              | (Some _, e) \<Rightarrow>
             (case sys_pread fd (uint bitmapSize + 4) 24 e of (nr, payload, e) \<Rightarrow>
              if nr \<noteq> uint bitmapSize + 4 then (None, e)
              else
                let n = unat bitmapSize; storedCrc = readLE32 (drop n payload) in
                (case sys_malloc (24 + uint bitmapSize) e of
                   (None, e) \<Rightarrow> (None, e)
                 | (Some _, e) \<Rightarrow>
                let computedCrc = stateCrc32 (header @ take n payload) in
                if storedCrc \<noteq> computedCrc then (None, e)
                else case sys_malloc (uint bitmapSize) e of
                       (None, e) \<Rightarrow> (None, e)
                     | (Some _, e) \<Rightarrow>
                         (Some (take n payload, sint bitmapSize, sint ps, sint fsz), e)))))))"

section \<open>Encodings read back what was written\<close>

lemma string_of_bytes_of_string [simp]: "string_of_bytes (bytes_of_string s) = s"
  by (induction s) (simp_all add: string_of_bytes_def bytes_of_string_def unat_of_nat)

lemma length_bytes_of_string [simp]: "length (bytes_of_string s) = length s"
  by (simp add: bytes_of_string_def)

lemma c_str_id: "CHR 0x00 \<notin> set s \<Longrightarrow> c_str s = s"
  by (auto simp: c_str_def takeWhile_eq_all_conv)

lemma rtrim_id: "s \<noteq> [] \<Longrightarrow> \<not> is_trailing_space (last s) \<Longrightarrow> rtrim s = s"
  by (cases s rule: rev_cases) (simp_all add: rtrim_def)

lemma length_writeLE [simp]: "length (writeLE32 v) = 4" "length (writeLE64 w) = 8"
  by (simp_all add: writeLE32_def writeLE64_def)

lemma bit_byte_of:
  "bit (push_bit k (ucast (ucast (drop_bit k v) :: byte)) :: 'a::len word) n \<longleftrightarrow>
     k \<le> n \<and> n < k + 8 \<and> bit v n" for v :: "'a::len word"
  by (auto simp: bit_push_bit_iff bit_ucast_iff bit_drop_bit_eq possible_bit_word dest: bit_imp_le_length)

lemma bit_byte_of_0: "bit (ucast (ucast v :: byte) :: 'a::len word) n \<longleftrightarrow> n < 8 \<and> bit v n" for v :: "'a::len word"
  using bit_byte_of [of 0 v n] by simp

lemma readLE32_writeLE32 [simp]: "readLE32 (writeLE32 v @ r) = v"
proof (rule bit_eqI)
  fix n assume "possible_bit TYPE(32 word) n"
  then have "n < 32" by (simp add: possible_bit_word)
  then have "n < 8 \<or> 8 \<le> n \<and> n < 16 \<or> 16 \<le> n \<and> n < 24 \<or> 24 \<le> n \<and> n < 32" by linarith
  then show "bit (readLE32 (writeLE32 v @ r)) n = bit v n"
    by (auto simp: readLE32_def writeLE32_def bit_or_iff bit_byte_of bit_byte_of_0)
qed

lemma upt_0_8: "[0..<8] = [0, 1, 2, 3, 4, 5, 6, 7 :: nat]"
  by code_simp

lemma readLE64_writeLE64 [simp]: "readLE64 (writeLE64 v @ r) = v"
proof (rule bit_eqI)
  fix n assume "possible_bit TYPE(64 word) n"
  then have "n < 64" by (simp add: possible_bit_word)
  then have "n < 8 \<or> 8 \<le> n \<and> n < 16 \<or> 16 \<le> n \<and> n < 24 \<or> 24 \<le> n \<and> n < 32 \<or> 32 \<le> n \<and> n < 40
      \<or> 40 \<le> n \<and> n < 48 \<or> 48 \<le> n \<and> n < 56 \<or> 56 \<le> n \<and> n < 64" by linarith
  moreover have "bit (readLE64 (writeLE64 v @ r)) n \<longleftrightarrow> bit v n \<and>
      (n < 8 \<or> 8 \<le> n \<and> n < 16 \<or> 16 \<le> n \<and> n < 24 \<or> 24 \<le> n \<and> n < 32 \<or> 32 \<le> n \<and> n < 40
      \<or> 40 \<le> n \<and> n < 48 \<or> 48 \<le> n \<and> n < 56 \<or> 56 \<le> n \<and> n < 64)"
    by (simp add: readLE64_def writeLE64_def upt_0_8 bit_or_iff bit_byte_of bit_byte_of_0) blast
  ultimately show "bit (readLE64 (writeLE64 v @ r)) n = bit v n" by simp
qed

lemma length_magic [simp]: "length STATE_MAGIC = 4"
  by (simp add: STATE_MAGIC_def)

lemma length_state_header [simp]: "length (state_header ps fsz n) = 24"
  by (simp add: state_header_def)

lemma state_header_fields:
  "take 4 (state_header ps fsz n) = STATE_MAGIC"
  "readLE32 (drop 4 (state_header ps fsz n)) = STATE_VERSION"
  "readLE32 (drop 8 (state_header ps fsz n)) = word_of_int ps"
  "readLE64 (drop 12 (state_header ps fsz n)) = word_of_int fsz"
  "readLE32 (drop 20 (state_header ps fsz n)) = word_of_int n"
  using readLE32_writeLE32 [of "word_of_int n" "[]"] by (simp_all add: state_header_def)

lemma length_state_bytes:
  "nValid = int (length v) \<Longrightarrow> length (state_bytes ps fsz v nValid) = 24 + length v + 4"
  by (simp add: state_bytes_def Let_def)

section \<open>Round trips and atomicity\<close>

lemma ends_with_cache:
  "ends_with s ''.cache'' \<longleftrightarrow> 6 \<le> length s \<and> drop (length s - 6) s = ''.cache''"
  by (simp add: ends_with_def eval_nat_numeral)

lemma buildSidecarPath_ok [posix_simps]:
  "no_faults e \<Longrightarrow> buildSidecarPath (Some cp) ext e =
     (Some (sidecar_path cp ext), e)"
  by (simp add: sidecar_path_def buildSidecarPath_def ends_with_cache posix_simps Let_def)

lemma buildSidecarPath_frame:
  "buildSidecarPath cp ext e = (r, e') \<Longrightarrow> fs e' = fs e \<and> posix.more e' = posix.more e"
  by (auto simp: buildSidecarPath_def Let_def split: option.splits if_splits prod.splits dest: malloc_frame)

lemma state_bytes_parts:
  assumes "nValid = int (length v)"
  shows "bslice (state_bytes ps fsz v nValid) 0 24 = state_header ps fsz nValid"
    "bslice (state_bytes ps fsz v nValid) 24 (length v + 4) =
       v @ writeLE32 (stateCrc32 (state_header ps fsz nValid @ v))"
  using assms by (simp_all add: state_bytes_def bslice_def Let_def)

lemma read_state_bytes:
  assumes "no_faults e" and "fs e sp = Some (state_bytes ps fsz v (int (length v)))"
    and "sp = sidecar_path cp ''.state''"
    and "512 \<le> ps" "ps \<le> 65536" and "(word_of_int ps :: 32 word) AND (word_of_int ps - 1) = 0"
    and "- (2 ^ 63) \<le> fsz" "fsz < 2 ^ 63" and "v \<noteq> []" "length v \<le> 1024 * 1024"
  shows "readStateFile (Some cp) e = (Some (v, int (length v), ps, fsz), e)"
proof -
  let ?w = "word_of_nat (length v) :: 32 word"
  have f: "file_of e sp = state_bytes ps fsz v (int (length v))" using assms(2) by (simp add: file_of_def)
  have lv: "0 < int (length v)" "int (length v) \<le> 1048576" using assms(9,10) by auto
  have uw: "uint ?w = int (length v)" using lv by (simp add: unsigned_of_nat take_bit_nat_eq_self)
  have up: "uint (word_of_int ps :: 32 word) = ps" using assms(4,5) by (simp add: uint_word_of_int)
  have sw: "sint ?w = int (length v)" using lv by (simp add: signed_of_nat signed_take_bit_int_eq_self)
  have sp: "sint (word_of_int ps :: 32 word) = ps" using assms(4,5)
    by (simp add: signed_of_int signed_take_bit_int_eq_self)
  have sf: "sint (word_of_int fsz :: 64 word) = fsz" using assms(7,8)
    by (simp add: signed_of_int signed_take_bit_int_eq_self)
  have nz: "?w \<noteq> 0" using uw lv by (metis unsigned_0 less_irrefl)
  have le: "\<not> 1024 * 1024 < ?w" using uw lv by (simp add: word_less_def)
  have ps: "\<not> (word_of_int ps :: 32 word) < 512" "\<not> 65536 < (word_of_int ps :: 32 word)"
    using up assms(4,5) by (simp_all add: word_less_def)
  have un: "unat ?w = length v" using uw by (metis nat_int unat_eq_nat_uint)
  have h: "sys_pread sp 24 0 e = (24, state_header ps fsz (int (length v)), e)"
    using assms(1) state_bytes_parts(1) [OF refl, of ps fsz v] by (simp add: posix_simps f)
  have pl: "sys_pread sp (int (length v) + 4) 24 e =
      (int (length v) + 4, v @ writeLE32 (stateCrc32 (state_header ps fsz (int (length v)) @ v)), e)"
    using assms(1) state_bytes_parts(2) [OF refl, of ps fsz v]
    by (simp add: posix_simps f nat_add_distrib)
  have rd: "readLE32 (writeLE32 x) = x" for x using readLE32_writeLE32 [of x "[]"] by simp
  have bp: "buildStatePath (Some cp) e = (Some sp, e)"
    using assms(1,3) by (simp add: buildStatePath_def posix_simps)
  have op: "sys_open sp e = (Some sp, e)" using assms(1,2) by (simp add: posix_simps)
  show ?thesis
    using assms(1,6) nz le ps
    by (simp add: readStateFile_def bp op h pl malloc_ok state_header_fields uw un sw sp sf rd Let_def)
qed

lemma buildSidecarPath_cases:
  "buildSidecarPath (Some cp) ext e = (r, e') \<Longrightarrow>
     (r = None \<or> r = Some (sidecar_path cp ext)) \<and> fs e' = fs e \<and> posix.more e' = posix.more e"
  by (auto simp: buildSidecarPath_def sidecar_path_def ends_with_cache Let_def
      split: option.splits if_splits prod.splits dest: malloc_frame)

lemma sidecar_tmp_neq: "sidecar_path cp ext @ ''.tmp'' \<noteq> sidecar_path cp ext"
  by simp

lemma put_Nil_0 [simp]: "put [] 0 d = d"
  by (simp add: put_def zpad_def)

text \<open>An ETag that fits the buffer and survives the trimming.\<close>

definition storable :: "string \<Rightarrow> bool" where
  "storable et \<longleftrightarrow> et \<noteq> [] \<and> length et < 128 \<and> CHR 0x00 \<notin> set et \<and> \<not> is_trailing_space (last et)"

lemma write_etag_quiet:
  assumes "no_faults e" and "storable et"
  shows "writeEtagFile (Some cp) et e = (0, set_file (sidecar_path cp ''.etag'') (bytes_of_string et) e)"
proof -
  let ?ep = "sidecar_path cp ''.etag''"
  have "set_file ?ep (bytes_of_string et) (set_file ?ep [] e) = set_file ?ep (bytes_of_string et) e" by (simp add: set_file_def)
  then show ?thesis using assms by (simp add: writeEtagFile_def buildEtagPath_def storable_def posix_simps)
qed

lemma read_etag_quiet:
  assumes "no_faults e" and "storable et" and "fs e ep = Some (bytes_of_string et)"
  shows "readEtagFile (Some ep) 128 e = ((0, et), e)"
proof -
  have "bslice (bytes_of_string et) 0 127 = bytes_of_string et" using assms(2) by (simp add: bslice_def storable_def)
  then show ?thesis using assms by (simp add: readEtagFile_def storable_def posix_simps rtrim_id c_str_id file_of_def)
qed

lemma read_snapshot_quiet: "no_faults e \<Longrightarrow> \<exists>r. readSnapshotFile (Some cp) 128 e = (r, e)"
  by (auto simp: readSnapshotFile_def buildSnapshotPath_def posix_simps split: option.splits)

text \<open>The last phase of \<^verbatim>\<open>writeStateFile\<close>, from the opening of the temporary file on.\<close>

definition write_rename :: "string \<Rightarrow> bytes \<Rightarrow> int \<Rightarrow> 'a posix_scheme \<Rightarrow> int \<times> 'a posix_scheme" where
  "write_rename sp buf totalSize e =
     (case sys_open_trunc (sp @ ''.tmp'') e of
        (None, e) \<Rightarrow> (-1, e)
      | (Some fd, e) \<Rightarrow>
          (case sys_pwrite fd buf 0 e of (nw, e) \<Rightarrow>
           if nw \<noteq> totalSize then (-1, sys_unlink (sp @ ''.tmp'') e)
           else case sys_fsync fd e of (r, e) \<Rightarrow>
           if r \<noteq> 0 then (-1, sys_unlink (sp @ ''.tmp'') e)
           else case sys_rename (sp @ ''.tmp'') sp e of (r, e) \<Rightarrow>
           if r \<noteq> 0 then (-1, sys_unlink (sp @ ''.tmp'') e)
           else (0, e)))"

lemma write_rename_atomic:
  assumes "write_rename sp buf (int (length buf)) e = (r, e')"
  shows "(r = 0 \<and> fs e' sp = Some buf \<or> r = -1 \<and> fs e' sp = fs e sp) \<and>
    (\<forall>q. q \<noteq> sp \<and> q \<noteq> sp @ ''.tmp'' \<longrightarrow> fs e' q = fs e q) \<and> posix.more e' = posix.more e"
proof (cases "sys_open_trunc (sp @ ''.tmp'') e")
  case (Pair fd e1)
  show ?thesis
  proof (cases fd)
    case None
    then show ?thesis using assms Pair open_trunc_frame [OF Pair] by (auto simp: write_rename_def)
  next
    case (Some p)
    then have e1: "p = sp @ ''.tmp''" "fs e1 = (fs e)(sp @ ''.tmp'' \<mapsto> [])" "posix.more e1 = posix.more e"
      using open_trunc_frame [OF Pair] by auto
    obtain nw e2 where w: "sys_pwrite p buf 0 e1 = (nw, e2)" by fastforce
    note fw = pwrite_frame [OF w]
    show ?thesis
    proof (cases "nw = int (length buf)")
      case False
      then have "r = -1" "e' = sys_unlink (sp @ ''.tmp'') e2"
        using assms Pair Some w by (auto simp: write_rename_def)
      then show ?thesis using fw unlink_frame [of "sp @ ''.tmp''" e2] e1 by auto
    next
      case True
      have f2: "fs e2 p = Some buf" using pwrite_all [OF w [unfolded True]] e1 by (simp add: file_of_def)
      obtain r3 e3 where s: "sys_fsync p e2 = (r3, e3)" by fastforce
      obtain r4 e4 where n: "sys_rename (sp @ ''.tmp'') sp e3 = (r4, e4)" by fastforce
      note f3 = fsync_frame [OF s] and f4 = rename_frame [OF n]
      show ?thesis
        using assms Pair Some w s n True fw f2 f3 f4 e1
          unlink_frame [of "sp @ ''.tmp''" e3] unlink_frame [of "sp @ ''.tmp''" e4]
        by (auto simp: write_rename_def split: if_splits)
    qed
  qed
qed

lemma writeStateFile_cases:
  assumes "writeStateFile (Some cp) ps fsz (Some v) (int (length v)) e = (r, e')"
  shows "r = -1 \<and> fs e' = fs e \<and> posix.more e' = posix.more e \<or>
    (\<exists>e0. fs e0 = fs e \<and> posix.more e0 = posix.more e \<and>
       write_rename (sidecar_path cp ''.state'') (state_bytes ps fsz v (int (length v)))
         (int (length (state_bytes ps fsz v (int (length v))))) e0 = (r, e'))"
proof (cases "v = []")
  case True
  then show ?thesis using assms by (simp add: writeStateFile_def)
next
  case False
  obtain b e1 where b: "buildStatePath (Some cp) e = (b, e1)" by fastforce
  note b' = buildSidecarPath_cases [OF b [unfolded buildStatePath_def]]
  show ?thesis
  proof (cases b)
    case None
    then show ?thesis using assms b b' False by (simp add: writeStateFile_def)
  next
    case (Some sp)
    obtain m2 e2 where m2: "sys_malloc (int (length sp) + 5) e1 = (m2, e2)" by fastforce
    obtain m3 e3 where m3: "sys_malloc (24 + int (length v) + 4) e2 = (m3, e3)" by fastforce
    note f = malloc_frame [OF m2] malloc_frame [OF m3]
    have "24 + int (length v) + 4 = int (length (state_bytes ps fsz v (int (length v))))"
      by (simp add: length_state_bytes)
    then show ?thesis using assms b b' Some m2 m3 f False
      by (auto simp: writeStateFile_def write_rename_def Let_def split: option.splits)
  qed
qed

text \<open>C16 Whatever local call fails, and however many bytes the write transfers, \<^verbatim>\<open>writeStateFile\<close> replaces
  the state file by the complete new one and returns 0, or returns -1 and leaves the state file as it
  was; it touches no other file but its temporary.\<close>

theorem writeStateFile_atomic:
  assumes "writeStateFile (Some cp) ps fsz (Some v) (int (length v)) e = (r, e')"
  shows "(r = 0 \<and> fs e' (sidecar_path cp ''.state'') = Some (state_bytes ps fsz v (int (length v))) \<or>
      r = -1 \<and> fs e' (sidecar_path cp ''.state'') = fs e (sidecar_path cp ''.state'')) \<and>
    (\<forall>q. q \<noteq> sidecar_path cp ''.state'' \<and> q \<noteq> sidecar_path cp ''.state'' @ ''.tmp'' \<longrightarrow> fs e' q = fs e q)"
  using writeStateFile_cases [OF assms] write_rename_atomic by fastforce

text \<open>C17 A state file written by \<^verbatim>\<open>writeStateFile\<close> is read back by \<^verbatim>\<open>readStateFile\<close>: the same bitmap, page
  size and file size, for every legal page size, every 64-bit file size and every bitmap of at most one
  MiB.\<close>

theorem state_round_trip:
  assumes "no_faults e" and "512 \<le> ps" "ps \<le> 65536"
    and "(word_of_int ps :: 32 word) AND (word_of_int ps - 1) = 0"
    and "- (2 ^ 63) \<le> fsz" "fsz < 2 ^ 63" and "v \<noteq> []" "length v \<le> 1024 * 1024"
  shows "\<exists>e'. writeStateFile (Some cp) ps fsz (Some v) (int (length v)) e = (0, e') \<and>
    readStateFile (Some cp) e' = (Some (v, int (length v), ps, fsz), e')"
proof -
  let ?sp = "sidecar_path cp ''.state''" and ?buf = "state_bytes ps fsz v (int (length v))"
  let ?e1 = "set_file (?sp @ ''.tmp'') ?buf (set_file (?sp @ ''.tmp'') [] e)"
  let ?e2 = "?e1\<lparr>fs := (fs ?e1)(?sp @ ''.tmp'' := None, ?sp \<mapsto> ?buf)\<rparr>"
  have nf: "no_faults ?e1" "no_faults ?e2" using assms(1) by (simp_all add: no_faults_def)
  have w: "writeStateFile (Some cp) ps fsz (Some v) (int (length v)) e = (0, ?e2)"
    using assms(1,7) nf
    by (simp add: writeStateFile_def buildStatePath_def posix_simps length_state_bytes Let_def)
  have "fs ?e2 ?sp = Some ?buf" by simp
  from read_state_bytes [OF nf(2) this refl assms(2-8)] w show ?thesis by blast
qed

theorem writeStateFile_atomic_witness:
  "\<exists>r e'. writeStateFile (Some ''/tmp/a.cache'') 4096 8192 (Some [3]) 1 (quiet_posix\<lparr>faults := [Io_ok, Io_ok, Io_ok, Io_ok, Io_short 7]\<rparr>) = (r, e') \<and>
    (r = 0 \<and> fs e' ''/tmp/a.state'' = Some (state_bytes 4096 8192 [3] 1) \<or>
     r = -1 \<and> fs e' ''/tmp/a.state'' = None)"
proof -
  let ?e = "quiet_posix\<lparr>faults := [Io_ok, Io_ok, Io_ok, Io_ok, Io_short 7]\<rparr>"
  obtain r e' where w: "writeStateFile (Some ''/tmp/a.cache'') 4096 8192 (Some [3]) (int (length [3 :: byte])) ?e = (r, e')"
    by fastforce
  have sp: "sidecar_path ''/tmp/a.cache'' ''.state'' = ''/tmp/a.state''"
    by (simp add: sidecar_path_def ends_with_def)
  have "fs ?e ''/tmp/a.state'' = None" by (simp add: quiet_posix_def)
  with writeStateFile_atomic [OF w] w show ?thesis by (simp add: sp)
qed

theorem state_round_trip_witness:
  "\<exists>e'. writeStateFile (Some ''/tmp/a.cache'') 4096 8192 (Some [3]) (int (length [3 :: byte])) quiet_posix = (0, e') \<and>
    readStateFile (Some ''/tmp/a.cache'') e' = (Some ([3], int (length [3 :: byte]), 4096, 8192), e')"
  by (rule state_round_trip) (simp_all add: quiet_posix_def no_faults_def)

text \<open>C33 The checksum does not detect every change of a single byte: the table of the source has equal entries at
  32 and 112 (a CRC-32 table has 256 distinct ones), so there are a state file written by \<^verbatim>\<open>writeStateFile\<close> and
  another value of one byte of its bitmap with which \<^verbatim>\<open>readStateFile\<close> still accepts it and returns the
  corrupted bitmap.\<close>

theorem crc_misses_corruption:
  "\<exists>v w. v \<noteq> w \<and>
     fst (readStateFile (Some ''/tmp/a.cache'')
       (set_file ''/tmp/a.state'' ((state_bytes 4096 8192 [v] 1)[24 := w]) quiet_posix)) = Some ([w], 1, 4096, 8192)"
proof -
  let ?h = "state_header 4096 8192 1"
  have t: "crc_table ! 32 = crc_table ! 112" by (simp add: crc_table_def)
  have ff: "(0xFF :: 32 word) = mask 8" by (simp add: mask_eq_exp_minus_1)
  define c where "c = foldl crc_step 0xFFFFFFFF ?h"
  define b where "b i = (ucast (c XOR i) :: byte)" for i :: "32 word"
  have step: "crc_step c (b i) = crc_table ! unat (i AND 0xFF) XOR drop_bit 8 c" for i
  proof -
    have "(c XOR ucast (b i)) AND 0xFF = i AND 0xFF"
      by (rule bit_eqI) (auto simp: ff b_def bit_and_iff bit_xor_iff bit_ucast_iff bit_mask_iff)
    then show ?thesis by (simp add: crc_step_def)
  qed
  have ne: "b 32 \<noteq> b 112"
  proof
    assume "b 32 = b 112"
    then have "bit (b 32) 4 = bit (b 112) 4" by simp
    then show False by (simp add: b_def bit_ucast_iff bit_xor_iff)
  qed
  have crc: "stateCrc32 (?h @ [b 32]) = stateCrc32 (?h @ [b 112])"
    using step [of 32] step [of 112] t by (simp add: stateCrc32_def c_def)
  have "(state_bytes 4096 8192 [b 32] 1)[24 := b 112] = state_bytes 4096 8192 [b 112] (int (length [b 112]))"
    using crc by (simp add: state_bytes_def list_update_append Let_def)
  moreover have "readStateFile (Some ''/tmp/a.cache'')
      (set_file ''/tmp/a.state'' (state_bytes 4096 8192 [b 112] (int (length [b 112]))) quiet_posix) =
      (Some ([b 112], int (length [b 112]), 4096, 8192),
       set_file ''/tmp/a.state'' (state_bytes 4096 8192 [b 112] (int (length [b 112]))) quiet_posix)"
    by (rule read_state_bytes)
       (simp_all add: quiet_posix_def no_faults_def sidecar_path_def ends_with_def)
  ultimately show ?thesis using ne by (intro exI [of _ "b 32"] exI [of _ "b 112"]) simp
qed

end
