(* ===== verification/Journal_Cache.thy ===== *)
theory Journal_Cache
  imports File_State
begin

text \<open>
  The per-journal blob existence cache of \<^verbatim>\<open>sqlite_objs_vfs.c\<close>: at most sixteen entries, one per journal
  blob, whose state is -1 (unknown), 0 (does not exist) or 1 (exists). A pointer into the array is an index.
\<close>

section \<open>Operations\<close>

fun jc_find_from :: "nat \<Rightarrow> sqliteObjsJournalCacheEntry list \<Rightarrow> string \<Rightarrow> nat option" where
  "jc_find_from i [] zName = None"
| "jc_find_from i (x # xs) zName = (if jc_zBlobName x = zName then Some i else jc_find_from (Suc i) xs zName)"

definition journalCacheFind :: "'w sqliteObjsVfsData \<Rightarrow> string \<Rightarrow> nat option" where
  "journalCacheFind pData zName = jc_find_from 0 (journalCache pData) zName"

definition journalCacheGetOrCreate ::
  "'w sqliteObjsVfsData \<Rightarrow> string \<Rightarrow> nat option \<times> 'w sqliteObjsVfsData" where
  "journalCacheGetOrCreate pData zName =
     (case journalCacheFind pData zName of
        Some i \<Rightarrow> (Some i, pData)
      | None \<Rightarrow>
          if SQLITE_OBJS_MAX_JOURNAL_CACHE \<le> length (journalCache pData) then (None, pData)
          else if 512 \<le> length zName then (None, pData)
          else (Some (length (journalCache pData)),
                pData\<lparr>journalCache := journalCache pData @ [\<lparr>jc_state = -1, jc_zBlobName = zName\<rparr>]\<rparr>))"

definition jc_set_state :: "nat \<Rightarrow> int \<Rightarrow> 'w sqliteObjsVfsData \<Rightarrow> 'w sqliteObjsVfsData" where
  "jc_set_state i s pData =
     pData\<lparr>journalCache := (journalCache pData)[i := (journalCache pData ! i)\<lparr>jc_state := s\<rparr>]\<rparr>"

text \<open>The block under the mutex that \<^verbatim>\<open>xSync\<close>, \<^verbatim>\<open>xDelete\<close>, \<^verbatim>\<open>xAccess\<close> and \<^verbatim>\<open>xOpen\<close> use to record what they
  learnt about a journal blob.\<close>

definition journal_record :: "string \<Rightarrow> int \<Rightarrow> 'w env \<Rightarrow> 'w env" where
  "journal_record zName s e =
     (case journalCacheGetOrCreate (vfs_data e) zName of
        (None, vd) \<Rightarrow> e\<lparr>vfs_data := vd\<rparr>
      | (Some i, vd) \<Rightarrow> e\<lparr>vfs_data := jc_set_state i s vd\<rparr>)"

text \<open>The lookup the same functions start from.\<close>

definition journal_state :: "string \<Rightarrow> 'w sqliteObjsVfsData \<Rightarrow> int" where
  "journal_state zName pData =
     (case journalCacheFind pData zName of None \<Rightarrow> -1 | Some i \<Rightarrow> jc_state (journalCache pData ! i))"

section \<open>Invariant\<close>

definition jc_ok :: "'w sqliteObjsVfsData \<Rightarrow> bool" where
  "jc_ok vd \<longleftrightarrow>
     length (journalCache vd) \<le> SQLITE_OBJS_MAX_JOURNAL_CACHE \<and>
     distinct (map jc_zBlobName (journalCache vd)) \<and>
     list_all (\<lambda>x. length (jc_zBlobName x) < 512 \<and> jc_state x \<in> {-1, 0, 1}) (journalCache vd)"

lemma jc_find_from_Some:
  "jc_find_from k xs z = Some i \<Longrightarrow> k \<le> i \<and> i - k < length xs \<and> jc_zBlobName (xs ! (i - k)) = z"
  by (induction k xs z rule: jc_find_from.induct) (auto simp: nth_Cons' split: if_splits)

lemma jc_find_from_None: "jc_find_from k xs z = None \<longleftrightarrow> z \<notin> jc_zBlobName ` set xs"
  by (induction k xs z rule: jc_find_from.induct) auto

lemma jc_find_from_distinct:
  assumes "distinct (map jc_zBlobName xs)" and "i < length xs" and "jc_zBlobName (xs ! i) = z"
  shows "jc_find_from k xs z = Some (k + i)"
  using assms
proof (induction k xs z arbitrary: i rule: jc_find_from.induct)
  case (2 k x xs z)
  show ?case
  proof (cases i)
    case 0
    then show ?thesis using "2.prems" by simp
  next
    case (Suc j)
    then have "jc_zBlobName x \<noteq> z" using "2.prems" by auto
    then show ?thesis using "2.IH" [of j] "2.prems" Suc by simp
  qed
qed simp

lemma find_Some:
  "journalCacheFind vd z = Some i \<Longrightarrow> i < length (journalCache vd) \<and> jc_zBlobName (journalCache vd ! i) = z"
  unfolding journalCacheFind_def by (drule jc_find_from_Some) simp

lemma find_None: "journalCacheFind vd z = None \<longleftrightarrow> z \<notin> jc_zBlobName ` set (journalCache vd)"
  by (simp add: journalCacheFind_def jc_find_from_None)

lemma find_distinct:
  "jc_ok vd \<Longrightarrow> i < length (journalCache vd) \<Longrightarrow> jc_zBlobName (journalCache vd ! i) = z \<Longrightarrow>
     journalCacheFind vd z = Some i"
  using jc_find_from_distinct [of "journalCache vd" i z 0] by (simp add: journalCacheFind_def jc_ok_def)

lemma getOrCreate_ok: "jc_ok vd \<Longrightarrow> jc_ok (snd (journalCacheGetOrCreate vd z))"
  by (auto simp: journalCacheGetOrCreate_def jc_ok_def find_None split: option.split)

lemma getOrCreate_Some:
  "journalCacheGetOrCreate vd z = (Some i, vd') \<Longrightarrow>
     i < length (journalCache vd') \<and> jc_zBlobName (journalCache vd' ! i) = z"
  by (auto simp: journalCacheGetOrCreate_def nth_append split: option.splits if_splits dest: find_Some)

lemma names_set_state:
  assumes "i < length (journalCache vd)"
  shows "map jc_zBlobName (journalCache (jc_set_state i s vd)) = map jc_zBlobName (journalCache vd)"
proof (rule nth_equalityI)
  fix k
  assume "k < length (map jc_zBlobName (journalCache (jc_set_state i s vd)))"
  then show "map jc_zBlobName (journalCache (jc_set_state i s vd)) ! k = map jc_zBlobName (journalCache vd) ! k"
    using assms by (cases "k = i") (simp_all add: jc_set_state_def)
qed (simp add: jc_set_state_def)

lemma set_state_ok:
  assumes "jc_ok vd" and "i < length (journalCache vd)" and "s \<in> {-1, 0, 1}"
  shows "jc_ok (jc_set_state i s vd)"
proof -
  have "list_all (\<lambda>x. length (jc_zBlobName x) < 512 \<and> jc_state x \<in> {-1, 0, 1})
      ((journalCache vd)[i := (journalCache vd ! i)\<lparr>jc_state := s\<rparr>])"
    using assms by (auto simp: jc_ok_def list_all_length nth_list_update)
  then show ?thesis using assms names_set_state [OF assms(2), of s] by (simp add: jc_ok_def jc_set_state_def)
qed

lemma journal_record_ok: "jc_ok (vfs_data e) \<Longrightarrow> s \<in> {-1, 0, 1} \<Longrightarrow> jc_ok (vfs_data (journal_record z s e))"
  using getOrCreate_ok [of "vfs_data e" z]
  by (auto simp: journal_record_def split: prod.split option.split
      intro!: set_state_ok dest: getOrCreate_Some)

lemma journal_record_frame [simp]:
  "fs (journal_record z s e) = fs e" "remote (journal_record z s e) = remote e"
  "faults (journal_record z s e) = faults e"
  by (simp_all add: journal_record_def split: prod.split option.split)

text \<open>What a lookup returns after a record: the recorded state for that blob, if there was room for it.\<close>

lemma journal_state_getOrCreate:
  assumes "jc_ok vd" and "journalCacheGetOrCreate vd z = (r, vd')" and "y \<noteq> z"
  shows "journal_state y vd' = journal_state y vd"
proof (cases "vd' = vd")
  case False
  then have vd': "journalCache vd' = journalCache vd @ [\<lparr>jc_state = -1, jc_zBlobName = z\<rparr>]"
    using assms(2) by (auto simp: journalCacheGetOrCreate_def split: option.splits if_splits)
  have ok': "jc_ok vd'" using getOrCreate_ok [OF assms(1), of z] assms(2) by simp
  show ?thesis
  proof (cases "journalCacheFind vd y")
    case None
    then have "journalCacheFind vd' y = None" using assms(3) by (auto simp: find_None vd')
    with None show ?thesis by (simp add: journal_state_def)
  next
    case (Some i)
    then have i: "i < length (journalCache vd)" "jc_zBlobName (journalCache vd ! i) = y" using find_Some by blast+
    then have "journalCacheFind vd' y = Some i" by (intro find_distinct [OF ok']) (simp_all add: vd' nth_append)
    with Some i show ?thesis by (simp add: journal_state_def vd' nth_append)
  qed
qed simp

lemma find_set_state:
  assumes "jc_ok vd" and "i < length (journalCache vd)"
  shows "journalCacheFind (jc_set_state i s vd) y = journalCacheFind vd y"
proof (cases "journalCacheFind vd y")
  case None
  then have "journalCacheFind (jc_set_state i s vd) y = None"
    using arg_cong [OF names_set_state [OF assms(2), of s], of set] by (simp add: find_None)
  with None show ?thesis by simp
next
  case (Some j)
  then have j: "j < length (journalCache vd)" "jc_zBlobName (journalCache vd ! j) = y" using find_Some by blast+
  have "jc_find_from 0 (journalCache (jc_set_state i s vd)) y = Some (0 + j)"
    using j assms names_set_state [OF assms(2), of s]
    by (intro jc_find_from_distinct) (auto simp: jc_ok_def jc_set_state_def nth_list_update)
  with Some show ?thesis by (simp add: journalCacheFind_def)
qed

lemma journal_state_record_other:
  assumes "jc_ok (vfs_data e)" and "y \<noteq> z"
  shows "journal_state y (vfs_data (journal_record z s e)) = journal_state y (vfs_data e)"
proof -
  obtain r vd' where g: "journalCacheGetOrCreate (vfs_data e) z = (r, vd')" by fastforce
  have ok': "jc_ok vd'" using getOrCreate_ok [OF assms(1), of z] g by simp
  note same = journal_state_getOrCreate [OF assms(1) g assms(2)]
  show ?thesis
  proof (cases r)
    case None
    then show ?thesis using g same by (simp add: journal_record_def)
  next
    case (Some i)
    have i: "i < length (journalCache vd')" "jc_zBlobName (journalCache vd' ! i) = z"
      using getOrCreate_Some [of "vfs_data e" z i vd'] g Some by simp_all
    then have "j \<noteq> i" if "journalCacheFind vd' y = Some j" for j using find_Some [OF that] assms(2) by auto
    then have "journal_state y (jc_set_state i s vd') = journal_state y vd'"
      unfolding journal_state_def find_set_state [OF ok' i(1)] by (auto simp: jc_set_state_def split: option.split)
    then show ?thesis using g Some same by (simp add: journal_record_def)
  qed
qed

lemma journal_record_get:
  assumes "jc_ok (vfs_data e)" and g: "journalCacheGetOrCreate (vfs_data e) z = (Some i, vd')"
  shows "journal_state z (vfs_data (journal_record z s e)) = s"
proof -
  have ok': "jc_ok vd'" using getOrCreate_ok [OF assms(1), of z] g by simp
  have i: "i < length (journalCache vd')" "jc_zBlobName (journalCache vd' ! i) = z" using getOrCreate_Some [OF g] by simp_all
  have "journalCacheFind (jc_set_state i s vd') z = Some i" using find_distinct [OF ok' i] find_set_state [OF ok' i(1)] by simp
  then show ?thesis using g i by (simp add: journal_record_def journal_state_def jc_set_state_def)
qed

section \<open>The cache as a map\<close>

text \<open>A run of the recording blocks, the oldest first, and the map they describe.\<close>

fun journal_records :: "(string \<times> int) list \<Rightarrow> 'w env \<Rightarrow> 'w env" where
  "journal_records [] e = e"
| "journal_records ((z, s) # rs) e = journal_records rs (journal_record z s e)"

definition last_recorded :: "(string \<times> int) list \<Rightarrow> string \<Rightarrow> int" where
  "last_recorded rs z = (case map_of (rev rs) z of None \<Rightarrow> -1 | Some s \<Rightarrow> s)"

definition cached_names :: "'w env \<Rightarrow> string set" where
  "cached_names e = jc_zBlobName ` set (journalCache (vfs_data e))"

lemma cached_names_card: "jc_ok (vfs_data e) \<Longrightarrow> card (cached_names e) = length (journalCache (vfs_data e))"
  using distinct_card [of "map jc_zBlobName (journalCache (vfs_data e))"] by (simp add: jc_ok_def cached_names_def)

lemma uncached_unknown: "z \<notin> cached_names e \<Longrightarrow> journal_state z (vfs_data e) = -1"
  by (simp add: journal_state_def cached_names_def find_None [symmetric])

text \<open>One recording block either changes nothing, for a name that is too long or finds no room, or takes the name in.\<close>

lemma journal_record_cases:
  assumes "jc_ok (vfs_data e)"
  obtains (stored) "journal_state z (vfs_data (journal_record z s e)) = s" "cached_names (journal_record z s e) = insert z (cached_names e)"
  | (refused) "journal_record z s e = e" "z \<notin> cached_names e" "512 \<le> length z \<or> length (journalCache (vfs_data e)) = 16"
proof (cases "journalCacheFind (vfs_data e) z = None \<and> (512 \<le> length z \<or> 16 \<le> length (journalCache (vfs_data e)))")
  case True
  then have "journal_record z s e = e" by (auto simp: journal_record_def journalCacheGetOrCreate_def)
  with True assms show thesis by (intro refused) (auto simp: cached_names_def find_None jc_ok_def)
next
  case False
  then obtain i vd' where g: "journalCacheGetOrCreate (vfs_data e) z = (Some i, vd')"
    by (cases "journalCacheFind (vfs_data e) z") (auto simp: journalCacheGetOrCreate_def)
  have i: "i < length (journalCache vd')" "jc_zBlobName (journalCache vd' ! i) = z" using getOrCreate_Some [OF g] by simp_all
  have "jc_zBlobName ` set (journalCache vd') = insert z (cached_names e)"
  proof (cases "journalCacheFind (vfs_data e) z")
    case None
    then show ?thesis using g False by (auto simp: journalCacheGetOrCreate_def cached_names_def)
  next
    case (Some j)
    then have "z \<in> cached_names e" using find_None [of "vfs_data e" z] by (auto simp: cached_names_def)
    then show ?thesis using g Some by (auto simp: journalCacheGetOrCreate_def cached_names_def)
  qed
  then have "cached_names (journal_record z s e) = insert z (cached_names e)"
    using arg_cong [OF names_set_state [OF i(1), of s], of set] g by (simp add: journal_record_def cached_names_def)
  with journal_record_get [OF assms g] show thesis by (intro stored)
qed


lemma journal_records_step:
  assumes "jc_ok (vfs_data e)" and "s \<in> {-1, 0, 1}" and "\<And>y. journal_state y (vfs_data e) \<in> {f y, -1}"
  shows "journal_state y (vfs_data (journal_record z s e)) \<in> {(f(z := s)) y, -1}"
proof (cases "y = z")
  case True
  show ?thesis using journal_record_cases [OF assms(1), of z s] uncached_unknown [of z e] True by (metis fun_upd_same insertCI)
next
  case False
  then show ?thesis using assms(3) [of y] journal_state_record_other [OF assms(1) False, of s] by simp
qed

lemma last_recorded_snoc: "last_recorded (rs @ [(z, s)]) = (last_recorded rs)(z := s)"
  by (simp add: last_recorded_def fun_eq_iff)

lemma journal_records_snoc: "journal_records (rs @ [(z, s)]) e = journal_record z s (journal_records rs e)"
  by (induction rs e rule: journal_records.induct) simp_all

lemma journal_records_sound:
  assumes "journalCache (vfs_data e) = []" and "\<forall>(z, s) \<in> set rs. s \<in> {-1, 0, 1}"
  shows "jc_ok (vfs_data (journal_records rs e))" "journal_state y (vfs_data (journal_records rs e)) \<in> {last_recorded rs y, -1}"
    "cached_names (journal_records rs e) \<subseteq> fst ` set rs"
  using assms(2)
proof (induction rs arbitrary: y rule: rev_induct)
  case Nil
  { case 1 then show ?case using assms(1) by (simp add: jc_ok_def)
  next case 2 then show ?case using assms(1) by (simp add: journal_state_def journalCacheFind_def)
  next case 3 then show ?case using assms(1) by (simp add: cached_names_def) }
next
  case (snoc x rs)
  obtain z s where x: "x = (z, s)" by (cases x)
  { case 1
    then show ?case using snoc(1) by (auto simp: x journal_records_snoc intro: journal_record_ok)
  next
    case 2
    then show ?case using journal_records_step [of "journal_records rs e" s "last_recorded rs"] snoc(1,2)
      by (simp add: x journal_records_snoc last_recorded_snoc del: fun_upd_apply)
  next
    case 3
    then have "jc_ok (vfs_data (journal_records rs e))" "cached_names (journal_records rs e) \<subseteq> fst ` set rs" using snoc(1,3) by auto
    then show ?case by (cases rule: journal_record_cases [of "journal_records rs e" z s]) (auto simp: x journal_records_snoc) }
qed

text \<open>Up to sixteen names are never refused.\<close>

lemma journal_records_room:
  assumes "journalCache (vfs_data e) = []" and "\<forall>(z, s) \<in> set rs. s \<in> {-1, 0, 1} \<and> length z < 512" and "card (fst ` set rs) \<le> 16"
  shows "journal_state y (vfs_data (journal_records rs e)) = last_recorded rs y"
  using assms(2,3)
proof (induction rs arbitrary: y rule: rev_induct)
  case Nil
  then show ?case using assms(1) by (simp add: journal_state_def journalCacheFind_def last_recorded_def)
next
  case (snoc x rs)
  obtain z s where x: "x = (z, s)" by (cases x)
  let ?e = "journal_records rs e"
  have "card (fst ` set rs) \<le> card (fst ` set (rs @ [x]))" by (rule card_mono) auto
  then have IH: "journal_state y (vfs_data ?e) = last_recorded rs y" for y using snoc by auto
  have st: "\<forall>(z, s) \<in> set rs. s \<in> {-1, 0, 1}" using snoc.prems(1) by auto
  note ok = journal_records_sound(1) [OF assms(1) st] and sub = journal_records_sound(3) [OF assms(1) st]
  have "journal_state z (vfs_data (journal_record z s ?e)) = s"
  proof (cases rule: journal_record_cases [OF ok, of z s])
    case 2
    then have "card (cached_names ?e) = 16" using snoc.prems(1) ok by (simp add: x cached_names_card)
    moreover have "card (insert z (cached_names ?e)) \<le> card (fst ` set (rs @ [x]))"
      using sub by (intro card_mono) (auto simp: x)
    ultimately show ?thesis using 2(2) snoc.prems(2) by (simp add: cached_names_def)
  qed simp
  then show ?case using IH journal_state_record_other [OF ok] by (cases "y = z") (simp_all add: x journal_records_snoc last_recorded_snoc)
qed

text \<open>C31 The journal cache refines a map from journal names to what was last recorded of them. After any sequence of recordings,
  the cache is well formed, a lookup returns what was last recorded of the journal or \<^emph>\<open>unknown\<close>, and while at most sixteen
  journals with names under 512 bytes were recorded it never forgets one.\<close>

theorem journal_cache_refines_map:
  assumes "journalCache (vfs_data e) = []" and "\<forall>(z, s) \<in> set rs. s \<in> {-1, 0, 1}"
  shows "jc_ok (vfs_data (journal_records rs e)) \<and>
    journal_state y (vfs_data (journal_records rs e)) \<in> {last_recorded rs y, -1} \<and>
    (card (fst ` set rs) \<le> 16 \<and> (\<forall>(z, s) \<in> set rs. length z < 512) \<longrightarrow>
       journal_state y (vfs_data (journal_records rs e)) = last_recorded rs y)"
  using assms(2) journal_records_sound [OF assms] journal_records_room [OF assms(1)] by fastforce

theorem journal_cache_refines_map_witness:
  "journal_state ''a-journal'' (vfs_data (journal_records [(''a-journal'', 1), (''b-journal'', 1), (''a-journal'', 0)] (env_start ()))) = 0"
proof -
  let ?rs = "[(''a-journal'', 1), (''b-journal'', 1), (''a-journal'', 0)] :: (string \<times> int) list"
  have "card (fst ` set ?rs) \<le> 16" "last_recorded ?rs ''a-journal'' = 0" by (simp_all add: card_insert_if last_recorded_def)
  then show ?thesis using journal_cache_refines_map [of "env_start ()" ?rs "''a-journal''"] by (simp add: env_start_def vfs_data_zero_def)
qed

end
