(* ===== verification/Sync.thy ===== *)
theory Sync
  imports Main_Io Sidecar Journal_Cache
begin

text \<open>
  \<^verbatim>\<open>xSync\<close> of \<^verbatim>\<open>sqlite_objs_vfs.c\<close>: the WAL and journal uploads, and for a database the chain renew the lease,
  resize the blob, coalesce the dirty pages into ranges, read them from the cache file, upload them (one
  batch, or range after range), record the new ETag, clear the dirty pages, take a snapshot, persist the
  \<^verbatim>\<open>.state\<close> file. Each link of the chain is a definition; \<open>sqliteObjsSync\<close> composes them.

  The model is the program run with \<^verbatim>\<open>SQLITE_OBJS_DEBUG_TIMING\<close> unset.
\<close>

section \<open>Coalescing\<close>

text \<open>The inner loop of \<^verbatim>\<open>coalesceDirtyRanges\<close>: the page it stops at and the number of pages of the run.\<close>

function dirty_run :: "bitmap \<Rightarrow> int \<Rightarrow> int \<Rightarrow> int \<Rightarrow> int \<Rightarrow> int \<times> int" where
  "dirty_run bm nPages ps i runPages =
     (if i < nPages \<and> bitmapTestBit bm i
      then let runPages = runPages + 1; runBytes = runPages * ps in
           if SQLITE_OBJS_MAX_PUT_PAGE \<le> runBytes then (i, runPages)
           else dirty_run bm nPages ps (i + 1) runPages
      else (i, runPages))"
  by pat_completeness auto
termination
  by (relation "measure (\<lambda>(bm, nPages, ps, i, runPages). nat (nPages - i))") auto

declare dirty_run.simps [simp del]

text \<open>The run with the step past the page that hit the 4 MiB cap.\<close>

definition dirty_run_next :: "bitmap \<Rightarrow> int \<Rightarrow> int \<Rightarrow> int \<Rightarrow> int \<times> int" where
  "dirty_run_next bm nPages ps i =
     (case dirty_run bm nPages ps i 0 of (i, runPages) \<Rightarrow>
        (if i < nPages \<and> bitmapTestBit bm i \<and> SQLITE_OBJS_MAX_PUT_PAGE \<le> runPages * ps then i + 1 else i,
         runPages))"

lemma dirty_run_cases:
  assumes "dirty_run bm nPages ps i r = (j, m)"
  shows "i \<le> j \<and> (j < nPages \<and> bitmapTestBit bm j \<and> SQLITE_OBJS_MAX_PUT_PAGE \<le> m * ps \<or>
                    \<not> (j < nPages \<and> bitmapTestBit bm j))"
  using assms
proof (induction bm nPages ps i r rule: dirty_run.induct)
  case (1 bm nPages ps i r)
  show ?case
  proof (cases "i < nPages \<and> bitmapTestBit bm i \<and> \<not> SQLITE_OBJS_MAX_PUT_PAGE \<le> (r + 1) * ps")
    case True
    then have "dirty_run bm nPages ps (i + 1) (r + 1) = (j, m)"
      using "1.prems" by (simp add: dirty_run.simps [of bm nPages ps i r] Let_def)
    from "1.IH" [OF _ refl refl _ this] True show ?thesis by auto
  next
    case False
    then show ?thesis using "1.prems"
      by (auto simp: dirty_run.simps [of bm nPages ps i r] Let_def split: if_splits)
  qed
qed

lemma dirty_run_next_gt:
  assumes "dirty_run_next bm nPages ps i = (j, m)" and "i < nPages" and "bitmapTestBit bm i"
  shows "i < j"
proof -
  obtain k where k: "dirty_run bm nPages ps i 0 = (k, m)"
    and j: "j = (if k < nPages \<and> bitmapTestBit bm k \<and> SQLITE_OBJS_MAX_PUT_PAGE \<le> m * ps then k + 1 else k)"
    using assms(1) by (auto simp: dirty_run_next_def split: prod.splits)
  show ?thesis using dirty_run_cases [OF k] assms(2,3) j by (cases "k = i") auto
qed

function coalesce_loop ::
  "'w sqliteObjsFile \<Rightarrow> int \<Rightarrow> int \<Rightarrow> int \<Rightarrow> azure_page_range list \<Rightarrow> azure_page_range list option" where
  "coalesce_loop p nPages maxRanges i ranges =
     (if \<not> i < nPages then Some ranges
      else if \<not> bitmapTestBit (dirty p) i then coalesce_loop p nPages maxRanges (i + 1) ranges
      else
        let runStart = i * pageSize p;
            (i', runPages) = dirty_run_next (dirty p) nPages (pageSize p) i;
            runEnd = runStart + runPages * pageSize p;
            runEnd = (if nData p < runEnd then nData p else runEnd);
            len = align512 (runEnd - runStart) in
        if maxRanges \<le> int (length ranges) then None
        else coalesce_loop p nPages maxRanges i'
               (ranges @ [\<lparr>pr_offset = runStart, pr_data = None, pr_len = len\<rparr>]))"
  by pat_completeness auto
termination
  by (relation "measure (\<lambda>(p, nPages, maxRanges, i, ranges). nat (nPages - i))")
     (auto dest!: dirty_run_next_gt [OF sym])

declare coalesce_loop.simps [simp del]

text \<open>\<^term>\<open>None\<close> is the result -1: the array of \<open>maxRanges\<close> entries is too small.\<close>

definition coalesceDirtyRanges :: "'w sqliteObjsFile \<Rightarrow> int \<Rightarrow> azure_page_range list option" where
  "coalesceDirtyRanges p maxRanges =
     (if bm_nSet (dirty p) = 0 then Some []
      else if bm_data (dirty p) = None \<or> pageSize p \<le> 0 \<or> nData p \<le> 0 then Some []
      else
        let nPages = c_int (c_div (nData p + pageSize p - 1) (pageSize p))
        in coalesce_loop p nPages maxRanges 0 [])"

section \<open>WAL and journal\<close>

definition heap_prefix :: "bytes option \<Rightarrow> int \<Rightarrow> bytes" where
  "heap_prefix buf n = (case buf of None \<Rightarrow> [] | Some b \<Rightarrow> take (nat n) b)"

definition sync_wal :: "'w sqliteObjsFile \<Rightarrow> 'w env \<Rightarrow> sqlite_rc \<times> 'w sqliteObjsFile \<times> 'w env" where
  "sync_wal p e =
     (if nWalData p \<le> 0 then (SQLITE_OK, p, e)
      else case Option.bind (ops p) block_blob_upload of
        None \<Rightarrow> (SQLITE_IOERR_FSYNC, p, e)
      | Some upload \<Rightarrow>
          let data = heap_prefix (aWalData p) (nWalData p) in
          (case (if walParallelUpload (vfs_data e) \<noteq> 0
                 then case Option.bind (ops p) block_blob_upload_parallel of
                        Some par \<Rightarrow>
                          let chunkSz = (if walChunkSize (vfs_data e) > 0 then walChunkSize (vfs_data e)
                                         else SQLITE_OBJS_WAL_DEFAULT_CHUNK)
                          in do_azure (par (blob p) data chunkSz) e
                      | None \<Rightarrow> do_azure (upload (blob p) data) e
                 else do_azure (upload (blob p) data) e) of
             (arc, aerr, e) \<Rightarrow>
           if arc \<noteq> AZURE_OK then (SQLITE_IOERR_FSYNC, bump azure_errors_update 1 p, e)
           else
             let p = bump wal_uploads_update 1 p;
                 p = bump wal_bytes_uploaded_update (nWalData p) p;
                 p = bump blob_writes_update 1 p;
                 p = bump blob_bytes_written_update (nWalData p) p
             in (SQLITE_OK, p, e)))"

definition sync_journal :: "'w sqliteObjsFile \<Rightarrow> 'w env \<Rightarrow> sqlite_rc \<times> 'w sqliteObjsFile \<times> 'w env" where
  "sync_journal p e =
     (case Option.bind (ops p) block_blob_upload of
        None \<Rightarrow> (SQLITE_OK, p, e)
      | Some upload \<Rightarrow>
          if nJrnlData p \<le> 0 then (SQLITE_OK, p, e)
          else
            case do_azure (upload (blob p) (heap_prefix (aJrnlData p) (nJrnlData p))) e of (arc, aerr, e) \<Rightarrow>
            if arc \<noteq> AZURE_OK then (SQLITE_IOERR_FSYNC, bump azure_errors_update 1 p, e)
            else
              let p = bump journal_uploads_update 1 p;
                  p = bump journal_bytes_uploaded_update (nJrnlData p) p;
                  p = bump blob_writes_update 1 p;
                  p = bump blob_bytes_written_update (nJrnlData p) p
              in (SQLITE_OK, p, journal_record (blob p) 1 e))"

section \<open>Database\<close>

text \<open>What an automatic variable of type \<^verbatim>\<open>azure_error_t\<close> holds before anything initialised it.\<close>

definition stack_error :: "'w env \<Rightarrow> azure_error" where
  "stack_error e = azure_error_init\<lparr>err_etag := c_str (replicate 127 (char_of (unat (heap_junk e))))\<rparr>"

definition sync_resize ::
  "'w sqliteObjsFile \<Rightarrow> azure_error \<Rightarrow> 'w env \<Rightarrow> sqlite_rc \<times> azure_error \<times> 'w sqliteObjsFile \<times> 'w env" where
  "sync_resize p aerr e =
     (case Option.bind (ops p) page_blob_resize of
        None \<Rightarrow> (SQLITE_OK, aerr, p, e)
      | Some resize \<Rightarrow>
          if nData p \<le> lastSyncedSize p then (SQLITE_OK, aerr, p, e)
          else
            case do_azure (resize (blob p) (align512 (nData p)) (lease_arg p)) e of (arc, aerr, e) \<Rightarrow>
            if arc \<noteq> AZURE_OK then (SQLITE_IOERR_FSYNC, aerr, bump azure_errors_update 1 p, e)
            else (SQLITE_OK, aerr, (bump blob_resizes_update 1 p)\<lparr>lastSyncedSize := nData p\<rparr>, e))"

text \<open>The 64 ranges on the stack first, then as many as there are dirty pages on the heap.\<close>

definition sync_ranges ::
  "'w sqliteObjsFile \<Rightarrow> 'w env \<Rightarrow> sqlite_rc \<times> azure_page_range list \<times> 'w env" where
  "sync_ranges p e =
     (case coalesceDirtyRanges p 64 of
        Some ranges \<Rightarrow> (SQLITE_OK, ranges, e)
      | None \<Rightarrow>
          (case sys_malloc (bm_nSet (dirty p) * 24) e of
             (None, e) \<Rightarrow> (SQLITE_NOMEM, [], e)
           | (Some _, e) \<Rightarrow>
               (case coalesceDirtyRanges p (bm_nSet (dirty p)) of
                  None \<Rightarrow> (SQLITE_IOERR_FSYNC, [], e)
                | Some ranges \<Rightarrow> (SQLITE_OK, ranges, e))))"

fun read_ranges_loop ::
  "azure_page_range list \<Rightarrow> 'w sqliteObjsFile \<Rightarrow> 'w env \<Rightarrow>
     sqlite_rc \<times> azure_page_range list \<times> 'w sqliteObjsFile \<times> 'w env" where
  "read_ranges_loop [] p e = (SQLITE_OK, [], p, e)"
| "read_ranges_loop (r # rs) p e =
     (case pread_fd (cacheFd p) (pr_len r) (pr_offset r) e of (nRead, d, e) \<Rightarrow>
      let p = bump disk_reads_update 1 p;
          p = bump disk_bytes_read_update (if nRead > 0 then nRead else 0) p in
      if nRead < 0 then (SQLITE_IOERR_FSYNC, [], p, e)
      else
        let buf = (if nRead < pr_len r then d @ replicate (nat (pr_len r - nRead)) 0 else d) in
        case read_ranges_loop rs p e of (rc, rs, p, e) \<Rightarrow> (rc, r\<lparr>pr_data := Some buf\<rparr> # rs, p, e))"

definition total_bytes :: "azure_page_range list \<Rightarrow> int" where
  "total_bytes ranges = sum_list (map pr_len ranges)"

definition sync_read ::
  "azure_page_range list \<Rightarrow> 'w sqliteObjsFile \<Rightarrow> 'w env \<Rightarrow>
     sqlite_rc \<times> azure_page_range list \<times> 'w sqliteObjsFile \<times> 'w env" where
  "sync_read ranges p e =
     (let totalRangeBytes = total_bytes ranges in
      if totalRangeBytes > 0
      then
        let e = (case cacheFd p of
                   None \<Rightarrow> e
                 | Some fd \<Rightarrow>
                     if ranges \<noteq> []
                     then let maxEnd = pr_offset (last ranges) + pr_len (last ranges) in
                          case sys_lseek_end fd e of (curSize, e) \<Rightarrow>
                          if 0 \<le> curSize \<and> curSize < maxEnd then snd (sys_ftruncate fd maxEnd e) else e
                     else e) in
        case sys_malloc totalRangeBytes e of
          (None, e) \<Rightarrow> (SQLITE_NOMEM, [], p, e)
        | (Some _, e) \<Rightarrow> read_ranges_loop ranges p e
      else (SQLITE_OK, ranges, p, e))"

definition if_match_arg :: "'w sqliteObjsFile \<Rightarrow> string option" where
  "if_match_arg p = (if hasLease p \<or> etag p = [] then None else Some (etag p))"

text \<open>The steps after a successful upload that both upload paths share.\<close>

definition sync_uploaded ::
  "int \<Rightarrow> azure_error \<Rightarrow> 'w sqliteObjsFile \<Rightarrow> 'w env \<Rightarrow> 'w sqliteObjsFile \<times> 'w env" where
  "sync_uploaded dirtyCount aerr p e =
     (let p = p\<lparr>lastSyncDirtyCount := dirtyCount\<rparr>;
          (p, e) = (if err_etag aerr \<noteq> []
                    then let p = p\<lparr>etag := err_etag aerr\<rparr> in
                         (p, if cacheReuse p \<and> zCachePath p \<noteq> None
                             then snd (writeEtagFile (zCachePath p) (etag p) e) else e)
                    else (p, e))
      in (p\<lparr>dirty := bitmapClearAll (dirty p)\<rparr>, e))"

definition sync_batch ::
  "(string \<Rightarrow> azure_page_range list \<Rightarrow> string option \<Rightarrow> string option \<Rightarrow> 'w azure_call) \<Rightarrow>
     azure_page_range list \<Rightarrow> int \<Rightarrow> 'w sqliteObjsFile \<Rightarrow> 'w env \<Rightarrow> sqlite_rc \<times> 'w sqliteObjsFile \<times> 'w env" where
  "sync_batch batch ranges dirtyCount p e =
     (case do_azure (batch (blob p) ranges (lease_arg p) (if_match_arg p)) e of (arc, aerr, e) \<Rightarrow>
      if arc \<noteq> AZURE_OK
      then (if arc = AZURE_ERR_PRECONDITION then SQLITE_BUSY else SQLITE_IOERR_FSYNC,
            bump azure_errors_update 1 p, e)
      else
        let p = bump blob_bytes_written_update (total_bytes ranges) (bump blob_writes_update 1 p) in
        case sync_uploaded dirtyCount aerr p e of (p, e) \<Rightarrow> (SQLITE_OK, p, e))"

fun seq_loop ::
  "(string \<Rightarrow> int \<Rightarrow> bytes \<Rightarrow> string option \<Rightarrow> string option \<Rightarrow> 'w azure_call) \<Rightarrow>
     azure_page_range list \<Rightarrow> nat \<Rightarrow> azure_error \<Rightarrow> 'w sqliteObjsFile \<Rightarrow> 'w env \<Rightarrow>
     sqlite_rc \<times> azure_error \<times> 'w sqliteObjsFile \<times> 'w env" where
  "seq_loop wr [] i aerr p e = (SQLITE_OK, aerr, p, e)"
| "seq_loop wr (r # rs) i aerr p e =
     (case (if hasLease p \<and> i > 0 \<and> i mod 50 = 0 then leaseRenewIfNeeded p e else (SQLITE_OK, p, e)) of
        (rc, p, e) \<Rightarrow>
      if rc \<noteq> SQLITE_OK then (fail_as rc SQLITE_IOERR_FSYNC, aerr, p, e)
      else
        case do_azure (wr (blob p) (pr_offset r) (case pr_data r of None \<Rightarrow> [] | Some d \<Rightarrow> d)
                        (lease_arg p) (if_match_arg p)) e of (arc, aerr, e) \<Rightarrow>
        if arc \<noteq> AZURE_OK
        then (if arc = AZURE_ERR_PRECONDITION then SQLITE_BUSY else SQLITE_IOERR_FSYNC, aerr,
              bump azure_errors_update 1 p, e)
        else
          let p = bump blob_bytes_written_update (pr_len r) (bump blob_writes_update 1 p)
          in seq_loop wr rs (Suc i) aerr p e)"

definition sync_seq ::
  "(string \<Rightarrow> int \<Rightarrow> bytes \<Rightarrow> string option \<Rightarrow> string option \<Rightarrow> 'w azure_call) \<Rightarrow>
     azure_page_range list \<Rightarrow> int \<Rightarrow> azure_error \<Rightarrow> 'w sqliteObjsFile \<Rightarrow> 'w env \<Rightarrow>
     sqlite_rc \<times> 'w sqliteObjsFile \<times> 'w env" where
  "sync_seq wr ranges dirtyCount aerr p e =
     (case seq_loop wr ranges 0 aerr p e of (rc, aerr, p, e) \<Rightarrow>
      if rc \<noteq> SQLITE_OK then (rc, p, e)
      else
        let e = e\<lparr>g_xread_count := 0, g_xread_journal_count := 0\<rparr> in
        case sync_uploaded dirtyCount aerr p e of (p, e) \<Rightarrow> (SQLITE_OK, p, e))"

text \<open>The batch write when the client has one, the sequential fallback otherwise.\<close>

definition sync_upload ::
  "(string \<Rightarrow> int \<Rightarrow> bytes \<Rightarrow> string option \<Rightarrow> string option \<Rightarrow> 'w azure_call) \<Rightarrow>
     azure_page_range list \<Rightarrow> int \<Rightarrow> azure_error \<Rightarrow> 'w sqliteObjsFile \<Rightarrow> 'w env \<Rightarrow>
     sqlite_rc \<times> 'w sqliteObjsFile \<times> 'w env" where
  "sync_upload wr ranges dirtyCount aerr p e =
     (case Option.bind (ops p) page_blob_write_batch of
        Some batch \<Rightarrow> sync_batch batch ranges dirtyCount p e
      | None \<Rightarrow> sync_seq wr ranges dirtyCount aerr p e)"

text \<open>The label \<^verbatim>\<open>sync_create_snapshot\<close> and what follows it.\<close>

definition sync_snapshot :: "'w sqliteObjsFile \<Rightarrow> 'w env \<Rightarrow> 'w sqliteObjsFile \<times> 'w env" where
  "sync_snapshot p e =
     (let (p, e) = (case (cacheReuse p, Option.bind (ops p) blob_snapshot_create) of
                      (True, Some snap) \<Rightarrow>
                        (case call_azure (snap (blob p)) e of (snap_rc, snap, snap_err, e) \<Rightarrow>
                         (if snap_rc = AZURE_OK \<and> snap \<noteq> [] then p\<lparr>snapshot := snap\<rparr> else p, e))
                    | _ \<Rightarrow> (p, e))
      in if cacheReuse p \<and> bm_data (valid p) \<noteq> None \<and> bm_nAlloc (valid p) > 0 \<and> zCachePath p \<noteq> None
         then (p, snd (writeStateFile (zCachePath p) (pageSize p) (nData p) (bm_data (valid p))
                         (bm_nAlloc (valid p)) e))
         else (p, e))"

definition sync_db :: "'w sqliteObjsFile \<Rightarrow> 'w env \<Rightarrow> sqlite_rc \<times> 'w sqliteObjsFile \<times> 'w env" where
  "sync_db p e =
     (if bm_nSet (dirty p) = 0 then (SQLITE_OK, p, e)
      else case Option.bind (ops p) page_blob_write of
        None \<Rightarrow> (SQLITE_IOERR_FSYNC, p, e)
      | Some wr \<Rightarrow>
          let p = bump syncs_update 1 p;
              dirtyCountBeforeSync = bm_nSet (dirty p);
              p = bump dirty_pages_synced_update dirtyCountBeforeSync p in
          case leaseRenewIfNeeded p e of (rc, p, e) \<Rightarrow>
          if rc \<noteq> SQLITE_OK then (fail_as rc SQLITE_IOERR_FSYNC, p, e)
          else case sync_resize p (stack_error e) e of (rc, aerr, p, e) \<Rightarrow>
          if rc \<noteq> SQLITE_OK then (rc, p, e)
          else case sync_ranges p e of (rc, ranges, e) \<Rightarrow>
          if rc \<noteq> SQLITE_OK then (rc, p, e)
          else case sync_read ranges p e of (rc, ranges, p, e) \<Rightarrow>
          if rc \<noteq> SQLITE_OK then (rc, p, e)
          else
            case sync_upload wr ranges dirtyCountBeforeSync aerr p e of (rc, p, e) \<Rightarrow>
            if rc \<noteq> SQLITE_OK then (rc, p, e)
            else case sync_snapshot p e of (p, e) \<Rightarrow> (SQLITE_OK, p, e))"

definition sqliteObjsSync :: "'w sqliteObjsFile \<Rightarrow> 'w env \<Rightarrow> sqlite_rc \<times> 'w sqliteObjsFile \<times> 'w env" where
  "sqliteObjsSync p e =
     (case eFileType p of
        WAL \<Rightarrow> sync_wal p e
      | MAIN_JOURNAL \<Rightarrow> sync_journal p e
      | MAIN_DB \<Rightarrow> sync_db p e)"

section \<open>What coalescing computes\<close>

lemma dirty_run_spec:
  assumes "dirty_run bm n ps i r = (j, m)" and "0 < ps" and "ps dvd 4194304" and "r * ps < 4194304"
  shows "r \<le> m \<and> m * ps \<le> 4194304 \<and> j = i + (m - r) - (if 4194304 \<le> m * ps then 1 else 0) \<and>
    (\<forall>k. i \<le> k \<and> k < i + (m - r) \<longrightarrow> k < n \<and> bitmapTestBit bm k)"
  using assms
proof (induction bm n ps i r rule: dirty_run.induct)
  case (1 bm n ps i r)
  note prems = "1.prems"
  obtain q where q: "4194304 = ps * q" using prems(3) by (rule dvdE)
  have next_le: "(r + 1) * ps \<le> 4194304"
  proof -
    have "r < q" using prems(2,4) q by (simp add: mult.commute)
    then have "(r + 1) * ps \<le> q * ps" using prems(2) by (intro mult_right_mono) auto
    then show ?thesis using q by (simp add: mult.commute)
  qed
  show ?case
  proof (cases "i < n \<and> bitmapTestBit bm i")
    case False
    then have "j = i" "m = r" using prems(1) by (auto simp: dirty_run.simps [of bm n ps i r] split: if_splits)
    then show ?thesis using prems(4) by auto
  next
    case hit: True
    show ?thesis
    proof (cases "4194304 \<le> (r + 1) * ps")
      case True
      then have "j = i" "m = r + 1" using prems(1) hit by (simp_all add: dirty_run.simps [of bm n ps i r] Let_def)
      moreover have "k = i" if "i \<le> k" "k < i + 1" for k using that by simp
      ultimately show ?thesis using True next_le hit by auto
    next
      case False
      then have run: "dirty_run bm n ps (i + 1) (r + 1) = (j, m)"
        using prems(1) hit by (simp add: dirty_run.simps [of bm n ps i r] Let_def)
      from "1.IH" [OF hit refl refl _ run prems(2,3)] False
      have ih: "r + 1 \<le> m" "m * ps \<le> 4194304" "j = i + 1 + (m - (r + 1)) - (if 4194304 \<le> m * ps then 1 else 0)"
        "\<forall>k. i + 1 \<le> k \<and> k < i + 1 + (m - (r + 1)) \<longrightarrow> k < n \<and> bitmapTestBit bm k"
        by auto
      have "k < n \<and> bitmapTestBit bm k" if "i \<le> k" "k < i + (m - r)" for k
        using ih(4) hit that by (cases "k = i") auto
      then show ?thesis using ih(1-3) by auto
    qed
  qed
qed

lemma dirty_run_next_spec:
  assumes "i < n" and "bitmapTestBit bm i" and "0 < ps" and "ps dvd 4194304"
  obtains m where "dirty_run_next bm n ps i = (i + m, m)" "1 \<le> m" "i + m \<le> n" "m * ps \<le> 4194304"
    "\<And>k. i \<le> k \<Longrightarrow> k < i + m \<Longrightarrow> bitmapTestBit bm k"
proof -
  obtain j m where jm: "dirty_run bm n ps i 0 = (j, m)" by (cases "dirty_run bm n ps i 0")
  note s = dirty_run_spec [OF jm assms(3,4), simplified]
  note c = dirty_run_cases [OF jm]
  have m0: "m \<noteq> 0"
  proof
    assume "m = 0"
    then have "j = i" using s by simp
    with c assms(1,2) \<open>m = 0\<close> show False by simp
  qed
  with s have m1: "1 \<le> m" by simp
  have nxt: "dirty_run_next bm n ps i = (i + m, m)"
  proof (cases "4194304 \<le> m * ps")
    case True
    then have j: "j = i + m - 1" using s by simp
    then have "j < n \<and> bitmapTestBit bm j" using s m1 by auto
    then show ?thesis using jm True j by (simp add: dirty_run_next_def)
  next
    case False
    then have j: "j = i + m" using s by simp
    then have "\<not> (j < n \<and> bitmapTestBit bm j)" using c False by auto
    then show ?thesis using jm j by (auto simp: dirty_run_next_def)
  qed
  have "i + m - 1 < n" using s m1 by auto
  then show ?thesis by (intro that [OF nxt m1]) (use s in auto)
qed

text \<open>\<open>page_run p nP r s m\<close>: the range \<open>r\<close> is the run of the \<open>m\<close> dirty pages from page \<open>s\<close> on. \<open>page_runs p nP i rs\<close>:
  the ranges \<open>rs\<close> are, in this order, all the runs from page \<open>i\<close> on.\<close>

definition page_run :: "'w sqliteObjsFile \<Rightarrow> int \<Rightarrow> azure_page_range \<Rightarrow> int \<Rightarrow> int \<Rightarrow> bool" where
  "page_run p nP r s m \<longleftrightarrow>
     r = \<lparr>pr_offset = s * pageSize p, pr_data = None,
          pr_len = align512 (min (nData p) ((s + m) * pageSize p) - s * pageSize p)\<rparr> \<and>
     1 \<le> m \<and> s + m \<le> nP \<and> m * pageSize p \<le> 4194304 \<and> {s..<s + m} \<subseteq> pages (dirty p)"

fun page_runs :: "'w sqliteObjsFile \<Rightarrow> int \<Rightarrow> int \<Rightarrow> azure_page_range list \<Rightarrow> bool" where
  "page_runs p nP i [] \<longleftrightarrow> {i..<nP} \<inter> pages (dirty p) = {}"
| "page_runs p nP i (r # rs) \<longleftrightarrow>
     (\<exists>s m. i \<le> s \<and> {i..<s} \<inter> pages (dirty p) = {} \<and> page_run p nP r s m \<and> page_runs p nP (s + m) rs)"

lemma page_runs_skip:
  assumes "i \<notin> pages (dirty p)" and "page_runs p nP (i + 1) rs"
  shows "page_runs p nP i rs"
proof (cases rs)
  case Nil
  have "{i..<nP} \<subseteq> insert i {i + 1..<nP}" by auto
  then show ?thesis using assms Nil by auto
next
  case (Cons r rs')
  then obtain s m where "i + 1 \<le> s" "{i + 1..<s} \<inter> pages (dirty p) = {}" "page_run p nP r s m"
    "page_runs p nP (s + m) rs'" using assms(2) by auto
  moreover have "{i..<s} \<subseteq> insert i {i + 1..<s}" by auto
  ultimately have "i \<le> s \<and> {i..<s} \<inter> pages (dirty p) = {} \<and> page_run p nP r s m \<and> page_runs p nP (s + m) rs'"
    using assms(1) by auto
  then show ?thesis using Cons by auto
qed

lemma coalesce_loop_spec:
  assumes "coalesce_loop p nP mx i acc = Some rs" and "0 \<le> i" and "0 < pageSize p" and "pageSize p dvd 4194304"
  shows "\<exists>new. rs = acc @ new \<and> page_runs p nP i new"
  using assms
proof (induction p nP mx i acc rule: coalesce_loop.induct)
  case (1 p nP mx i acc)
  note prems = "1.prems" and un = coalesce_loop.simps [of p nP mx i acc]
  consider (finished) "\<not> i < nP" | (clean) "i < nP" "\<not> bitmapTestBit (dirty p) i" | (run) "i < nP" "bitmapTestBit (dirty p) i"
    by blast
  then show ?case
  proof cases
    case finished
    then show ?thesis using prems(1) un by simp
  next
    case clean
    then have "coalesce_loop p nP mx (i + 1) acc = Some rs" using prems(1) un by simp
    from "1.IH"(1) [OF _ _ this] clean prems obtain new where "rs = acc @ new" "page_runs p nP (i + 1) new"
      by auto
    moreover have "i \<notin> pages (dirty p)" using clean by (simp add: pages_def)
    ultimately show ?thesis using page_runs_skip by blast
  next
    case run
    obtain m where m: "dirty_run_next (dirty p) nP (pageSize p) i = (i + m, m)" "1 \<le> m" "i + m \<le> nP"
      "m * pageSize p \<le> 4194304" "\<And>k. i \<le> k \<Longrightarrow> k < i + m \<Longrightarrow> bitmapTestBit (dirty p) k"
      using dirty_run_next_spec [OF run prems(3,4)] by metis
    define r where "r = \<lparr>pr_offset = i * pageSize p, pr_data = None,
      pr_len = align512 (min (nData p) ((i + m) * pageSize p) - i * pageSize p)\<rparr>"
    have mn: "(if nData p < i * pageSize p + m * pageSize p then nData p else i * pageSize p + m * pageSize p) =
      min (nData p) ((i + m) * pageSize p)" by (simp add: min_def distrib_right)
    have go: "coalesce_loop p nP mx (i + m) (acc @ [r]) = Some rs" and small: "\<not> mx \<le> int (length acc)"
      using prems(1) un run m(1) mn by (simp_all add: r_def Let_def split: if_splits)
    have "page_run p nP r i m"
      using m(2-5) prems(2) by (auto simp: page_run_def r_def pages_def)
    moreover obtain new where "rs = (acc @ [r]) @ new" "page_runs p nP (i + m) new"
      using "1.IH"(2) [OF _ _ refl m(1) [symmetric] refl refl refl refl, unfolded mn, folded r_def, OF _ _ small go] run prems(2-4) m(2)
      by auto
    ultimately have "rs = acc @ r # new \<and> page_runs p nP i (r # new)" by auto
    then show ?thesis by blast
  qed
qed

text \<open>The number of ranges never exceeds the number of dirty pages left to look at.\<close>

lemma coalesce_loop_enough:
  assumes "int (length acc) + int (card ({i..<nP} \<inter> pages (dirty p))) \<le> mx" and "0 \<le> i" and "0 < pageSize p"
    and "pageSize p dvd 4194304"
  shows "coalesce_loop p nP mx i acc \<noteq> None"
  using assms
proof (induction p nP mx i acc rule: coalesce_loop.induct)
  case (1 p nP mx i acc)
  note prems = "1.prems" and un = coalesce_loop.simps [of p nP mx i acc]
  consider (finished) "\<not> i < nP" | (clean) "i < nP" "\<not> bitmapTestBit (dirty p) i" | (run) "i < nP" "bitmapTestBit (dirty p) i"
    by blast
  then show ?case
  proof cases
    case finished
    then show ?thesis using un by simp
  next
    case clean
    have "{i + 1..<nP} \<inter> pages (dirty p) \<subseteq> {i..<nP} \<inter> pages (dirty p)" by auto
    then have "card ({i + 1..<nP} \<inter> pages (dirty p)) \<le> card ({i..<nP} \<inter> pages (dirty p))"
      by (rule card_mono [rotated]) simp
    then have "coalesce_loop p nP mx (i + 1) acc \<noteq> None"
      using "1.IH"(1) [OF _ clean(2)] clean(1) prems by simp
    then show ?thesis using clean un by simp
  next
    case run
    obtain m where m: "dirty_run_next (dirty p) nP (pageSize p) i = (i + m, m)" "1 \<le> m"
      using dirty_run_next_spec [OF run prems(3,4)] by metis
    define rest where "rest = {i + m..<nP} \<inter> pages (dirty p)"
    have "insert i rest \<subseteq> {i..<nP} \<inter> pages (dirty p)" and "i \<notin> rest" and "finite rest"
      using run prems(2) m(2) by (auto simp: rest_def pages_def)
    then have c: "card rest + 1 \<le> card ({i..<nP} \<inter> pages (dirty p))"
      using card_mono [of "{i..<nP} \<inter> pages (dirty p)" "insert i rest"] by simp
    then have "\<not> mx \<le> int (length acc)" using prems(1) by linarith
    moreover from c have "coalesce_loop p nP mx (i + m) (acc @ [r]) \<noteq> None" if "r = \<lparr>pr_offset = i * pageSize p, pr_data = None,
        pr_len = align512 ((if nData p < i * pageSize p + m * pageSize p then nData p else i * pageSize p + m * pageSize p) - i * pageSize p)\<rparr>" for r
      using "1.IH"(2) [OF _ _ refl m(1) [symmetric] refl refl refl refl \<open>\<not> mx \<le> int (length acc)\<close>] run prems m(2) that
      unfolding rest_def by (simp add: rest_def)
    ultimately show ?thesis using run un m(1) by (simp add: Let_def)
  qed
qed

lemma coalesce_fits_nSet:
  assumes "bm_ok (dirty p)" and "0 < pageSize p" and "pageSize p dvd 4194304"
  shows "coalesceDirtyRanges p (bm_nSet (dirty p)) \<noteq> None"
proof -
  have "card ({0..<n} \<inter> pages (dirty p)) \<le> card (pages (dirty p))" for n by (rule card_mono) auto
  then show ?thesis
    using assms coalesce_loop_enough [of "[]" 0 _ p "bm_nSet (dirty p)"]
    by (simp add: coalesceDirtyRanges_def bm_ok_def Let_def)
qed

section \<open>Ranges as sets of bytes\<close>

lemma align512_mod: "align512 n = n + 511 - (n + 511) mod 512"
proof -
  have "(n + 511) AND NOT (mask 9) = push_bit 9 (drop_bit 9 (n + 511))"
    by (rule bit_eqI) (auto simp: bit_and_iff bit_not_iff bit_mask_iff bit_push_bit_iff bit_drop_bit_eq)
  then have "align512 n = 512 * ((n + 511) div 512)"
    by (simp add: align512_def mask_eq_exp_minus_1 push_bit_eq_mult drop_bit_eq_div)
  then show ?thesis by (simp add: minus_mod_eq_mult_div)
qed

lemma align512_bounds: "n \<le> align512 n" "align512 n < n + 512" "512 dvd align512 n"
  using pos_mod_bound [of 512 "n + 511"] pos_mod_sign [of 512 "n + 511"]
  unfolding align512_mod by (simp_all add: dvd_minus_mod)

lemma align512_mono: "a \<le> b \<Longrightarrow> align512 a \<le> align512 b"
  unfolding align512_mod minus_mod_eq_mult_div by (simp add: zdiv_mono1)

lemma align512_dvd: "512 dvd n \<Longrightarrow> align512 n = n"
  unfolding align512_mod by (elim dvdE) simp

lemma align512_shift: "512 dvd d \<Longrightarrow> align512 (n - d) = align512 n - d"
proof -
  assume "512 dvd d"
  then obtain q where q: "d = 512 * q" by (rule dvdE)
  have "n - d + 511 = n + 511 + 512 * (- q)" by (simp add: q)
  then have "(n - d + 511) mod 512 = (n + 511) mod 512" by (simp only: mod_mult_self2)
  then show ?thesis unfolding align512_mod by simp
qed

text \<open>The bytes of a file that its dirty pages hold, in a page size the code accepts.\<close>

definition page_geometry :: "'w sqliteObjsFile \<Rightarrow> bool" where
  "page_geometry p \<longleftrightarrow>
     0 < pageSize p \<and> 512 dvd pageSize p \<and> pageSize p dvd 4194304 \<and> 0 < nData p \<and>
     nData p < 2147483640 * pageSize p"

definition page_count :: "'w sqliteObjsFile \<Rightarrow> int" where
  "page_count p = (nData p + pageSize p - 1) div pageSize p"

lemma le_div_iff: "0 < b \<Longrightarrow> a \<le> x div b \<longleftrightarrow> a * b \<le> x" for a b x :: int
proof
  assume b: "0 < b" and "a \<le> x div b"
  then have "a * b \<le> x div b * b" by (intro mult_right_mono) simp_all
  also have "\<dots> \<le> x" using b pos_mod_sign [of b x] by (simp add: minus_mod_eq_div_mult [symmetric])
  finally show "a * b \<le> x" .
next
  assume b: "0 < b" and "a * b \<le> x"
  then have "a * b div b \<le> x div b" by (intro zdiv_mono1)
  then show "a \<le> x div b" using b by simp
qed

lemma page_count_iff:
  "0 < pageSize p \<Longrightarrow> i < page_count p \<longleftrightarrow> i * pageSize p < nData p"
proof -
  assume ps: "0 < pageSize p"
  have "i < page_count p \<longleftrightarrow> i + 1 \<le> (nData p + pageSize p - 1) div pageSize p" by (auto simp: page_count_def)
  also have "\<dots> \<longleftrightarrow> (i + 1) * pageSize p \<le> nData p + pageSize p - 1"
    using ps by (rule le_div_iff)
  finally show ?thesis by (simp add: distrib_right)
qed

lemma page_run_bytes:
  assumes "page_run p (page_count p) r s m" and "page_geometry p" and "0 \<le> s"
  shows "pr_offset r = s * pageSize p" "pr_offset r + pr_len r = align512 (min (nData p) ((s + m) * pageSize p))"
    "s * pageSize p < nData p" "0 < pr_len r" "512 dvd pr_len r" "pr_len r \<le> 4194304"
    "pr_offset r + pr_len r \<le> (s + m) * pageSize p" "pr_offset r + pr_len r \<le> align512 (nData p)"
proof -
  have g: "0 < pageSize p" "512 dvd pageSize p" using assms(2) by (simp_all add: page_geometry_def)
  have r: "pr_offset r = s * pageSize p"
    "pr_len r = align512 (min (nData p) ((s + m) * pageSize p) - s * pageSize p)"
    "1 \<le> m" "s + m \<le> page_count p" "m * pageSize p \<le> 4194304"
    using assms(1) by (simp_all add: page_run_def)
  show "pr_offset r = s * pageSize p" by (rule r)
  have "512 dvd s * pageSize p" and dm: "512 dvd (s + m) * pageSize p" using g(2) by simp_all
  then have l: "pr_len r = align512 (min (nData p) ((s + m) * pageSize p)) - s * pageSize p"
    using r(2) align512_shift by simp
  then show e: "pr_offset r + pr_len r = align512 (min (nData p) ((s + m) * pageSize p))" using r(1) by simp
  have "s < page_count p" using r(3,4) by linarith
  then show lt: "s * pageSize p < nData p" using g(1) by (simp add: page_count_iff)
  moreover have "s * pageSize p < (s + m) * pageSize p" using g(1) r(3) by simp
  ultimately have "0 < min (nData p) ((s + m) * pageSize p) - s * pageSize p" by simp
  then show "0 < pr_len r" using r(2) align512_bounds(1) by (metis less_le_trans)
  show "512 dvd pr_len r" using r(2) align512_bounds(3) by simp
  have "align512 (min (nData p) ((s + m) * pageSize p)) \<le> align512 ((s + m) * pageSize p)" by (rule align512_mono) simp
  then show "pr_offset r + pr_len r \<le> (s + m) * pageSize p" using e align512_dvd [OF dm] by simp
  then show "pr_len r \<le> 4194304" using r(1,5) by (simp add: distrib_right)
  show "pr_offset r + pr_len r \<le> align512 (nData p)" unfolding e by (rule align512_mono) simp
qed

lemma page_of_byte:
  assumes "page_geometry p" and "0 \<le> s"
  shows "s * pageSize p \<le> k \<and> k < (s + m) * pageSize p \<longleftrightarrow> k div pageSize p \<in> {s..<s + m}"
proof -
  have "0 < pageSize p" using assms by (simp add: page_geometry_def)
  then show ?thesis using le_div_iff [of "pageSize p" s k] le_div_iff [of "pageSize p" "s + m" k] by auto
qed

lemma page_runs_shape:
  assumes "page_runs p (page_count p) i rs" and "page_geometry p" and "0 \<le> i"
  shows "\<forall>r \<in> set rs. i * pageSize p \<le> pr_offset r \<and> pageSize p dvd pr_offset r \<and> 0 < pr_len r \<and> 512 dvd pr_len r \<and>
      pr_len r \<le> 4194304 \<and> pr_offset r + pr_len r \<le> align512 (nData p) \<and> pr_data r = None"
  using assms
proof (induction rs arbitrary: i)
  case (Cons r rs)
  then obtain s m where s: "i \<le> s" "page_run p (page_count p) r s m" "page_runs p (page_count p) (s + m) rs" by auto
  have m: "1 \<le> m" "pr_data r = None" using s(2) by (simp_all add: page_run_def)
  have ps: "0 \<le> pageSize p" and s0: "0 \<le> s" using Cons.prems s(1) by (simp_all add: page_geometry_def)
  have "i * pageSize p \<le> s * pageSize p" "i * pageSize p \<le> (s + m) * pageSize p"
    using ps s(1) m by (simp_all add: mult_right_mono)
  with Cons.IH [OF s(3) Cons.prems(2)] page_run_bytes [OF s(2) Cons.prems(2) s0] s0 m show ?case
    by fastforce
qed simp

lemma page_runs_sorted:
  assumes "page_runs p (page_count p) i rs" and "page_geometry p" and "0 \<le> i"
  shows "sorted_wrt (\<lambda>r r'. pr_offset r + pr_len r \<le> pr_offset r') rs"
  using assms
proof (induction rs arbitrary: i)
  case (Cons r rs)
  then obtain s m where s: "i \<le> s" "page_run p (page_count p) r s m" "page_runs p (page_count p) (s + m) rs" by auto
  have s0: "0 \<le> s" "0 \<le> s + m" using Cons.prems s(1,2) by (simp_all add: page_run_def)
  have "pr_offset r + pr_len r \<le> pr_offset r'" if "r' \<in> set rs" for r'
    using that page_runs_shape [OF s(3) Cons.prems(2) s0(2)] page_run_bytes(7) [OF s(2) Cons.prems(2) s0(1)] by force
  then show ?case using Cons.IH [OF s(3) Cons.prems(2) s0(2)] by simp
qed simp

lemma page_runs_cover:
  assumes "page_runs p (page_count p) i rs" and "page_geometry p" and "0 \<le> i"
    and "i * pageSize p \<le> k" and "k < nData p"
  shows "(\<exists>r \<in> set rs. pr_offset r \<le> k \<and> k < pr_offset r + pr_len r) \<longleftrightarrow> k div pageSize p \<in> pages (dirty p)"
  using assms
proof (induction rs arbitrary: i)
  case Nil
  have ps: "0 < pageSize p" using Nil by (simp add: page_geometry_def)
  have "k div pageSize p < page_count p"
    using ps Nil.prems le_div_iff [OF ps, of "k div pageSize p" k] by (simp add: page_count_iff)
  moreover have "i \<le> k div pageSize p" using Nil.prems ps by (simp add: le_div_iff)
  ultimately show ?case using Nil.prems(1) by auto
next
  case (Cons r rs)
  then obtain s m where s: "i \<le> s" "{i..<s} \<inter> pages (dirty p) = {}" "page_run p (page_count p) r s m"
    "page_runs p (page_count p) (s + m) rs" by auto
  have s0: "0 \<le> s" "0 \<le> s + m" and m: "{s..<s + m} \<subseteq> pages (dirty p)" using Cons.prems s by (simp_all add: page_run_def)
  have ps: "0 < pageSize p" using Cons.prems by (simp add: page_geometry_def)
  note b = page_run_bytes [OF s(3) Cons.prems(2) s0(1)]
  have later: "(s + m) * pageSize p \<le> pr_offset r'" if "r' \<in> set rs" for r'
    using that page_runs_shape [OF s(4) Cons.prems(2) s0(2)] by simp
  have in_r: "pr_offset r \<le> k \<and> k < pr_offset r + pr_len r \<longleftrightarrow> k div pageSize p \<in> {s..<s + m}"
    using page_of_byte [OF Cons.prems(2) s0(1), of k m] b(1,2) Cons.prems(5)
      align512_bounds(1) [of "min (nData p) ((s + m) * pageSize p)"] b(7) by auto
  have i: "i \<le> k div pageSize p" using Cons.prems(4) ps by (simp add: le_div_iff)
  consider (below) "k div pageSize p < s" | (here) "k div pageSize p \<in> {s..<s + m}" | (above) "s + m \<le> k div pageSize p"
    by fastforce
  then show ?case
  proof cases
    case below
    then have "k < s * pageSize p" using le_div_iff [OF ps, of s k] by linarith
    moreover have "s * pageSize p \<le> (s + m) * pageSize p" using s(3) ps by (simp add: page_run_def)
    ultimately have "\<not> (\<exists>r' \<in> set (r # rs). pr_offset r' \<le> k)" using later b(1) by force
    moreover have "k div pageSize p \<notin> pages (dirty p)" using below i s(2) by auto
    ultimately show ?thesis by blast
  next
    case here
    then show ?thesis using in_r m by auto
  next
    case above
    then have "(s + m) * pageSize p \<le> k" using ps by (simp add: le_div_iff)
    with Cons.IH [OF s(4) Cons.prems(2) s0(2) _ Cons.prems(5)] in_r above show ?thesis by auto
  qed
qed

lemma page_count_int: "page_geometry p \<Longrightarrow> c_int (c_div (nData p + pageSize p - 1) (pageSize p)) = page_count p"
proof -
  assume g: "page_geometry p"
  then have ps: "0 < pageSize p" "0 < nData p" "nData p < 2147483640 * pageSize p" by (simp_all add: page_geometry_def)
  then have "0 \<le> page_count p" by (simp add: page_count_def pos_imp_zdiv_nonneg_iff)
  moreover have "\<not> 2147483640 < page_count p" using ps by (simp add: page_count_iff)
  ultimately show ?thesis using ps by (simp add: page_count_def)
qed

lemma nSet_zero_iff: "bm_ok bm \<Longrightarrow> bm_nSet bm = 0 \<longleftrightarrow> pages bm = {}"
  by (simp add: bm_ok_def)

lemma pages_no_data: "bm_data bm = None \<Longrightarrow> pages bm = {}"
  by (simp add: pages_def bitmapTestBit_def)

lemma coalesce_runs:
  assumes "coalesceDirtyRanges p mx = Some rs" and "bm_ok (dirty p)" and "page_geometry p"
  shows "page_runs p (page_count p) 0 rs"
proof (cases "bm_nSet (dirty p) = 0 \<or> bm_data (dirty p) = None")
  case True
  then have "pages (dirty p) = {}" using assms(2) nSet_zero_iff pages_no_data by blast
  moreover have "rs = []" using assms(1) True by (auto simp: coalesceDirtyRanges_def split: if_splits)
  ultimately show ?thesis by simp
next
  case False
  have g: "0 < pageSize p" "pageSize p dvd 4194304" "0 < nData p" using assms(3) by (simp_all add: page_geometry_def)
  then have "coalesce_loop p (page_count p) mx 0 [] = Some rs"
    using assms(1) False page_count_int [OF assms(3)] by (auto simp: coalesceDirtyRanges_def Let_def)
  from coalesce_loop_spec [OF this _ g(1,2)] show ?thesis by simp
qed

text \<open>C7 The ranges \<^verbatim>\<open>coalesceDirtyRanges\<close> hands to the upload cover exactly the dirty bytes of the file: as many entries as
  there are dirty pages are always enough; the ranges are in order and disjoint, start on page boundaries, are
  not empty, are multiples of 512 bytes of at most 4 MiB and end within the 512-aligned file size; and a byte of
  the file lies in one of them just when its page is dirty.\<close>

theorem coalesce_exact_cover:
  assumes "bm_ok (dirty p)" and "page_geometry p"
  shows "\<exists>rs. coalesceDirtyRanges p (bm_nSet (dirty p)) = Some rs \<and>
    sorted_wrt (\<lambda>r r'. pr_offset r + pr_len r \<le> pr_offset r') rs \<and>
    list_all (\<lambda>r. 0 \<le> pr_offset r \<and> pageSize p dvd pr_offset r \<and> 0 < pr_len r \<and> 512 dvd pr_len r \<and>
      pr_len r \<le> 4194304 \<and> pr_offset r + pr_len r \<le> align512 (nData p)) rs \<and>
    (\<forall>k \<in> {0..<nData p}. (\<exists>r \<in> set rs. pr_offset r \<le> k \<and> k < pr_offset r + pr_len r) \<longleftrightarrow>
      k div pageSize p \<in> pages (dirty p))"
proof -
  have "0 < pageSize p" "pageSize p dvd 4194304" using assms(2) by (simp_all add: page_geometry_def)
  from coalesce_fits_nSet [OF assms(1) this] obtain rs where
    rs: "coalesceDirtyRanges p (bm_nSet (dirty p)) = Some rs" by blast
  note runs = coalesce_runs [OF rs assms]
  have "list_all (\<lambda>r. 0 \<le> pr_offset r \<and> pageSize p dvd pr_offset r \<and> 0 < pr_len r \<and> 512 dvd pr_len r \<and>
      pr_len r \<le> 4194304 \<and> pr_offset r + pr_len r \<le> align512 (nData p)) rs"
    using page_runs_shape [OF runs assms(2)] by (simp add: list_all_iff)
  moreover have "\<forall>k \<in> {0..<nData p}. (\<exists>r \<in> set rs. pr_offset r \<le> k \<and> k < pr_offset r + pr_len r) \<longleftrightarrow>
      k div pageSize p \<in> pages (dirty p)"
    using page_runs_cover [OF runs assms(2)] by simp
  ultimately show ?thesis using rs page_runs_sorted [OF runs assms(2)] by blast
qed

definition sample_dirty :: "unit sqliteObjsFile" where
  "sample_dirty = sample_db\<lparr>nData := 1300,
     dirty := bitmapSetBit (bitmapSetBit \<lparr>bm_data = Some [0], bm_nSet = 0, bm_nAlloc = 1\<rparr> 0) 2\<rparr>"

lemma bm_ok_byte: "bm_ok \<lparr>bm_data = Some [0], bm_nSet = 0, bm_nAlloc = 1\<rparr>"
  using bm_ok_clearAll [of "\<lparr>bm_data = Some [0], bm_nSet = 0, bm_nAlloc = 1\<rparr>"]
  by (simp add: bm_shape_def bitmapClearAll_def)

lemma sample_dirty_ok: "bm_ok (dirty sample_dirty)"
  using bm_ok_byte by (simp add: sample_dirty_def bm_ok_setBit)

theorem coalesce_exact_cover_witness:
  "\<exists>rs. coalesceDirtyRanges sample_dirty 2 = Some rs \<and>
    sorted_wrt (\<lambda>r r'. pr_offset r + pr_len r \<le> pr_offset r') rs \<and>
    (\<forall>k \<in> {0..<1300}. (\<exists>r \<in> set rs. pr_offset r \<le> k \<and> k < pr_offset r + pr_len r) \<longleftrightarrow>
      k div 512 \<in> pages (dirty sample_dirty))"
proof -
  have g: "page_geometry sample_dirty"
    by (simp add: page_geometry_def sample_dirty_def sample_db_def)
  have n: "bm_nSet (dirty sample_dirty) = 2" "nData sample_dirty = 1300" "pageSize sample_dirty = 512"
    by (simp_all add: sample_dirty_def sample_db_def bitmapSetBit_def bit_mask_def Let_def)
  show ?thesis using coalesce_exact_cover [OF sample_dirty_ok g] unfolding n by blast
qed

section \<open>What a sync keeps\<close>

text \<open>Everything of a database file except the lease clock, the synced size and the counters.\<close>

definition same_db :: "'w sqliteObjsFile \<Rightarrow> 'w sqliteObjsFile \<Rightarrow> bool" where
  "same_db p p' \<longleftrightarrow>
     ops p' = ops p \<and> zBlobName p' = zBlobName p \<and> cacheFd p' = cacheFd p \<and> zCachePath p' = zCachePath p \<and>
     nData p' = nData p \<and> dirty p' = dirty p \<and> pageSize p' = pageSize p \<and> valid p' = valid p \<and>
     prefetchMode p' = prefetchMode p \<and> eFileType p' = eFileType p \<and> leaseId p' = leaseId p \<and>
     cacheReuse p' = cacheReuse p \<and> etag p' = etag p \<and> eLock p' = eLock p"

lemma same_db_refl [simp]: "same_db p p"
  by (simp add: same_db_def)

lemma same_db_trans: "same_db p q \<Longrightarrow> same_db q r \<Longrightarrow> same_db p r"
  by (simp add: same_db_def)

lemma same_db_upd [simp]:
  "same_db p (bump u k q) = same_db p q" "same_db (bump u k p) q = same_db p q"
  "same_db p (q\<lparr>leaseAcquiredAt := t\<rparr>) = same_db p q" "same_db p (q\<lparr>lastSyncedSize := n\<rparr>) = same_db p q"
  by (simp_all add: same_db_def)

lemma same_db_fields:
  assumes "same_db p p'"
  shows "ops p' = ops p" "cacheFd p' = cacheFd p" "nData p' = nData p" "dirty p' = dirty p" "pageSize p' = pageSize p"
    "blob p' = blob p" "lease_arg p' = lease_arg p" "hasLease p' = hasLease p" "etag p' = etag p"
    "page_geometry p' = page_geometry p" "cacheReuse p' = cacheReuse p" "eFileType p' = eFileType p"
    "prefetchMode p' = prefetchMode p" "zCachePath p' = zCachePath p" "valid p' = valid p" "db_file p' e = db_file p e"
    "leaseId p' = leaseId p"
  using assms
  by (simp_all add: same_db_def blob_def lease_arg_def hasLease_def page_geometry_def db_file_def)

text \<open>Everything of the environment except the remote side and the clock.\<close>

definition same_local :: "'w env \<Rightarrow> 'w env \<Rightarrow> bool" where
  "same_local e e' \<longleftrightarrow> fs e' = fs e \<and> faults e' = faults e \<and> vfs_data e' = vfs_data e"

lemma same_local_refl [simp]: "same_local e e"
  by (simp add: same_local_def)

lemma same_local_trans: "same_local e f \<Longrightarrow> same_local f g \<Longrightarrow> same_local e g"
  by (simp add: same_local_def)

lemma same_local_azure: "do_azure f e = (rc, err, e') \<Longrightarrow> same_local e e'"
  by (auto simp: same_local_def dest: do_azure_frame)

lemma leaseRenew_same:
  assumes "leaseRenewIfNeeded p e = (rc, p', e')"
  shows "same_db p p' \<and> same_local e e'"
  using assms
  by (auto simp: leaseRenewIfNeeded_def sys_time_def same_local_def Let_def
      split: if_splits prod.splits option.splits list.splits dest!: do_azure_frame)

lemma sync_resize_same:
  assumes "sync_resize p aerr e = (rc, aerr', p', e')"
  shows "same_db p p' \<and> same_local e e'"
  using assms
  by (auto simp: sync_resize_def split: if_splits prod.splits option.splits dest: same_local_azure)

lemma read_ranges_same:
  "read_ranges_loop rs p e = (rc, rs', p', e') \<Longrightarrow> same_db p p'"
proof (induction rs arbitrary: p e rs' p' e' rc)
  case (Cons r rs)
  from Cons.prems show ?case by (auto simp: Let_def split: prod.splits if_splits dest!: Cons.IH)
qed simp

lemma sync_read_same: "sync_read rs p e = (rc, rs', p', e') \<Longrightarrow> same_db p p'"
  by (auto simp: sync_read_def Let_def split: if_splits prod.splits option.splits dest: read_ranges_same)

text \<open>One round of the sequential upload: the periodic renewal, then the write of a range.\<close>

definition seq_renew :: "nat \<Rightarrow> 'w sqliteObjsFile \<Rightarrow> 'w env \<Rightarrow> sqlite_rc \<times> 'w sqliteObjsFile \<times> 'w env" where
  "seq_renew i p e = (if hasLease p \<and> i > 0 \<and> i mod 50 = 0 then leaseRenewIfNeeded p e else (SQLITE_OK, p, e))"

lemma seq_renew_same: "seq_renew i p e = (rc, p', e') \<Longrightarrow> same_db p p' \<and> same_local e e'"
  by (auto simp: seq_renew_def split: if_splits dest: leaseRenew_same)

definition range_bytes :: "azure_page_range \<Rightarrow> bytes" where
  "range_bytes r = (case pr_data r of None \<Rightarrow> [] | Some d \<Rightarrow> d)"

lemma seq_loop_cases:
  assumes "seq_loop wr (r # rs) i aerr p e = (rc, aerr', p', e')"
  obtains (renew) rc1 where "seq_renew i p e = (rc1, p', e')" "rc1 \<noteq> SQLITE_OK" "rc \<noteq> SQLITE_OK"
  | (fail) p1 e1 arc where "seq_renew i p e = (SQLITE_OK, p1, e1)"
      "do_azure (wr (blob p1) (pr_offset r) (range_bytes r) (lease_arg p1) (if_match_arg p1)) e1 = (arc, aerr', e')"
      "arc \<noteq> AZURE_OK" "p' = bump azure_errors_update 1 p1" "rc \<noteq> SQLITE_OK"
  | (ok) p1 e1 err e2 where "seq_renew i p e = (SQLITE_OK, p1, e1)"
      "do_azure (wr (blob p1) (pr_offset r) (range_bytes r) (lease_arg p1) (if_match_arg p1)) e1 = (AZURE_OK, err, e2)"
      "seq_loop wr rs (Suc i) err (bump blob_bytes_written_update (pr_len r) (bump blob_writes_update 1 p1)) e2 =
        (rc, aerr', p', e')"
proof -
  obtain rc1 p1 e1 where 1: "seq_renew i p e = (rc1, p1, e1)" by (rule prod_cases3)
  obtain arc err e2 where 2: "do_azure (wr (blob p1) (pr_offset r) (range_bytes r) (lease_arg p1) (if_match_arg p1)) e1
      = (arc, err, e2)" by (rule prod_cases3)
  note run = assms [simplified seq_loop.simps seq_renew_def [symmetric] range_bytes_def [symmetric] 1 prod.case]
  show ?thesis
  proof (cases "rc1 = SQLITE_OK")
    case False
    then show ?thesis using run 1 renew by (simp add: fail_as_def split: if_splits)
  next
    case True
    show ?thesis
    proof (cases "arc = AZURE_OK")
      case False
      then show ?thesis using run True 1 2 fail [of p1 e1 arc] by (simp split: if_splits)
    next
      case arc: True
      then show ?thesis using run True 1 2 ok [of p1 e1 err e2] by (simp add: Let_def)
    qed
  qed
qed

lemma seq_loop_same:
  "seq_loop wr rs i aerr p e = (rc, aerr', p', e') \<Longrightarrow> same_db p p' \<and> same_local e e'"
proof (induction rs arbitrary: p e i aerr)
  case (Cons r rs)
  from Cons.prems show ?case
  proof (cases rule: seq_loop_cases)
    case (renew rc1)
    then show ?thesis using seq_renew_same by blast
  next
    case (fail p1 e1 arc)
    then show ?thesis using seq_renew_same [OF fail(1)] same_local_azure [OF fail(2)] same_local_trans by auto
  next
    case (ok p1 e1 err e2)
    then show ?thesis
      using seq_renew_same [OF ok(1)] same_local_azure [OF ok(2)] Cons.IH [OF ok(3)] same_local_trans same_db_trans
      by (metis same_db_upd(2))
  qed
qed simp

lemma sync_uploaded_dirty:
  "sync_uploaded n aerr p e = (p', e') \<Longrightarrow> dirty p' = bitmapClearAll (dirty p)"
  by (auto simp: sync_uploaded_def Let_def split: if_splits)

lemma sync_snapshot_dirty: "sync_snapshot p e = (p', e') \<Longrightarrow> dirty p' = dirty p"
  by (auto simp: sync_snapshot_def Let_def split: if_splits prod.splits option.splits bool.splits)

lemma sync_upload_dirty:
  assumes "sync_upload wr rs n aerr p e = (rc, p', e')"
  shows "(rc = SQLITE_OK \<longrightarrow> dirty p' = bitmapClearAll (dirty p)) \<and> (rc \<noteq> SQLITE_OK \<longrightarrow> same_db p p')"
  using assms
  by (auto simp: sync_upload_def sync_batch_def sync_seq_def Let_def same_db_fields(4)
      split: option.splits prod.splits if_splits dest!: sync_uploaded_dirty seq_loop_same)

lemma sync_db_dirty:
  assumes "sync_db p e = (rc, p', e')"
  shows "(rc = SQLITE_OK \<and> dirty p' = bitmapClearAll (dirty p)) \<or> (rc = SQLITE_OK \<and> p' = p \<and> bm_nSet (dirty p) = 0) \<or>
    (rc \<noteq> SQLITE_OK \<and> same_db p p')"
proof (cases "bm_nSet (dirty p) = 0 \<or> Option.bind (ops p) page_blob_write = None")
  case True
  then show ?thesis using assms by (auto simp: sync_db_def split: if_splits)
next
  case False
  then obtain wr where wr: "Option.bind (ops p) page_blob_write = Some wr" and n: "bm_nSet (dirty p) \<noteq> 0" by auto
  define q where "q = bump dirty_pages_synced_update (bm_nSet (dirty p)) (bump syncs_update 1 p)"
  have q: "same_db p q" by (simp add: q_def)
  obtain rc1 p1 e1 where 1: "leaseRenewIfNeeded q e = (rc1, p1, e1)" by (rule prod_cases3)
  obtain rc2 aerr p2 e2 where 2: "sync_resize p1 (stack_error e1) e1 = (rc2, aerr, p2, e2)" by (rule prod_cases4)
  obtain rc3 rs e3 where 3: "sync_ranges p2 e2 = (rc3, rs, e3)" by (rule prod_cases3)
  obtain rc4 rs' p4 e4 where 4: "sync_read rs p2 e3 = (rc4, rs', p4, e4)" by (rule prod_cases4)
  obtain rc5 p5 e5 where 5: "sync_upload wr rs' (bm_nSet (dirty p)) aerr p4 e4 = (rc5, p5, e5)" by (rule prod_cases3)
  have s: "same_db p p1" "same_db p p2" "same_db p p4"
    using q leaseRenew_same [OF 1] sync_resize_same [OF 2] sync_read_same [OF 4] same_db_trans by blast+
  show ?thesis using assms n wr 1 2 3 4 5 s sync_upload_dirty [OF 5] same_db_fields(4) [OF s(3)]
    by (auto simp: sync_db_def q_def [symmetric] Let_def fail_as_def split: if_splits prod.splits
        dest: sync_snapshot_dirty same_db_trans)
qed

text \<open>C6 Under every pattern of local and remote failures, a sync of a database file either succeeds and leaves
  no dirty page, or fails and leaves the dirty pages, the file size and the ETag as they were, so that
  a later sync uploads the same pages again.\<close>

theorem sync_failure_keeps_dirty:
  assumes "sqliteObjsSync p e = (rc, p', e')" and "eFileType p = MAIN_DB" and "bm_ok (dirty p)"
  shows "bm_ok (dirty p') \<and>
    (if rc = SQLITE_OK then pages (dirty p') = {} \<and> \<not> bitmapHasAny (dirty p')
     else dirty p' = dirty p \<and> nData p' = nData p \<and> etag p' = etag p)"
proof -
  have "(rc = SQLITE_OK \<and> dirty p' = bitmapClearAll (dirty p)) \<or> (rc = SQLITE_OK \<and> p' = p \<and> bm_nSet (dirty p) = 0) \<or>
    (rc \<noteq> SQLITE_OK \<and> same_db p p')"
    using assms(1,2) sync_db_dirty by (simp add: sqliteObjsSync_def)
  then show ?thesis
  proof (elim disjE conjE)
    assume "rc = SQLITE_OK" "dirty p' = bitmapClearAll (dirty p)"
    moreover have "bm_shape (dirty p)" using assms(3) by (rule bm_ok_shape)
    ultimately show ?thesis by (simp add: bm_ok_clearAll pages_clearAll hasAny_pages clearAll_fields)
  next
    assume "rc = SQLITE_OK" "p' = p" "bm_nSet (dirty p) = 0"
    then show ?thesis using assms(3) by (simp add: nSet_zero_iff hasAny_pages bm_ok_shape)
  next
    assume "rc \<noteq> SQLITE_OK" "same_db p p'"
    then show ?thesis using assms(3) by (simp add: same_db_fields)
  qed
qed

theorem sync_failure_keeps_dirty_witness:
  "\<exists>p' e'. sqliteObjsSync sample_dirty sample_env = (SQLITE_IOERR_FSYNC, p', e') \<and> bm_ok (dirty p') \<and>
    dirty p' = dirty sample_dirty \<and> nData p' = 1300 \<and> etag p' = []"
proof -
  have run: "sqliteObjsSync sample_dirty sample_env = (SQLITE_IOERR_FSYNC, sample_dirty, sample_env)"
    by (simp add: sqliteObjsSync_def sync_db_def sample_dirty_def sample_db_def file_zero_def bitmapSetBit_def
        bit_mask_def Let_def)
  have "nData sample_dirty = 1300" "etag sample_dirty = []" "eFileType sample_dirty = MAIN_DB"
    by (simp_all add: sample_dirty_def sample_db_def file_zero_def)
  with sync_failure_keeps_dirty [OF run _ sample_dirty_ok] run show ?thesis by simp
qed

lemma nomem_run:
  "case sqliteObjsWrite sample_db [7] 0 (sample_env\<lparr>faults := [Io_ok, Io_ok, Io_fail]\<rparr>) of
     Some (rc, p1, e1) \<Rightarrow> rc = SQLITE_NOMEM \<and>
       (case sqliteObjsWrite p1 [7] 0 e1 of
          Some (rc, p2, e2) \<Rightarrow> rc = SQLITE_OK \<and> db_view p2 e2 = [7] \<and> bm_data (dirty p2) = None \<and> bm_nSet (dirty p2) = 0 \<and>
            eFileType p2 = MAIN_DB
        | None \<Rightarrow> False)
   | None \<Rightarrow> False"
  by code_simp


end
