(* ===== verification/Blob_Store.thy ===== *)
theory Blob_Store
  imports Sync
begin

text \<open>
  The contract between \<^verbatim>\<open>xSync\<close> and the page-blob operations of the Azure client, as two locales, and what a sync
  of a database file achieves on a store that keeps the contract. The first locale says what the operations do when they
  report success; the second says that they do succeed for the holder of the blob's lease.
\<close>

section \<open>Ranges applied to a blob\<close>

fun apply_ranges :: "azure_page_range list \<Rightarrow> bytes \<Rightarrow> bytes" where
  "apply_ranges [] c = c"
| "apply_ranges (r # rs) c = apply_ranges rs (put c (nat (pr_offset r)) (range_bytes r))"

text \<open>The ranges after they were filled from the bytes \<open>file\<close>.\<close>

definition filled :: "bytes \<Rightarrow> azure_page_range \<Rightarrow> bool" where
  "filled file r \<longleftrightarrow> 0 \<le> pr_offset r \<and> 0 \<le> pr_len r \<and> int (length (range_bytes r)) = pr_len r \<and>
     (\<forall>j < length (range_bytes r). range_bytes r ! j = byte_at file (nat (pr_offset r) + j))"

lemma apply_ranges_bytes:
  assumes "list_all (filled file) rs"
  shows "byte_at (apply_ranges rs c) k =
    (if \<exists>r \<in> set rs. pr_offset r \<le> int k \<and> int k < pr_offset r + pr_len r then byte_at file k else byte_at c k)"
  using assms
proof (induction rs arbitrary: c)
  case (Cons r rs)
  have f: "0 \<le> pr_offset r" "int (length (range_bytes r)) = pr_len r"
    "\<And>j. j < length (range_bytes r) \<Longrightarrow> range_bytes r ! j = byte_at file (nat (pr_offset r) + j)"
    using Cons.prems by (auto simp: filled_def)
  have "byte_at (put c (nat (pr_offset r)) (range_bytes r)) k =
      (if pr_offset r \<le> int k \<and> int k < pr_offset r + pr_len r then byte_at file k else byte_at c k)"
    using f by (auto simp: byte_at_put nat_le_iff)
  then show ?case using Cons by auto
qed simp

lemma apply_ranges_length:
  assumes "list_all (\<lambda>r. 0 \<le> pr_offset r \<and> pr_offset r + int (length (range_bytes r)) \<le> n) rs" and "int (length c) \<le> n"
  shows "length c \<le> length (apply_ranges rs c) \<and> int (length (apply_ranges rs c)) \<le> n"
  using assms
proof (induction rs arbitrary: c)
  case (Cons r rs)
  have "int (length (put c (nat (pr_offset r)) (range_bytes r))) \<le> n" using Cons.prems by auto
  with Cons.IH [OF _ this] Cons.prems(1) show ?case by (auto simp: max_def split: if_splits)
qed simp

section \<open>The contract\<close>

text \<open>\<open>blob_holds content ok e name c\<close>: the remote side is in a good state and the page blob \<open>name\<close> has the bytes \<open>c\<close>.\<close>

definition blob_holds :: "('w \<Rightarrow> string \<Rightarrow> bytes option) \<Rightarrow> ('w \<Rightarrow> bool) \<Rightarrow> 'w env \<Rightarrow> string \<Rightarrow> bytes \<Rightarrow> bool" where
  "blob_holds content ok e name c \<longleftrightarrow> ok (remote e) \<and> content (remote e) name = Some c"

lemma do_azure_remote: "do_azure f e = (rc, err, e') \<Longrightarrow> f (remote e) = (rc, err, remote e')"
  by (auto simp: do_azure_def split: prod.splits)

lemma call_azure_remote: "call_azure f e = (rc, out, err, e') \<Longrightarrow> f (remote e) = (rc, out, err, remote e')"
  by (auto simp: call_azure_def split: prod.splits)

lemma leaseRenew_remote:
  assumes "leaseRenewIfNeeded p e = (SQLITE_OK, p', e')"
  shows "remote e' = remote e \<or> (\<exists>rn err. Option.bind (ops p) lease_renew = Some rn \<and>
    rn (blob p) (leaseId p) (remote e) = (AZURE_OK, err, remote e'))"
  using assms
  by (auto simp: leaseRenewIfNeeded_def sys_time_def Let_def
      split: if_splits prod.splits option.splits list.splits dest!: do_azure_remote)

locale page_blob_store =
  fixes store :: "'w azure_ops"
    and content :: "'w \<Rightarrow> string \<Rightarrow> bytes option"
    and ok :: "'w \<Rightarrow> bool"
  assumes write_law: "page_blob_write store = Some wr \<Longrightarrow> ok w \<Longrightarrow> 0 \<le> off \<Longrightarrow> content w name = Some c \<Longrightarrow>
      wr name off d lid im w = (AZURE_OK, err, w') \<Longrightarrow> ok w' \<and> content w' name = Some (put c (nat off) d)"
    and batch_law: "page_blob_write_batch store = Some batch \<Longrightarrow> ok w \<Longrightarrow> list_all (\<lambda>r. 0 \<le> pr_offset r) rs \<Longrightarrow>
      content w name = Some c \<Longrightarrow> batch name rs lid im w = (AZURE_OK, err, w') \<Longrightarrow>
      ok w' \<and> content w' name = Some (apply_ranges rs c)"
    and resize_law: "page_blob_resize store = Some rsz \<Longrightarrow> ok w \<Longrightarrow> content w name = Some c \<Longrightarrow> int (length c) \<le> n \<Longrightarrow>
      rsz name n lid w = (AZURE_OK, err, w') \<Longrightarrow> ok w' \<and> content w' name = Some (zpad (nat n) c)"
    and renew_law: "lease_renew store = Some rn \<Longrightarrow> ok w \<Longrightarrow> rn name l w = (AZURE_OK, err, w') \<Longrightarrow>
      ok w' \<and> content w' nm = content w nm"
    and snapshot_law: "blob_snapshot_create store = Some sn \<Longrightarrow> ok w \<Longrightarrow> sn name w = (rc, out, err, w') \<Longrightarrow>
      ok w' \<and> content w' nm = content w nm"
begin

abbreviation holds :: "'w env \<Rightarrow> string \<Rightarrow> bytes \<Rightarrow> bool" where
  "holds \<equiv> blob_holds content ok"

lemma renew_holds:
  assumes "leaseRenewIfNeeded p e = (SQLITE_OK, p', e')" and "ops p = Some store" and "holds e name c"
  shows "holds e' name c"
  using leaseRenew_remote [OF assms(1)] renew_law assms(2,3) by (auto simp: blob_holds_def)

lemma seq_renew_holds:
  assumes "seq_renew i p e = (SQLITE_OK, p', e')" and "ops p = Some store" and "holds e name c"
  shows "holds e' name c"
  using assms renew_holds by (auto simp: seq_renew_def split: if_splits)

lemma write_holds:
  assumes "do_azure (wr name off d lid im) e = (AZURE_OK, err, e')" and "page_blob_write store = Some wr"
    and "0 \<le> off" and "holds e name c"
  shows "holds e' name (put c (nat off) d)"
  using write_law [OF assms(2) _ assms(3) _ do_azure_remote [OF assms(1)]] assms(4) by (simp add: blob_holds_def)

lemma seq_loop_holds:
  assumes "seq_loop wr rs i aerr p e = (SQLITE_OK, aerr', p', e')" and "ops p = Some store"
    and "page_blob_write store = Some wr" and "list_all (\<lambda>r. 0 \<le> pr_offset r) rs" and "holds e (blob p) c"
  shows "holds e' (blob p) (apply_ranges rs c)"
  using assms
proof (induction rs arbitrary: i aerr p e c)
  case (Cons r rs)
  from Cons.prems(1) show ?case
  proof (cases rule: seq_loop_cases)
    case (ok p1 e1 err e2)
    have p1: "blob p1 = blob p" "ops p1 = Some store"
      using seq_renew_same [OF ok(1)] same_db_fields Cons.prems(2) by metis+
    have "holds e1 (blob p1) c" using seq_renew_holds [OF ok(1)] Cons.prems p1 by simp
    from write_holds [OF ok(2) Cons.prems(3) _ this]
    have "holds e2 (blob p) (put c (nat (pr_offset r)) (range_bytes r))" using Cons.prems(4) p1 by simp
    then show ?thesis using Cons.IH [OF ok(3)] Cons.prems p1 by simp
  qed simp_all
qed simp

lemma resize_holds:
  assumes "sync_resize p aerr e = (SQLITE_OK, aerr', p', e')" and "ops p = Some store"
    and "page_blob_resize store \<noteq> None" and "holds e (blob p) c" and "int (length c) \<le> align512 (nData p)"
  shows "holds e' (blob p) (if nData p \<le> lastSyncedSize p then c else zpad (nat (align512 (nData p))) c) \<and>
    lastSyncedSize p' = max (nData p) (lastSyncedSize p)"
proof (cases "nData p \<le> lastSyncedSize p")
  case True
  then show ?thesis using assms by (auto simp: sync_resize_def split: option.splits)
next
  case False
  obtain rsz where rsz: "page_blob_resize store = Some rsz" using assms(3) by auto
  obtain arc err e1 where call: "do_azure (rsz (blob p) (align512 (nData p)) (lease_arg p)) e = (arc, err, e1)"
    by (rule prod_cases3)
  then have r: "arc = AZURE_OK" "e' = e1" "lastSyncedSize p' = nData p"
    using assms(1,2) False rsz by (auto simp: sync_resize_def split: if_splits)
  have "ok (remote e)" "content (remote e) (blob p) = Some c" using assms(4) by (simp_all add: blob_holds_def)
  from resize_law [OF rsz this assms(5) do_azure_remote [OF call [unfolded r(1)]]]
  have "holds e1 (blob p) (zpad (nat (align512 (nData p))) c)" by (simp add: blob_holds_def)
  then show ?thesis using False r by simp
qed

end

section \<open>Reading the ranges\<close>

lemma read_ranges_quiet:
  assumes "no_faults e" and "cacheFd p = Some fd" and "file_of e fd = file"
    and "list_all (\<lambda>r. 0 \<le> pr_offset r \<and> 0 \<le> pr_len r) rs"
  shows "\<exists>rs' p'. read_ranges_loop rs p e = (SQLITE_OK, rs', p', e) \<and> list_all (filled file) rs' \<and>
    map pr_offset rs' = map pr_offset rs \<and> map pr_len rs' = map pr_len rs \<and> lastSyncedSize p' = lastSyncedSize p"
  using assms
proof (induction rs arbitrary: p)
  case (Cons r rs)
  define d where "d = bslice file (nat (pr_offset r)) (nat (pr_len r))"
  define r' where "r' = r\<lparr>pr_data := Some (if int (length d) < pr_len r
      then d @ replicate (nat (pr_len r - int (length d))) 0 else d)\<rparr>"
  define p1 where "p1 = bump disk_bytes_read_update (if 0 < int (length d) then int (length d) else 0) (bump disk_reads_update 1 p)"
  have o: "0 \<le> pr_offset r" "0 \<le> pr_len r" using Cons.prems(4) by simp_all
  have pr: "pread_fd (cacheFd p) (pr_len r) (pr_offset r) e = (int (length d), d, e)"
    using Cons.prems(1-3) o by (simp add: pread_fd_def pread_ok d_def)
  have "length d \<le> nat (pr_len r)" by (simp add: d_def)
  then have rb: "range_bytes r' = zero_fill (nat (pr_len r)) d"
    by (auto simp: r'_def range_bytes_def zero_fill_def nat_diff_distrib')
  have f: "filled file r'"
    unfolding filled_def rb using o by (simp add: r'_def nth_zero_fill d_def byte_at_bslice)
  have "cacheFd p1 = Some fd" "list_all (\<lambda>r. 0 \<le> pr_offset r \<and> 0 \<le> pr_len r) rs"
    using Cons.prems by (simp_all add: p1_def)
  from Cons.IH [OF Cons.prems(1) this(1) Cons.prems(3) this(2)] obtain rs' p' where
    ih: "read_ranges_loop rs p1 e = (SQLITE_OK, rs', p', e)" "list_all (filled file) rs'"
    "map pr_offset rs' = map pr_offset rs" "map pr_len rs' = map pr_len rs" "lastSyncedSize p' = lastSyncedSize p1" by blast
  have "read_ranges_loop (r # rs) p e = (SQLITE_OK, r' # rs', p', e)"
    using pr ih(1) by (simp add: Let_def r'_def p1_def)
  moreover have "pr_offset r' = pr_offset r" "pr_len r' = pr_len r" "lastSyncedSize p1 = lastSyncedSize p"
    by (simp_all add: r'_def p1_def)
  ultimately show ?case using f ih(2-5) by auto
qed simp

lemma total_bytes_pos: "rs \<noteq> [] \<Longrightarrow> list_all (\<lambda>r. 0 < pr_len r) rs \<Longrightarrow> 0 < total_bytes rs"
  by (induction rs rule: list_nonempty_induct) (auto simp: total_bytes_def)

lemma sync_read_quiet:
  assumes "no_faults e" and "cacheFd p = Some fd" and "fs e fd = Some file"
    and "list_all (\<lambda>r. 0 \<le> pr_offset r \<and> 0 < pr_len r) rs"
  shows "\<exists>rs' p' m. sync_read rs p e = (SQLITE_OK, rs', p', set_file fd (zpad m file) e) \<and> list_all (filled file) rs' \<and>
    map pr_offset rs' = map pr_offset rs \<and> map pr_len rs' = map pr_len rs \<and> lastSyncedSize p' = lastSyncedSize p"
proof (cases "rs = []")
  case True
  then have "sync_read rs p e = (SQLITE_OK, [], p, set_file fd (zpad 0 file) e)"
    using assms(3) by (simp add: sync_read_def total_bytes_def set_file_same zpad_id)
  then show ?thesis using True by fastforce
next
  case False
  define maxEnd where "maxEnd = pr_offset (last rs) + pr_len (last rs)"
  have t: "0 < total_bytes rs" using False assms(4) by (intro total_bytes_pos) (simp_all add: list_all_iff)
  have "last rs \<in> set rs" using False by simp
  then have me: "0 \<le> maxEnd" using assms(4) by (force simp: maxEnd_def list_all_iff)
  define m where "m = (if int (length file) < maxEnd then nat maxEnd else 0)"
  have fo: "file_of e fd = file" using assms(3) by (simp add: file_of_def)
  have grow: "(if 0 \<le> int (length file) \<and> int (length file) < maxEnd then snd (sys_ftruncate fd maxEnd e) else e) =
      set_file fd (zpad m file) e"
    using me fo assms(1,3) by (auto simp: m_def ftruncate_ok set_file_same zpad_id)
  have nf: "no_faults (set_file fd (zpad m file) e)" using assms(1) by simp
  have read: "sync_read rs p e = read_ranges_loop rs p (set_file fd (zpad m file) e)"
    using t False assms(1,2) grow fo nf
    by (simp add: sync_read_def lseek_end_ok malloc_ok maxEnd_def [symmetric] Let_def)
  have fill: "filled (zpad m file) = filled file" by (simp add: filled_def fun_eq_iff)
  have "list_all (\<lambda>r. 0 \<le> pr_offset r \<and> 0 \<le> pr_len r) rs" using assms(4) by (auto simp: list_all_iff)
  from read_ranges_quiet [OF nf assms(2) file_of_set_file_same this] show ?thesis unfolding read fill by blast
qed

section \<open>The steps of a successful sync\<close>

lemma sync_db_steps:
  assumes "sync_db p e = (SQLITE_OK, p', e')" and "bm_nSet (dirty p) \<noteq> 0"
  obtains wr q p1 e1 aerr p2 e2 rs e3 rs' p4 e4 p5 e5 where
    "Option.bind (ops p) page_blob_write = Some wr" "same_db p q" "lastSyncedSize q = lastSyncedSize p"
    "leaseRenewIfNeeded q e = (SQLITE_OK, p1, e1)" "sync_resize p1 (stack_error e1) e1 = (SQLITE_OK, aerr, p2, e2)"
    "sync_ranges p2 e2 = (SQLITE_OK, rs, e3)" "sync_read rs p2 e3 = (SQLITE_OK, rs', p4, e4)"
    "sync_upload wr rs' (bm_nSet (dirty p)) aerr p4 e4 = (SQLITE_OK, p5, e5)" "sync_snapshot p5 e5 = (p', e')"
proof -
  obtain wr where wr: "Option.bind (ops p) page_blob_write = Some wr"
    using assms by (auto simp: sync_db_def split: option.splits)
  define q where "q = bump dirty_pages_synced_update (bm_nSet (dirty p)) (bump syncs_update 1 p)"
  obtain rc1 p1 e1 where 1: "leaseRenewIfNeeded q e = (rc1, p1, e1)" by (rule prod_cases3)
  obtain rc2 aerr p2 e2 where 2: "sync_resize p1 (stack_error e1) e1 = (rc2, aerr, p2, e2)" by (rule prod_cases4)
  obtain rc3 rs e3 where 3: "sync_ranges p2 e2 = (rc3, rs, e3)" by (rule prod_cases3)
  obtain rc4 rs' p4 e4 where 4: "sync_read rs p2 e3 = (rc4, rs', p4, e4)" by (rule prod_cases4)
  obtain rc5 p5 e5 where 5: "sync_upload wr rs' (bm_nSet (dirty p)) aerr p4 e4 = (rc5, p5, e5)" by (rule prod_cases3)
  have q: "same_db p q" "lastSyncedSize q = lastSyncedSize p" by (simp_all add: q_def)
  have "rc1 = SQLITE_OK \<and> rc2 = SQLITE_OK \<and> rc3 = SQLITE_OK \<and> rc4 = SQLITE_OK \<and> rc5 = SQLITE_OK \<and> sync_snapshot p5 e5 = (p', e')"
    using assms wr 1 2 3 4 5
    by (auto simp: sync_db_def q_def [symmetric] Let_def fail_as_def split: if_splits prod.splits)
  then show ?thesis using that [OF wr q] 1 2 3 4 5 by simp
qed

section \<open>What a sync publishes\<close>

lemma more_env: "posix.more e' = posix.more e \<Longrightarrow> remote e' = remote e \<and> vfs_data e' = vfs_data e" for e :: "'w env"
  by (cases e, cases e') simp

lemma sync_ranges_runs:
  assumes "sync_ranges p e = (SQLITE_OK, rs, e')" and "bm_ok (dirty p)" and "page_geometry p"
  shows "page_runs p (page_count p) 0 rs" "fs e' = fs e" "remote e' = remote e" "no_faults e \<Longrightarrow> e' = e"
proof -
  have "(\<exists>mx. coalesceDirtyRanges p mx = Some rs) \<and> fs e' = fs e \<and> posix.more e' = posix.more e \<and> (no_faults e \<longrightarrow> e' = e)"
    using assms(1)
    by (auto simp: sync_ranges_def malloc_ok split: option.splits prod.splits dest: malloc_frame)
  then show "page_runs p (page_count p) 0 rs" "fs e' = fs e" "remote e' = remote e" "no_faults e \<Longrightarrow> e' = e"
    using coalesce_runs [OF _ assms(2,3)] by (auto dest: more_env)
qed

text \<open>The blob agrees with the cache file on every page that is not dirty, and has the size of the last sync.\<close>

definition clean_agree :: "'w sqliteObjsFile \<Rightarrow> bytes \<Rightarrow> bytes \<Rightarrow> bool" where
  "clean_agree p file c \<longleftrightarrow>
     int (length c) = align512 (lastSyncedSize p) \<and> lastSyncedSize p \<le> nData p \<and>
     (\<forall>k \<ge> nat (nData p). byte_at file k = 0) \<and>
     (\<forall>k. int k div pageSize p \<notin> pages (dirty p) \<longrightarrow> byte_at c k = byte_at file k)"

text \<open>The padding behind the last byte belongs to the last page, and is uploaded with it.\<close>

lemma last_page:
  assumes "page_geometry p" and "nData p \<le> k" and "k < align512 (nData p)"
  shows "k div pageSize p = (nData p - 1) div pageSize p"
proof -
  define l where "l = nData p - 1"
  have ps: "0 < pageSize p" "512 dvd pageSize p" using assms(1) by (simp_all add: page_geometry_def)
  define n where "n = l div pageSize p + 1"
  have "l < n * pageSize p" using ps le_div_iff [of "pageSize p" n l] by (simp add: n_def)
  then have "nData p \<le> n * pageSize p" by (simp add: l_def)
  moreover have "512 dvd n * pageSize p" using ps by simp
  ultimately have "k < n * pageSize p" using assms(3) align512_mono align512_dvd by (metis order_less_le_trans)
  then have "k div pageSize p < n" using ps le_div_iff [of "pageSize p" n k] by linarith
  moreover have "l div pageSize p \<le> k div pageSize p" using ps assms(2) by (intro zdiv_mono1) (simp_all add: l_def)
  ultimately show ?thesis by (simp add: n_def l_def)
qed

lemma uncovered_clean:
  assumes "page_runs p (page_count p) 0 rs" and "page_geometry p" and "0 \<le> k" and "k < align512 (nData p)"
    and "\<not> (\<exists>r \<in> set rs. pr_offset r \<le> k \<and> k < pr_offset r + pr_len r)"
  shows "k div pageSize p \<notin> pages (dirty p)"
proof (cases "k < nData p")
  case True
  then show ?thesis using page_runs_cover [OF assms(1,2) _ _ True] assms(3,5) by simp
next
  case False
  define l where "l = nData p - 1"
  have l: "0 \<le> l" "l < nData p" "l \<le> k" using assms(2) False by (auto simp: l_def page_geometry_def)
  have "l div pageSize p \<notin> pages (dirty p)"
  proof
    assume "l div pageSize p \<in> pages (dirty p)"
    then obtain r where r: "r \<in> set rs" "pr_offset r \<le> l" "l < pr_offset r + pr_len r"
      using page_runs_cover [OF assms(1,2) _ _ l(2)] l(1) by auto
    have "512 dvd pr_offset r + pr_len r"
      using page_runs_shape [OF assms(1,2)] r(1) assms(2) unfolding page_geometry_def by (meson dvd_add dvd_trans order_refl)
    then have "align512 (pr_offset r + pr_len r) = pr_offset r + pr_len r" by (rule align512_dvd)
    moreover have "align512 (nData p) \<le> align512 (pr_offset r + pr_len r)"
      using r(3) by (intro align512_mono) (simp add: l_def)
    ultimately show False using assms(4,5) r l by force
  qed
  then show ?thesis using last_page [OF assms(2) _ assms(4)] False by (simp add: l_def)
qed

lemma same_extent:
  assumes "map pr_offset rs' = map pr_offset rs" and "map pr_len rs' = map pr_len rs"
  shows "(\<exists>r \<in> set rs'. P (pr_offset r) (pr_len r)) \<longleftrightarrow> (\<exists>r \<in> set rs. P (pr_offset r) (pr_len r))"
proof -
  have "map (\<lambda>r. (pr_offset r, pr_len r)) rs' = map (\<lambda>r. (pr_offset r, pr_len r)) rs"
    using assms by (simp add: list_eq_iff_nth_eq)
  then have "(\<lambda>r. (pr_offset r, pr_len r)) ` set rs' = (\<lambda>r. (pr_offset r, pr_len r)) ` set rs"
    by (metis set_map)
  then show ?thesis by (smt (verit, best) Pair_inject image_iff)
qed

text \<open>Applying the ranges of all dirty pages to a blob of the aligned size gives the cache file.\<close>

lemma ranges_complete:
  assumes "page_runs p (page_count p) 0 rs" and "page_geometry p" and "list_all (filled file) rs'"
    and "map pr_offset rs' = map pr_offset rs" and "map pr_len rs' = map pr_len rs"
    and "int (length c) = align512 (nData p)" and "\<And>k. nat (nData p) \<le> k \<Longrightarrow> byte_at file k = 0"
    and "\<And>k. int k div pageSize p \<notin> pages (dirty p) \<Longrightarrow> byte_at c k = byte_at file k"
  shows "length (apply_ranges rs' c) = length c" "byte_at (apply_ranges rs' c) k = byte_at file k"
proof -
  note extent = same_extent [OF assms(4,5)]
  have "\<not> (\<exists>r \<in> set rs. \<not> pr_offset r + pr_len r \<le> align512 (nData p))"
    using page_runs_shape [OF assms(1,2)] by auto
  then have "\<forall>r \<in> set rs'. pr_offset r + pr_len r \<le> align512 (nData p)"
    using extent [of "\<lambda>a b. \<not> a + b \<le> align512 (nData p)"] by blast
  then have "list_all (\<lambda>r. 0 \<le> pr_offset r \<and> pr_offset r + int (length (range_bytes r)) \<le> align512 (nData p)) rs'"
    using assms(3) by (auto simp: list_all_iff filled_def)
  from apply_ranges_length [OF this, of c] assms(6) show "length (apply_ranges rs' c) = length c" by simp
  let ?in = "\<exists>r \<in> set rs. pr_offset r \<le> int k \<and> int k < pr_offset r + pr_len r"
  have "byte_at (apply_ranges rs' c) k = (if ?in then byte_at file k else byte_at c k)"
    using apply_ranges_bytes [OF assms(3), of c k] extent [of "\<lambda>a b. a \<le> int k \<and> int k < a + b"] by simp
  moreover have "byte_at c k = byte_at file k" if out: "\<not> ?in"
  proof (cases "int k < align512 (nData p)")
    case True
    then show ?thesis using uncovered_clean [OF assms(1,2) _ True out] assms(8) by simp
  next
    case False
    then have "length c \<le> k" "nat (nData p) \<le> k" using assms(6) align512_bounds(1) [of "nData p"] by linarith+
    then show ?thesis using assms(7) by (simp add: byte_at_out)
  qed
  ultimately show "byte_at (apply_ranges rs' c) k = byte_at file k" by simp
qed

lemma writeEtagFile_more: "writeEtagFile cp et e = (r, e') \<Longrightarrow> posix.more e' = posix.more e"
  by (auto simp: writeEtagFile_def buildEtagPath_def split: if_splits option.splits prod.splits
      dest!: buildSidecarPath_frame open_trunc_frame pwrite_frame fsync_frame)

lemma writeStateFile_more: "writeStateFile cp ps fsz v n e = (r, e') \<Longrightarrow> posix.more e' = posix.more e"
  by (auto simp: writeStateFile_def buildStatePath_def unlink_frame Let_def split: if_splits option.splits prod.splits
      dest!: buildSidecarPath_frame open_trunc_frame pwrite_frame fsync_frame malloc_frame rename_frame)

lemma writeEtagFile_remote [simp]: "remote (snd (writeEtagFile cp et e)) = remote e" for e :: "'w env"
  using writeEtagFile_more [of cp et e] more_env by (metis prod.collapse)

lemma writeStateFile_remote [simp]: "remote (snd (writeStateFile cp ps fsz v n e)) = remote e" for e :: "'w env"
  using writeStateFile_more [of cp ps fsz v n e] more_env by (metis prod.collapse)

lemma sync_uploaded_fields:
  assumes "sync_uploaded n aerr p e = (p', e')"
  shows "remote e' = remote e" "ops p' = ops p" "blob p' = blob p" "nData p' = nData p"
    "lastSyncedSize p' = lastSyncedSize p" "dirty p' = bitmapClearAll (dirty p)" "cacheReuse p' = cacheReuse p"
    "cacheFd p' = cacheFd p" "\<not> cacheReuse p \<Longrightarrow> e' = e" "pageSize p' = pageSize p" "leaseId p' = leaseId p"
  using assms by (auto simp: sync_uploaded_def blob_def Let_def split: if_splits prod.splits)

lemma sync_snapshot_fields:
  assumes "sync_snapshot p e = (p', e')"
  shows "ops p' = ops p" "blob p' = blob p" "nData p' = nData p" "lastSyncedSize p' = lastSyncedSize p" "dirty p' = dirty p"
    "cacheFd p' = cacheFd p" "pageSize p' = pageSize p" "leaseId p' = leaseId p"
  using assms
  by (auto simp: sync_snapshot_def blob_def Let_def split: if_splits prod.splits option.splits bool.splits)

lemma sync_snapshot_local: "sync_snapshot p e = (p', e') \<Longrightarrow> \<not> cacheReuse p \<Longrightarrow> p' = p \<and> e' = e"
  by (auto simp: sync_snapshot_def Let_def)

lemma sync_snapshot_remote:
  assumes "sync_snapshot p e = (p', e')"
  shows "remote e' = remote e \<or> (\<exists>sn rc out err. Option.bind (ops p) blob_snapshot_create = Some sn \<and>
      sn (blob p) (remote e) = (rc, out, err, remote e'))"
proof (cases "cacheReuse p \<and> Option.bind (ops p) blob_snapshot_create \<noteq> None")
  case False
  then have "remote e' = remote e" using assms
    by (auto simp: sync_snapshot_def Let_def split: if_splits option.splits bool.splits)
  then show ?thesis by simp
next
  case True
  then obtain sn where sn: "Option.bind (ops p) blob_snapshot_create = Some sn" by auto
  obtain rc out err e1 where call: "call_azure (sn (blob p)) e = (rc, out, err, e1)" by (rule prod_cases4)
  have "remote e' = remote e1" using assms True sn call
    by (auto simp: sync_snapshot_def Let_def split: if_splits)
  then show ?thesis using sn call_azure_remote [OF call] by auto
qed

context page_blob_store
begin

lemma sync_upload_holds:
  assumes "sync_upload wr rs n aerr p e = (SQLITE_OK, p', e')" and "ops p = Some store"
    and "page_blob_write store = Some wr" and "list_all (\<lambda>r. 0 \<le> pr_offset r) rs" and "holds e (blob p) c"
  shows "holds e' (blob p) (apply_ranges rs c) \<and> blob p' = blob p \<and> ops p' = Some store \<and> nData p' = nData p \<and>
    cacheFd p' = cacheFd p"
proof (cases "page_blob_write_batch store")
  case None
  obtain rc1 aerr1 p1 e1 where loop: "seq_loop wr rs 0 aerr p e = (rc1, aerr1, p1, e1)" by (rule prod_cases4)
  have run: "sync_seq wr rs n aerr p e = (SQLITE_OK, p', e')" using assms(1,2) None by (simp add: sync_upload_def)
  then have rc: "rc1 = SQLITE_OK" using loop by (auto simp: sync_seq_def split: if_splits)
  then have up: "sync_uploaded n aerr1 p1 (e1\<lparr>g_xread_count := 0, g_xread_journal_count := 0\<rparr>) = (p', e')"
    using run loop by (auto simp: sync_seq_def Let_def split: prod.splits)
  have "holds e1 (blob p) (apply_ranges rs c)" using seq_loop_holds [OF loop [unfolded rc] assms(2-5)] .
  moreover have "same_db p p1" using seq_loop_same [OF loop] by simp
  ultimately show ?thesis
    using sync_uploaded_fields [OF up] assms(2) by (auto simp: blob_holds_def same_db_fields)
next
  case (Some batch)
  obtain arc err e1 where call: "do_azure (batch (blob p) rs (lease_arg p) (if_match_arg p)) e = (arc, err, e1)"
    by (rule prod_cases3)
  have run: "sync_batch batch rs n p e = (SQLITE_OK, p', e')" using assms(1,2) Some by (simp add: sync_upload_def)
  then have ok: "arc = AZURE_OK" using call by (auto simp: sync_batch_def split: if_splits)
  then have up: "sync_uploaded n err (bump blob_bytes_written_update (total_bytes rs) (bump blob_writes_update 1 p)) e1 = (p', e')"
    using run call by (auto simp: sync_batch_def Let_def split: prod.splits)
  have "ok (remote e)" "content (remote e) (blob p) = Some c" using assms(5) by (simp_all add: blob_holds_def)
  from batch_law [OF Some this(1) assms(4) this(2) do_azure_remote [OF call [unfolded ok]]]
  have "holds e1 (blob p) (apply_ranges rs c)" by (simp add: blob_holds_def)
  then show ?thesis using sync_uploaded_fields [OF up] assms(2) by (simp add: blob_holds_def)
qed

end

lemma leaseRenew_synced: "leaseRenewIfNeeded p e = (rc, p', e') \<Longrightarrow> lastSyncedSize p' = lastSyncedSize p"
  by (auto simp: leaseRenewIfNeeded_def Let_def split: if_splits prod.splits option.splits)

lemma page_runs_same_db:
  assumes "same_db p p'"
  shows "page_runs p' n i rs = page_runs p n i rs" "page_count p' = page_count p"
  using same_db_fields [OF assms]
  by (induction rs arbitrary: i) (simp_all add: page_run_def page_count_def)

lemma remote_set_file [simp]: "remote (set_file fd c e) = remote e"
  by (simp add: set_file_def)

context page_blob_store
begin

lemma snapshot_holds:
  assumes "sync_snapshot p e = (p', e')" and "ops p = Some store" and "holds e name c"
  shows "holds e' name c"
  using sync_snapshot_remote [OF assms(1)] assms(2,3) snapshot_law by (auto simp: blob_holds_def)

text \<open>A sync that reports success has made the blob equal to the cache file.\<close>

lemma sync_db_publishes:
  assumes run: "sync_db p e = (SQLITE_OK, p', e')" and "bm_nSet (dirty p) \<noteq> 0" and "ops p = Some store"
    and "page_blob_resize store \<noteq> None" and "bm_ok (dirty p)" and "page_geometry p" and "no_faults e"
    and "cacheFd p = Some fd" and "fs e fd = Some file" and "holds e (blob p) c" and "clean_agree p file c"
  shows "\<exists>c'. holds e' (blob p) c' \<and> int (length c') = align512 (nData p) \<and> (\<forall>k. byte_at c' k = byte_at file k) \<and>
    nData p' = nData p"
proof -
  obtain wr q p1 e1 aerr p2 e2 rs e3 rs' p4 e4 p5 e5 where
    wr: "Option.bind (ops p) page_blob_write = Some wr" and q: "same_db p q" "lastSyncedSize q = lastSyncedSize p" and
    s1: "leaseRenewIfNeeded q e = (SQLITE_OK, p1, e1)" and
    s2: "sync_resize p1 (stack_error e1) e1 = (SQLITE_OK, aerr, p2, e2)" and
    s3: "sync_ranges p2 e2 = (SQLITE_OK, rs, e3)" and s4: "sync_read rs p2 e3 = (SQLITE_OK, rs', p4, e4)" and
    s5: "sync_upload wr rs' (bm_nSet (dirty p)) aerr p4 e4 = (SQLITE_OK, p5, e5)" and s6: "sync_snapshot p5 e5 = (p', e')"
    using sync_db_steps [OF assms(1,2)] by metis
  have wr: "page_blob_write store = Some wr" using wr assms(3) by simp
  have d: "same_db p p1" "same_db p p2" "same_db p p4"
    using q(1) leaseRenew_same [OF s1] sync_resize_same [OF s2] sync_read_same [OF s4] same_db_trans by blast+
  have agree: "int (length c) = align512 (lastSyncedSize p)" "lastSyncedSize p \<le> nData p"
    "\<And>k. nat (nData p) \<le> k \<Longrightarrow> byte_at file k = 0"
    "\<And>k. int k div pageSize p \<notin> pages (dirty p) \<Longrightarrow> byte_at c k = byte_at file k"
    using assms(11) by (simp_all add: clean_agree_def)
  have loc: "same_local e e1" "same_local e e2"
    using leaseRenew_same [OF s1] sync_resize_same [OF s2] same_local_trans by blast+
  have "no_faults e2" "fs e2 fd = Some file" using loc assms(7,9) by (simp_all add: same_local_def no_faults_def)
  have r3: "page_runs p2 (page_count p2) 0 rs" "e3 = e2"
    using sync_ranges_runs [OF s3] assms(5,6) same_db_fields [OF d(2)] \<open>no_faults e2\<close> by simp_all
  have runs: "page_runs p (page_count p) 0 rs" using r3(1) page_runs_same_db [OF d(2)] by simp
  define c0 where "c0 = (if nData p \<le> lastSyncedSize p then c else zpad (nat (align512 (nData p))) c)"
  have h1: "holds e1 (blob p1) c"
    using renew_holds [OF s1, of "blob p" c] assms(3,10) same_db_fields [OF q(1)] same_db_fields [OF d(1)] by simp
  have lc: "int (length c) \<le> align512 (nData p)" using agree(1,2) align512_mono by simp
  have h2: "holds e2 (blob p) c0"
    using resize_holds [OF s2 _ assms(4) h1] lc assms(3) same_db_fields [OF d(1)] leaseRenew_synced [OF s1] q(2)
    by (simp add: c0_def split: if_splits)
  have c0: "int (length c0) = align512 (nData p)" "byte_at c0 k = byte_at c k" for k
    using agree(1,2) lc by (auto simp: c0_def max_def)
  have "list_all (\<lambda>r. 0 \<le> pr_offset r \<and> 0 < pr_len r) rs"
    using page_runs_shape [OF runs assms(6)] by (auto simp: list_all_iff)
  moreover have "cacheFd p2 = Some fd" using assms(8) same_db_fields [OF d(2)] by simp
  ultimately obtain m where e4: "e4 = set_file fd (zpad m file) e2" and fill: "list_all (filled file) rs'"
    and ext: "map pr_offset rs' = map pr_offset rs" "map pr_len rs' = map pr_len rs"
    using sync_read_quiet [OF \<open>no_faults e2\<close> _ \<open>fs e2 fd = Some file\<close>, of p2 rs] s4 r3(2) by auto
  have "holds e4 (blob p4) c0" using h2 e4 same_db_fields [OF d(3)] by (simp add: blob_holds_def)
  moreover have "list_all (\<lambda>r. 0 \<le> pr_offset r) rs'" using fill by (auto simp: list_all_iff filled_def)
  ultimately have "holds e5 (blob p) (apply_ranges rs' c0) \<and> ops p5 = Some store \<and> nData p5 = nData p"
    using sync_upload_holds [OF s5 _ wr] assms(3) same_db_fields [OF d(3)] by simp
  then have "holds e' (blob p) (apply_ranges rs' c0) \<and> nData p' = nData p"
    using snapshot_holds [OF s6] sync_snapshot_fields [OF s6] by simp
  moreover note ranges_complete [OF runs assms(6) fill ext c0(1) agree(3)]
  ultimately show ?thesis using c0 agree(4) by (metis (no_types, lifting))
qed

end

section \<open>Progress\<close>

definition writable_range :: "azure_page_range \<Rightarrow> bool" where
  "writable_range r \<longleftrightarrow> 0 \<le> pr_offset r \<and> 512 dvd pr_offset r \<and> 512 dvd length (range_bytes r) \<and>
     0 < length (range_bytes r) \<and> length (range_bytes r) \<le> 4194304"

text \<open>A store that serves the holder of the lease: \<open>accepts w name lid\<close> says that \<open>lid\<close> is the live lease of the page
  blob \<open>name\<close>. The requests are those Azure documents as valid: 512-byte aligned, at most 4 MiB per write, and without
  an \<^verbatim>\<open>If-Match\<close> condition.\<close>

lemma lease_quiet_remote [simp]:
  "lease_quiet p (e\<lparr>remote := w\<rparr>) = lease_quiet p e" "lease_quiet (p\<lparr>lastSyncedSize := n\<rparr>) e = lease_quiet p e"
  "lease_quiet p (set_file fd c e) = lease_quiet p e"
  by (simp_all add: lease_quiet_def hasLease_def set_file_def)

locale serving_store = page_blob_store store content ok
  for store :: "'w azure_ops" and content :: "'w \<Rightarrow> string \<Rightarrow> bytes option" and ok :: "'w \<Rightarrow> bool" +
  fixes accepts :: "'w \<Rightarrow> string \<Rightarrow> string option \<Rightarrow> bool"
  assumes serve_write: "accepts w name lid \<Longrightarrow> 0 \<le> off \<Longrightarrow> 512 dvd off \<Longrightarrow> 512 dvd length d \<Longrightarrow> 0 < length d \<Longrightarrow>
      length d \<le> 4194304 \<Longrightarrow>
      \<exists>wr err w'. page_blob_write store = Some wr \<and> wr name off d lid None w = (AZURE_OK, err, w') \<and> accepts w' name lid"
    and serve_batch: "page_blob_write_batch store = Some batch \<Longrightarrow> accepts w name lid \<Longrightarrow>
      list_all (\<lambda>r. 0 \<le> pr_offset r \<and> 512 dvd pr_offset r \<and> 512 dvd length (range_bytes r)) rs \<Longrightarrow>
      \<exists>err w'. batch name rs lid None w = (AZURE_OK, err, w') \<and> accepts w' name lid"
    and serve_resize: "accepts w name lid \<Longrightarrow> 0 \<le> n \<Longrightarrow> 512 dvd n \<Longrightarrow>
      \<exists>rsz err w'. page_blob_resize store = Some rsz \<and> rsz name n lid w = (AZURE_OK, err, w') \<and> accepts w' name lid"
begin

lemma seq_loop_serves:
  assumes "page_blob_write store = Some wr" and "list_all writable_range rs" and "hasLease p" and "lease_quiet p e"
    and "ops p = Some store" and "accepts (remote e) (blob p) (lease_arg p)"
  shows "\<exists>aerr' p' e'. seq_loop wr rs i aerr p e = (SQLITE_OK, aerr', p', e')"
  using assms
proof (induction rs arbitrary: i aerr p e)
  case (Cons r rs)
  have w: "0 \<le> pr_offset r" "512 dvd pr_offset r" "512 dvd length (range_bytes r)" "0 < length (range_bytes r)"
    "length (range_bytes r) \<le> 4194304"
    using Cons.prems(2) by (simp_all add: writable_range_def)
  obtain err w' where wr: "wr (blob p) (pr_offset r) (range_bytes r) (lease_arg p) None (remote e) = (AZURE_OK, err, w')"
    and acc: "accepts w' (blob p) (lease_arg p)"
    using serve_write [OF Cons.prems(6) w] Cons.prems(1) by auto
  define q where "q = bump blob_bytes_written_update (pr_len r) (bump blob_writes_update 1 p)"
  have "lease_quiet q (e\<lparr>remote := w'\<rparr>)" using Cons.prems(4) by (simp add: q_def)
  moreover have "list_all writable_range rs" "hasLease q" "ops q = Some store" "accepts (remote (e\<lparr>remote := w'\<rparr>)) (blob q) (lease_arg q)"
    using Cons.prems acc by (simp_all add: q_def)
  ultimately obtain aerr' p' e' where "seq_loop wr rs (Suc i) err q (e\<lparr>remote := w'\<rparr>) = (SQLITE_OK, aerr', p', e')"
    using Cons.IH [OF Cons.prems(1)] by blast
  moreover have "seq_renew i p e = (SQLITE_OK, p, e)"
    using Cons.prems(4) by (simp add: seq_renew_def leaseRenew_quiet)
  moreover have "if_match_arg p = None" using Cons.prems(3) by (simp add: if_match_arg_def)
  ultimately show ?case using wr
    by (simp add: seq_renew_def [symmetric] range_bytes_def [symmetric] do_azure_def q_def Let_def)
qed simp

lemma sync_upload_serves:
  assumes "page_blob_write store = Some wr" and "list_all writable_range rs" and "hasLease p" and "lease_quiet p e"
    and "ops p = Some store" and "accepts (remote e) (blob p) (lease_arg p)"
  shows "\<exists>p' e'. sync_upload wr rs n aerr p e = (SQLITE_OK, p', e')"
proof (cases "page_blob_write_batch store")
  case None
  then show ?thesis using seq_loop_serves [OF assms, of 0 aerr] assms(5)
    by (auto simp: sync_upload_def sync_seq_def Let_def split: prod.splits)
next
  case (Some batch)
  have "if_match_arg p = None" using assms(3) by (simp add: if_match_arg_def)
  moreover have "list_all (\<lambda>r. 0 \<le> pr_offset r \<and> 512 dvd pr_offset r \<and> 512 dvd length (range_bytes r)) rs"
    using assms(2) by (auto simp: list_all_iff writable_range_def)
  moreover from this obtain err w' where "batch (blob p) rs (lease_arg p) None (remote e) = (AZURE_OK, err, w')"
    using serve_batch [OF Some assms(6)] by blast
  ultimately show ?thesis using assms(5) Some
    by (auto simp: sync_upload_def sync_batch_def do_azure_def Let_def split: prod.splits)
qed

lemma sync_resize_serves:
  assumes "ops p = Some store" and "accepts (remote e) (blob p) (lease_arg p)" and "0 \<le> nData p"
  shows "\<exists>aerr' p' e'. sync_resize p aerr e = (SQLITE_OK, aerr', p', e') \<and>
    accepts (remote e') (blob p) (lease_arg p) \<and> (\<exists>w. e' = e\<lparr>remote := w\<rparr>) \<and>
    (lease_quiet p e \<longrightarrow> lease_quiet p' e')"
proof (cases "nData p \<le> lastSyncedSize p")
  case True
  then have "sync_resize p aerr e = (SQLITE_OK, aerr, p, e\<lparr>remote := remote e\<rparr>)"
    by (auto simp: sync_resize_def split: option.splits)
  then show ?thesis using assms(2) by fastforce
next
  case False
  have "0 \<le> align512 (nData p)" "512 dvd align512 (nData p)" using assms(3) align512_bounds(1,3) order_trans by blast+
  from serve_resize [OF assms(2) this] obtain rsz err w' where
    r: "page_blob_resize store = Some rsz" "rsz (blob p) (align512 (nData p)) (lease_arg p) (remote e) = (AZURE_OK, err, w')"
    "accepts w' (blob p) (lease_arg p)" by blast
  define p' where "p' = (bump blob_resizes_update 1 p)\<lparr>lastSyncedSize := nData p\<rparr>"
  have "sync_resize p aerr e = (SQLITE_OK, err, p', e\<lparr>remote := w'\<rparr>)"
    using False r assms(1) by (simp add: sync_resize_def do_azure_def p'_def)
  moreover have "lease_quiet p e \<longrightarrow> lease_quiet p' (e\<lparr>remote := w'\<rparr>)" by (simp add: p'_def)
  ultimately show ?thesis using r(3) by auto
qed

end

text \<open>A database file with dirty pages whose sync has nothing to wait for locally.\<close>

definition sync_ready :: "'w azure_ops \<Rightarrow> 'w sqliteObjsFile \<Rightarrow> 'w env \<Rightarrow> bool" where
  "sync_ready store p e \<longleftrightarrow>
     eFileType p = MAIN_DB \<and> ops p = Some store \<and> hasLease p \<and> lease_quiet p e \<and> no_faults e \<and>
     bm_ok (dirty p) \<and> pages (dirty p) \<noteq> {} \<and> page_geometry p \<and>
     (\<exists>fd file. cacheFd p = Some fd \<and> fs e fd = Some file)"

lemma sync_ranges_quiet:
  assumes "no_faults e" and "bm_ok (dirty p)" and "page_geometry p"
  shows "\<exists>rs. sync_ranges p e = (SQLITE_OK, rs, e)"
proof -
  have "coalesceDirtyRanges p (bm_nSet (dirty p)) \<noteq> None"
    using coalesce_fits_nSet [OF assms(2)] assms(3) by (simp add: page_geometry_def)
  then show ?thesis using assms(1) by (auto simp: sync_ranges_def malloc_ok split: option.splits)
qed

lemma lease_quiet_same_db:
  "same_db p p' \<Longrightarrow> leaseAcquiredAt p' = leaseAcquiredAt p \<Longrightarrow> leaseDuration p' = leaseDuration p \<Longrightarrow>
     lease_quiet p' e = lease_quiet p e"
  by (simp add: lease_quiet_def same_db_fields)

lemma read_ranges_lease:
  "read_ranges_loop rs p e = (rc, rs', p', e') \<Longrightarrow>
     leaseAcquiredAt p' = leaseAcquiredAt p \<and> leaseDuration p' = leaseDuration p"
proof (induction rs arbitrary: p e rs' p' e' rc)
  case (Cons r rs)
  from Cons.prems show ?case by (auto simp: Let_def split: prod.splits if_splits dest!: Cons.IH)
qed simp

lemma sync_read_lease:
  "sync_read rs p e = (rc, rs', p', e') \<Longrightarrow>
     leaseAcquiredAt p' = leaseAcquiredAt p \<and> leaseDuration p' = leaseDuration p"
  by (auto simp: sync_read_def Let_def split: if_splits prod.splits option.splits dest: read_ranges_lease)

lemma filled_writable:
  assumes "page_runs p (page_count p) 0 rs" and "page_geometry p" and "list_all (filled file) rs'"
    and "map pr_offset rs' = map pr_offset rs" and "map pr_len rs' = map pr_len rs"
  shows "list_all writable_range rs'"
proof -
  have ps: "512 dvd pageSize p" using assms(2) by (simp add: page_geometry_def)
  have "\<not> (\<exists>r \<in> set rs. \<not> (512 dvd pr_offset r \<and> 0 < pr_len r \<and> 512 dvd pr_len r \<and> pr_len r \<le> 4194304))"
    using page_runs_shape [OF assms(1,2)] dvd_trans [OF ps] by auto
  then have "\<forall>r \<in> set rs'. 512 dvd pr_offset r \<and> 0 < pr_len r \<and> 512 dvd pr_len r \<and> pr_len r \<le> 4194304"
    using same_extent [OF assms(4,5), of "\<lambda>a b. \<not> (512 dvd a \<and> 0 < b \<and> 512 dvd b \<and> b \<le> 4194304)"] by blast
  moreover have "512 dvd length (range_bytes r)" if "512 dvd pr_len r" "int (length (range_bytes r)) = pr_len r" for r
    using that by presburger
  ultimately show ?thesis using assms(3) by (force simp: list_all_iff filled_def writable_range_def)
qed

context serving_store
begin

text \<open>For the holder of the lease the sync succeeds.\<close>

lemma sync_db_serves:
  assumes "sync_ready store p e" and "accepts (remote e) (blob p) (lease_arg p)"
  shows "\<exists>p' e'. sync_db p e = (SQLITE_OK, p', e')"
proof -
  obtain fd fc where p: "ops p = Some store" "hasLease p" "lease_quiet p e" "no_faults e" "bm_ok (dirty p)"
    "page_geometry p" "cacheFd p = Some fd" "fs e fd = Some fc" "bm_nSet (dirty p) \<noteq> 0"
    using assms(1) by (auto simp: sync_ready_def nSet_zero_iff)
  obtain wr where wr: "page_blob_write store = Some wr"
    using serve_write [OF assms(2), of 0 "replicate 512 0"] by auto
  define q where "q = bump dirty_pages_synced_update (bm_nSet (dirty p)) (bump syncs_update 1 p)"
  have q: "same_db p q" "lease_quiet q e" using p(3) by (simp_all add: q_def)
  have s1: "leaseRenewIfNeeded q e = (SQLITE_OK, q, e)" by (rule leaseRenew_quiet [OF q(2)])
  have nd: "0 \<le> nData q" "ops q = Some store" "accepts (remote e) (blob q) (lease_arg q)"
    using p assms(2) same_db_fields [OF q(1)] by (simp_all add: page_geometry_def)
  obtain aerr p2 e2 w where s2: "sync_resize q (stack_error e) e = (SQLITE_OK, aerr, p2, e2)"
    and acc: "accepts (remote e2) (blob q) (lease_arg q)" and e2: "e2 = e\<lparr>remote := w\<rparr>" and lq: "lease_quiet p2 e2"
    using sync_resize_serves [OF nd(2,3,1), of "stack_error e"] q(2) by blast
  have d2: "same_db p p2" using sync_resize_same [OF s2] q(1) same_db_trans by blast
  have p2: "no_faults e2" "bm_ok (dirty p2)" "page_geometry p2" "cacheFd p2 = Some fd" "fs e2 fd = Some fc"
    using p same_db_fields [OF d2] e2 by (simp_all add: no_faults_def)
  obtain rs where s3: "sync_ranges p2 e2 = (SQLITE_OK, rs, e2)" using sync_ranges_quiet [OF p2(1-3)] by blast
  note runs = sync_ranges_runs(1) [OF s3 p2(2,3)]
  have "list_all (\<lambda>r. 0 \<le> pr_offset r \<and> 0 < pr_len r) rs"
    using page_runs_shape [OF runs p2(3)] by (auto simp: list_all_iff)
  from sync_read_quiet [OF p2(1,4,5) this] obtain rs' p4 m where
    s4: "sync_read rs p2 e2 = (SQLITE_OK, rs', p4, set_file fd (zpad m fc) e2)" and fill: "list_all (filled fc) rs'"
    and ext: "map pr_offset rs' = map pr_offset rs" "map pr_len rs' = map pr_len rs" by blast
  have d4: "same_db p2 p4" by (rule sync_read_same [OF s4])
  have up: "list_all writable_range rs'" "hasLease p4" "lease_quiet p4 (set_file fd (zpad m fc) e2)" "ops p4 = Some store"
    "accepts (remote (set_file fd (zpad m fc) e2)) (blob p4) (lease_arg p4)"
    using filled_writable [OF runs p2(3) fill ext] lq lease_quiet_same_db [OF d4] sync_read_lease [OF s4] p acc
      same_db_fields [OF d4] same_db_fields [OF d2] same_db_fields [OF q(1)] by simp_all
  from sync_upload_serves [OF wr up] obtain p5 e5 where
    s5: "sync_upload wr rs' (bm_nSet (dirty p)) aerr p4 (set_file fd (zpad m fc) e2) = (SQLITE_OK, p5, e5)" by blast
  obtain p6 e6 where s6: "sync_snapshot p5 e5 = (p6, e6)" by fastforce
  have "sync_db p e = (SQLITE_OK, p6, e6)"
    using p(1,9) wr s1 s2 s3 s4 s5 s6 by (simp add: sync_db_def q_def [symmetric] Let_def)
  then show ?thesis by blast
qed

end

context serving_store
begin

text \<open>Both together: total correctness of the sync on a serving store.\<close>

lemma sync_total:
  assumes "sync_ready store p e" and "accepts (remote e) (blob p) (lease_arg p)" and "holds e (blob p) c"
    and "clean_agree p (db_file p e) c" and "nData p \<le> int (length (db_file p e))"
  shows "\<exists>p' e' c'. sqliteObjsSync p e = (SQLITE_OK, p', e') \<and> pages (dirty p') = {} \<and> nData p' = nData p \<and>
    holds e' (blob p) c' \<and> int (length c') = align512 (nData p) \<and> take (nat (nData p)) c' = db_view p e \<and>
    (\<forall>k. byte_at c' k = byte_at (db_file p e) k)"
proof -
  obtain fd fc where p: "eFileType p = MAIN_DB" "ops p = Some store" "no_faults e" "bm_ok (dirty p)"
    "page_geometry p" "cacheFd p = Some fd" "fs e fd = Some fc" "bm_nSet (dirty p) \<noteq> 0"
    using assms(1) by (auto simp: sync_ready_def nSet_zero_iff)
  have fc: "db_file p e = fc" using p(6,7) by (simp add: db_file_def file_of_def)
  obtain p' e' where run: "sync_db p e = (SQLITE_OK, p', e')" using sync_db_serves [OF assms(1,2)] by blast
  have "page_blob_resize store \<noteq> None" using serve_resize [OF assms(2), of 0] by auto
  from sync_db_publishes [OF run p(8,2) this p(4,5,3,6,7) assms(3)] assms(4)
  obtain c' where c': "holds e' (blob p) c'" "int (length c') = align512 (nData p)" "\<And>k. byte_at c' k = byte_at fc k"
    "nData p' = nData p" by (auto simp: fc)
  have "nat (nData p) \<le> length c'" using c'(2) align512_bounds(1) [of "nData p"] by linarith
  then have "take (nat (nData p)) c' = db_view p e"
    using assms(5) c'(3) by (intro bytes_eqI) (auto simp: db_view_def fc byte_at_take)
  moreover have "pages (dirty p') = {}"
    using sync_db_dirty [OF run] p(4,8) bm_ok_shape pages_clearAll by metis
  ultimately show ?thesis using run c' p(1) fc by (auto simp: sqliteObjsSync_def)
qed

end

end
