(* ===== verification/Mock_Azure.thy ===== *)
theory Mock_Azure
  imports Azure_Http Blob_Store
begin

text \<open>
  \<^verbatim>\<open>test/mock_azure_ops.c\<close>: the in-memory implementation of the Azure operations that the repository's own tests
  run the VFS against. Blobs with type, contents, ETag version and lease, a wall clock
  with an offset, call counters and injected failures. It is the provider on which the store and lease
  contracts of the VFS are discharged.

  Allocation in the mock always succeeds here, and the random request id of an error is left empty.
\<close>

section \<open>State\<close>

datatype mock_op =
    OP_PAGE_BLOB_CREATE | OP_PAGE_BLOB_WRITE | OP_PAGE_BLOB_READ | OP_PAGE_BLOB_RESIZE
  | OP_BLOCK_BLOB_UPLOAD | OP_BLOCK_BLOB_DOWNLOAD | OP_BLOB_GET_PROPERTIES | OP_BLOB_DELETE
  | OP_BLOB_EXISTS | OP_LEASE_ACQUIRE | OP_LEASE_RENEW | OP_LEASE_RELEASE | OP_LEASE_BREAK
  | OP_APPEND_BLOB_CREATE | OP_APPEND_BLOB_APPEND | OP_APPEND_BLOB_DELETE
  | OP_BLOCK_BLOB_UPLOAD_PARALLEL | OP_COUNT

datatype blob_type = BLOB_TYPE_PAGE | BLOB_TYPE_BLOCK | BLOB_TYPE_APPEND

datatype mock_lease_state = LEASE_AVAILABLE | LEASE_LEASED | LEASE_BREAKING

text \<open>\<open>mb_data\<close> has the length of the allocated capacity, \<open>mb_size\<close> is the logical size.\<close>

record mock_blob =
  mb_name :: string
  mb_type :: blob_type
  mb_data :: bytes
  mb_size :: int
  mb_etag_version :: nat
  mb_etag :: string
  mb_omit_next_etag :: bool
  mb_lease_state :: mock_lease_state
  mb_lease_id :: string
  mb_lease_duration :: int
  mb_lease_acquired_at :: int
  mb_break_period :: int

record fail_rule =
  fr_call_number :: int
  fr_op_call_number :: int
  fr_op :: mock_op
  fr_error_code :: azure_err
  fr_active :: bool

record mock =
  mk_blobs :: "mock_blob list"
  mk_call_counts :: "mock_op \<Rightarrow> int"
  mk_total_calls :: int
  mk_fail_rules :: "fail_rule list"
  mk_next_lease_num :: nat
  mk_write_records :: "(int \<times> int) list"
  mk_append_records :: "int list"
  mk_time :: int
  mk_time_offset :: int

definition mock_azure_create :: mock where
  "mock_azure_create =
     \<lparr>mk_blobs = [], mk_call_counts = (\<lambda>_. 0), mk_total_calls = 0, mk_fail_rules = [], mk_next_lease_num = 0,
      mk_write_records = [], mk_append_records = [], mk_time = 0, mk_time_offset = 0\<rparr>"

section \<open>Helpers\<close>

fun find_from :: "nat \<Rightarrow> mock_blob list \<Rightarrow> string \<Rightarrow> nat option" where
  "find_from i [] name = None"
| "find_from i (b # bs) name = (if mb_name b = name then Some i else find_from (Suc i) bs name)"

definition find_blob :: "mock \<Rightarrow> string \<Rightarrow> nat option" where
  "find_blob ctx name = find_from 0 (mk_blobs ctx) name"

definition blob_at :: "mock \<Rightarrow> nat \<Rightarrow> mock_blob" where
  "blob_at ctx i = mk_blobs ctx ! i"

definition put_blob :: "nat \<Rightarrow> mock_blob \<Rightarrow> mock \<Rightarrow> mock" where
  "put_blob i b ctx = ctx\<lparr>mk_blobs := (mk_blobs ctx)[i := b]\<rparr>"

text \<open>\<^verbatim>\<open>%04d\<close>\<close>

definition dec4 :: "nat \<Rightarrow> string" where
  "dec4 n = replicate (4 - length (dec_nat n)) (CHR ''0'') @ dec_nat n"

definition bump_etag :: "mock_blob \<Rightarrow> mock_blob" where
  "bump_etag b =
     b\<lparr>mb_etag_version := Suc (mb_etag_version b),
       mb_etag := CHR 0x22 # ''mock-etag-v'' @ dec4 (Suc (mb_etag_version b)) @ [CHR 0x22]\<rparr>"

definition set_etag :: "azure_error \<Rightarrow> mock_blob \<Rightarrow> azure_error \<times> mock_blob" where
  "set_etag err b =
     (if mb_omit_next_etag b then (err\<lparr>err_etag := []\<rparr>, b\<lparr>mb_omit_next_etag := False\<rparr>)
      else if mb_etag b \<noteq> [] then (err\<lparr>err_etag := mb_etag b\<rparr>, b)
      else (err, b))"

definition mock_time_now :: "mock \<Rightarrow> int" where
  "mock_time_now ctx = mk_time ctx + mk_time_offset ctx"

definition mock_lease_expired :: "mock \<Rightarrow> mock_blob \<Rightarrow> bool" where
  "mock_lease_expired ctx b \<longleftrightarrow>
     mb_lease_state b = LEASE_LEASED \<and> 0 \<le> mb_lease_duration b \<and>
     mb_lease_duration b \<le> mock_time_now ctx - mb_lease_acquired_at b"

definition mock_clear_lease :: "mock_blob \<Rightarrow> mock_blob" where
  "mock_clear_lease b =
     b\<lparr>mb_lease_state := LEASE_AVAILABLE, mb_lease_id := [], mb_lease_duration := 0, mb_lease_acquired_at := 0\<rparr>"

definition set_error :: "int \<Rightarrow> string \<Rightarrow> string \<Rightarrow> azure_error" where
  "set_error http_status code msg =
     azure_error_init\<lparr>err_http_status := http_status, err_error_code := code, err_error_message := msg\<rparr>"

definition no_id :: "string option \<Rightarrow> bool" where
  "no_id lease_id \<longleftrightarrow> (case lease_id of None \<Rightarrow> True | Some l \<Rightarrow> l = [])"

definition validate_lease_id ::
  "mock \<Rightarrow> mock_blob \<Rightarrow> string option \<Rightarrow> azure_err \<times> azure_error \<times> mock_blob" where
  "validate_lease_id ctx b lease_id =
     (if mock_lease_expired ctx b
      then (AZURE_ERR_LEASE_EXPIRED, set_error 409 ''LeaseExpired'' ''The lease has expired'', mock_clear_lease b)
      else if no_id lease_id \<and> mb_lease_state b = LEASE_LEASED
      then (AZURE_ERR_CONFLICT, set_error 409 ''LeaseIdMissing'' ''A lease ID is required'', b)
      else if no_id lease_id then (AZURE_OK, azure_error_init, b)
      else if mb_lease_state b \<noteq> LEASE_LEASED \<or> Some (mb_lease_id b) \<noteq> lease_id
      then (AZURE_ERR_CONFLICT, set_error 409 ''LeaseIdMismatch'' ''The lease ID does not match'', b)
      else (AZURE_OK, azure_error_init, b))"

definition new_blob :: "string \<Rightarrow> blob_type \<Rightarrow> mock_blob" where
  "new_blob name ty =
     bump_etag \<lparr>mb_name = take 255 name, mb_type = ty, mb_data = [], mb_size = 0, mb_etag_version = 0,
                mb_etag = [], mb_omit_next_etag = False, mb_lease_state = LEASE_AVAILABLE, mb_lease_id = [],
                mb_lease_duration = 0, mb_lease_acquired_at = 0, mb_break_period = 0\<rparr>"

text \<open>The index of the new blob, \<^term>\<open>None\<close> when all 128 slots are taken.\<close>

definition create_blob :: "mock \<Rightarrow> string \<Rightarrow> blob_type \<Rightarrow> nat option \<times> mock" where
  "create_blob ctx name ty =
     (if 128 \<le> length (mk_blobs ctx) then (None, ctx)
      else (Some (length (mk_blobs ctx)), ctx\<lparr>mk_blobs := mk_blobs ctx @ [new_blob name ty]\<rparr>))"

definition generate_lease_id :: "mock \<Rightarrow> string \<times> mock" where
  "generate_lease_id ctx =
     (''mock-lease-'' @ dec4 (mk_next_lease_num ctx) @ ''-'' @
        map (\<lambda>i. (if i < 10 then char_of (48 + i) else char_of (87 + i)))
          (map (\<lambda>k. nat (mock_time_now ctx div 16 ^ (7 - k) mod 16)) [0..<8]),
      ctx\<lparr>mk_next_lease_num := Suc (mk_next_lease_num ctx)\<rparr>)"

fun fail_check ::
  "int \<Rightarrow> int \<Rightarrow> mock_op \<Rightarrow> fail_rule list \<Rightarrow> azure_err \<times> azure_error \<times> fail_rule list" where
  "fail_check call_num op_call_num oper [] = (AZURE_OK, azure_error_init, [])"
| "fail_check call_num op_call_num oper (r # rs) =
     (if fr_active r \<and> fr_call_number r > 0 \<and> fr_call_number r = call_num
      then (fr_error_code r, set_error 500 ''InjectedFailure'' ''Mock failure injection'',
            r\<lparr>fr_active := False\<rparr> # rs)
      else if fr_active r \<and> fr_op_call_number r > 0 \<and> fr_op r = oper \<and> fr_op_call_number r = op_call_num
      then (fr_error_code r, set_error 500 ''InjectedFailure'' ''Mock failure injection (by op call #)'',
            r\<lparr>fr_active := False\<rparr> # rs)
      else if fr_active r \<and> fr_call_number r = 0 \<and> fr_op_call_number r = 0 \<and> fr_op r = oper
      then (fr_error_code r, set_error 500 ''InjectedFailure'' ''Mock failure injection (by op)'', r # rs)
      else case fail_check call_num op_call_num oper rs of (rc, err, rs) \<Rightarrow> (rc, err, r # rs))"

definition pre_call :: "mock_op \<Rightarrow> mock \<Rightarrow> azure_err \<times> azure_error \<times> mock" where
  "pre_call oper ctx =
     (let ctx = ctx\<lparr>mk_call_counts := (mk_call_counts ctx)(oper := mk_call_counts ctx oper + 1),
                    mk_total_calls := mk_total_calls ctx + 1\<rparr> in
      case fail_check (mk_total_calls ctx) (mk_call_counts ctx oper) oper (mk_fail_rules ctx) of
        (rc, err, rules) \<Rightarrow> (rc, err, ctx\<lparr>mk_fail_rules := rules\<rparr>))"

text \<open>\<^verbatim>\<open>ensure_capacity\<close> for a non-negative size.\<close>

definition ensure_capacity :: "mock_blob \<Rightarrow> int \<Rightarrow> mock_blob" where
  "ensure_capacity b needed =
     (if needed \<le> int (length (mb_data b)) then b
      else
        let new_cap = (if mb_type b = BLOB_TYPE_PAGE then (needed + 511) AND NOT 511 else needed)
        in b\<lparr>mb_data := zpad (nat new_cap) (mb_data b)\<rparr>)"

definition not_found :: "string \<Rightarrow> azure_error" where
  "not_found msg = set_error 404 ''BlobNotFound'' msg"

section \<open>Page blobs\<close>

definition mock_page_blob_create :: "string \<Rightarrow> int \<Rightarrow> mock azure_call" where
  "mock_page_blob_create name sz ctx =
     (case pre_call OP_PAGE_BLOB_CREATE ctx of (rc, err, ctx) \<Rightarrow>
      if rc \<noteq> AZURE_OK then (rc, err, ctx)
      else if sz < 0 \<or> c_mod sz 512 \<noteq> 0 \<and> sz \<noteq> 0
      then (AZURE_ERR_ALIGNMENT, set_error 400 ''InvalidHeaderValue'' ''Page blob size must be aligned to 512 bytes'', ctx)
      else case find_blob ctx name of
        Some i \<Rightarrow>
          let b = blob_at ctx i in
          if mb_type b \<noteq> BLOB_TYPE_PAGE
          then (AZURE_ERR_CONFLICT, set_error 409 ''BlobTypeMismatch'' ''Blob exists as different type'', ctx)
          else
            (case set_etag err (bump_etag ((ensure_capacity b sz)\<lparr>mb_size := sz\<rparr>)) of (err, b) \<Rightarrow>
               (AZURE_OK, err, put_blob i b ctx))
      | None \<Rightarrow>
          (case create_blob ctx name BLOB_TYPE_PAGE of
             (None, ctx) \<Rightarrow> (AZURE_ERR_NOMEM, set_error 500 ''OutOfMemory'' ''Too many blobs'', ctx)
           | (Some i, ctx) \<Rightarrow>
               let b = blob_at ctx i; b = (if sz > 0 then ensure_capacity b sz else b) in
               (case set_etag err (b\<lparr>mb_size := sz\<rparr>) of (err, b) \<Rightarrow> (AZURE_OK, err, put_blob i b ctx))))"

definition mock_page_blob_write ::
  "string \<Rightarrow> int \<Rightarrow> bytes \<Rightarrow> string option \<Rightarrow> string option \<Rightarrow> mock azure_call" where
  "mock_page_blob_write name off d lease_id if_match ctx =
     (case pre_call OP_PAGE_BLOB_WRITE ctx of (rc, err, ctx) \<Rightarrow>
      if rc \<noteq> AZURE_OK then (rc, err, ctx)
      else if c_mod off 512 \<noteq> 0
      then (AZURE_ERR_ALIGNMENT, set_error 400 ''InvalidHeaderValue'' ''Page write offset must be aligned to 512 bytes'', ctx)
      else if length d mod 512 \<noteq> 0
      then (AZURE_ERR_ALIGNMENT, set_error 400 ''InvalidHeaderValue'' ''Page write length must be aligned to 512 bytes'', ctx)
      else case find_blob ctx name of
        None \<Rightarrow> (AZURE_ERR_NOT_FOUND, not_found ''Page blob not found'', ctx)
      | Some i \<Rightarrow>
          let b = blob_at ctx i in
          if mb_type b \<noteq> BLOB_TYPE_PAGE then (AZURE_ERR_NOT_FOUND, not_found ''Page blob not found'', ctx)
          else
            case validate_lease_id ctx b lease_id of (rc, lerr, b) \<Rightarrow>
            if rc \<noteq> AZURE_OK then (rc, lerr, put_blob i b ctx)
            else
              let en = off + int (length d);
                  b = (if mb_size b < en then (ensure_capacity b en)\<lparr>mb_size := en\<rparr> else b);
                  b = b\<lparr>mb_data := put (mb_data b) (nat off) d\<rparr> in
              (case set_etag err (bump_etag b) of (err, b) \<Rightarrow>
               let ctx = put_blob i b ctx;
                   ctx = (if length (mk_write_records ctx) < 1024
                          then ctx\<lparr>mk_write_records := mk_write_records ctx @ [(off, int (length d))]\<rparr> else ctx)
               in (AZURE_OK, err, ctx)))"

definition mock_page_blob_read :: "string \<Rightarrow> int \<Rightarrow> int \<Rightarrow> (mock, bytes) azure_query" where
  "mock_page_blob_read name off len ctx =
     (case pre_call OP_PAGE_BLOB_READ ctx of (rc, err, ctx) \<Rightarrow>
      if rc \<noteq> AZURE_OK then (rc, [], err, ctx)
      else case find_blob ctx name of
        None \<Rightarrow> (AZURE_ERR_NOT_FOUND, [], not_found ''Page blob not found'', ctx)
      | Some i \<Rightarrow>
          let b = blob_at ctx i in
          if mb_type b \<noteq> BLOB_TYPE_PAGE then (AZURE_ERR_NOT_FOUND, [], not_found ''Page blob not found'', ctx)
          else if mb_size b < off
          then (AZURE_ERR_INVALID_ARG, [], set_error 416 ''InvalidRange'' ''Offset past end of blob'', ctx)
          else
            let avail = mb_size b - off;
                to_read = (if len < avail then len else avail)
            in (AZURE_OK, bslice (mb_data b) (nat off) (nat to_read) @ replicate (nat (len - to_read)) 0, err, ctx))"

definition mock_page_blob_resize :: "string \<Rightarrow> int \<Rightarrow> string option \<Rightarrow> mock azure_call" where
  "mock_page_blob_resize name new_size lease_id ctx =
     (case pre_call OP_PAGE_BLOB_RESIZE ctx of (rc, err, ctx) \<Rightarrow>
      if rc \<noteq> AZURE_OK then (rc, err, ctx)
      else if new_size < 0 \<or> c_mod new_size 512 \<noteq> 0 \<and> new_size \<noteq> 0
      then (AZURE_ERR_ALIGNMENT, set_error 400 ''InvalidHeaderValue'' ''Page blob size must be aligned to 512 bytes'', ctx)
      else case find_blob ctx name of
        None \<Rightarrow> (AZURE_ERR_NOT_FOUND, not_found ''Page blob not found'', ctx)
      | Some i \<Rightarrow>
          let b = blob_at ctx i in
          if mb_type b \<noteq> BLOB_TYPE_PAGE then (AZURE_ERR_NOT_FOUND, not_found ''Page blob not found'', ctx)
          else
            case validate_lease_id ctx b lease_id of (rc, lerr, b) \<Rightarrow>
            if rc \<noteq> AZURE_OK then (rc, lerr, put_blob i b ctx)
            else
              let b = (if mb_size b < new_size then ensure_capacity b new_size else b) in
              (case set_etag err (bump_etag (b\<lparr>mb_size := new_size\<rparr>)) of (err, b) \<Rightarrow>
                 (AZURE_OK, err, put_blob i b ctx)))"

section \<open>Block blobs\<close>

text \<open>\<^verbatim>\<open>block_blob_upload\<close> and \<^verbatim>\<open>block_blob_upload_parallel\<close> have the same body.\<close>

definition mock_upload :: "mock_op \<Rightarrow> string \<Rightarrow> bytes \<Rightarrow> mock azure_call" where
  "mock_upload oper name d ctx =
     (case pre_call oper ctx of (rc, err, ctx) \<Rightarrow>
      if rc \<noteq> AZURE_OK then (rc, err, ctx)
      else
        case (case find_blob ctx name of
                Some i \<Rightarrow>
                  if mb_type (blob_at ctx i) \<noteq> BLOB_TYPE_BLOCK
                  then Inl (AZURE_ERR_CONFLICT, set_error 409 ''BlobTypeMismatch'' ''Blob exists as different type'', ctx)
                  else Inr (i, ctx)
              | None \<Rightarrow>
                  (case create_blob ctx name BLOB_TYPE_BLOCK of
                     (None, ctx) \<Rightarrow> Inl (AZURE_ERR_NOMEM, set_error 500 ''OutOfMemory'' ''Too many blobs'', ctx)
                   | (Some i, ctx) \<Rightarrow> Inr (i, ctx))) of
          Inl r \<Rightarrow> r
        | Inr (i, ctx) \<Rightarrow>
            (case set_etag err (bump_etag ((blob_at ctx i)\<lparr>mb_data := d, mb_size := int (length d),
                                                            mb_type := BLOB_TYPE_BLOCK\<rparr>)) of (err, b) \<Rightarrow>
               (AZURE_OK, err, put_blob i b ctx)))"

definition mock_block_blob_upload :: "string \<Rightarrow> bytes \<Rightarrow> mock azure_call" where
  "mock_block_blob_upload name d = mock_upload OP_BLOCK_BLOB_UPLOAD name d"

definition mock_block_blob_upload_parallel :: "string \<Rightarrow> bytes \<Rightarrow> int \<Rightarrow> mock azure_call" where
  "mock_block_blob_upload_parallel name d chunk_size = mock_upload OP_BLOCK_BLOB_UPLOAD_PARALLEL name d"

definition mock_block_blob_download :: "string \<Rightarrow> (mock, bytes) azure_query" where
  "mock_block_blob_download name ctx =
     (case pre_call OP_BLOCK_BLOB_DOWNLOAD ctx of (rc, err, ctx) \<Rightarrow>
      if rc \<noteq> AZURE_OK then (rc, [], err, ctx)
      else case find_blob ctx name of
        None \<Rightarrow> (AZURE_ERR_NOT_FOUND, [], not_found ''Block blob not found'', ctx)
      | Some i \<Rightarrow>
          let b = blob_at ctx i in
          if mb_type b \<noteq> BLOB_TYPE_BLOCK then (AZURE_ERR_NOT_FOUND, [], not_found ''Block blob not found'', ctx)
          else (AZURE_OK, take (nat (mb_size b)) (mb_data b), err, ctx))"

section \<open>Common operations\<close>

definition mock_blob_get_properties :: "string \<Rightarrow> (mock, int \<times> string \<times> string) azure_query" where
  "mock_blob_get_properties name ctx =
     (case pre_call OP_BLOB_GET_PROPERTIES ctx of (rc, err, ctx) \<Rightarrow>
      if rc \<noteq> AZURE_OK then (rc, (0, [], []), err, ctx)
      else case find_blob ctx name of
        None \<Rightarrow> (AZURE_ERR_NOT_FOUND, (0, [], []), not_found ''Blob not found'', ctx)
      | Some i \<Rightarrow>
          let b = blob_at ctx i;
              b = (if mock_lease_expired ctx b then mock_clear_lease b else b);
              st = (case mb_lease_state b of LEASE_AVAILABLE \<Rightarrow> ''available'' | LEASE_LEASED \<Rightarrow> ''leased''
                    | LEASE_BREAKING \<Rightarrow> ''breaking'');
              status = (if mb_lease_state b = LEASE_LEASED \<or> mb_lease_state b = LEASE_BREAKING
                        then ''locked'' else ''unlocked'') in
          (case set_etag err b of (err, b') \<Rightarrow>
             (AZURE_OK, (mb_size b, st, status), err, put_blob i b' ctx)))"

definition remove_nth :: "nat \<Rightarrow> 'a list \<Rightarrow> 'a list" where
  "remove_nth i xs = take i xs @ drop (Suc i) xs"

definition mock_delete :: "mock_op \<Rightarrow> string \<Rightarrow> mock azure_call" where
  "mock_delete oper name ctx =
     (case pre_call oper ctx of (rc, err, ctx) \<Rightarrow>
      if rc \<noteq> AZURE_OK then (rc, err, ctx)
      else case find_blob ctx name of
        None \<Rightarrow> (AZURE_ERR_NOT_FOUND, not_found ''Blob not found'', ctx)
      | Some i \<Rightarrow> (AZURE_OK, err, ctx\<lparr>mk_blobs := remove_nth i (mk_blobs ctx)\<rparr>))"

definition mock_blob_delete :: "string \<Rightarrow> mock azure_call" where
  "mock_blob_delete name = mock_delete OP_BLOB_DELETE name"

definition mock_blob_exists :: "string \<Rightarrow> (mock, bool) azure_query" where
  "mock_blob_exists name ctx =
     (case pre_call OP_BLOB_EXISTS ctx of (rc, err, ctx) \<Rightarrow>
      if rc \<noteq> AZURE_OK then (rc, False, err, ctx)
      else (AZURE_OK, find_blob ctx name \<noteq> None, err, ctx))"

section \<open>Leases\<close>

definition mock_lease_acquire :: "string \<Rightarrow> int \<Rightarrow> (mock, string option) azure_query" where
  "mock_lease_acquire name duration_secs ctx =
     (case pre_call OP_LEASE_ACQUIRE ctx of (rc, err, ctx) \<Rightarrow>
      if rc \<noteq> AZURE_OK then (rc, None, err, ctx)
      else case find_blob ctx name of
        None \<Rightarrow> (AZURE_ERR_NOT_FOUND, None, not_found ''Blob not found'', ctx)
      | Some i \<Rightarrow>
          let b = blob_at ctx i;
              b = (if mock_lease_expired ctx b then mock_clear_lease b else b) in
          if mb_lease_state b = LEASE_LEASED
          then (AZURE_ERR_CONFLICT, None, set_error 409 ''LeaseAlreadyPresent'' ''There is already a lease present'',
                put_blob i b ctx)
          else if mb_lease_state b = LEASE_BREAKING
          then (AZURE_ERR_CONFLICT, None, set_error 409 ''LeaseIsBreaking'' ''The lease is in breaking state'',
                put_blob i b ctx)
          else
            (case generate_lease_id ctx of (lid, ctx') \<Rightarrow>
             let b = b\<lparr>mb_lease_state := LEASE_LEASED, mb_lease_duration := duration_secs,
                       mb_lease_acquired_at := mock_time_now ctx, mb_lease_id := take 36 lid\<rparr>
             in (AZURE_OK, Some (take 36 lid), err, put_blob i b ctx')))"

text \<open>The checks \<^verbatim>\<open>lease_renew\<close> and \<^verbatim>\<open>lease_release\<close> share; \<open>f\<close> is what each does to the blob when they pass.\<close>

definition mock_lease_op :: "mock_op \<Rightarrow> (mock \<Rightarrow> mock_blob \<Rightarrow> mock_blob) \<Rightarrow> string \<Rightarrow> string \<Rightarrow> mock azure_call" where
  "mock_lease_op oper f name lease_id ctx =
     (case pre_call oper ctx of (rc, err, ctx) \<Rightarrow>
      if rc \<noteq> AZURE_OK then (rc, err, ctx)
      else case find_blob ctx name of
        None \<Rightarrow> (AZURE_ERR_NOT_FOUND, not_found ''Blob not found'', ctx)
      | Some i \<Rightarrow>
          let b = blob_at ctx i in
          if mock_lease_expired ctx b
          then (AZURE_ERR_LEASE_EXPIRED, set_error 409 ''LeaseExpired'' ''The lease has expired'',
                put_blob i (mock_clear_lease b) ctx)
          else if mb_lease_state b \<noteq> LEASE_LEASED
          then (AZURE_ERR_CONFLICT, set_error 409 ''LeaseNotPresent'' ''There is currently no lease on the blob'', ctx)
          else if mb_lease_id b \<noteq> lease_id
          then (AZURE_ERR_CONFLICT, set_error 409 ''LeaseIdMismatch'' ''The lease ID does not match'', ctx)
          else (AZURE_OK, err, put_blob i (f ctx b) ctx))"

definition mock_lease_renew :: "string \<Rightarrow> string \<Rightarrow> mock azure_call" where
  "mock_lease_renew = mock_lease_op OP_LEASE_RENEW (\<lambda>ctx b. b\<lparr>mb_lease_acquired_at := mock_time_now ctx\<rparr>)"

definition mock_lease_release :: "string \<Rightarrow> string \<Rightarrow> mock azure_call" where
  "mock_lease_release =
     mock_lease_op OP_LEASE_RELEASE (\<lambda>ctx b. b\<lparr>mb_lease_state := LEASE_AVAILABLE, mb_lease_id := []\<rparr>)"

definition mock_lease_break :: "string \<Rightarrow> int \<Rightarrow> (mock, int) azure_query" where
  "mock_lease_break name break_period_secs ctx =
     (case pre_call OP_LEASE_BREAK ctx of (rc, err, ctx) \<Rightarrow>
      if rc \<noteq> AZURE_OK then (rc, 0, err, ctx)
      else case find_blob ctx name of
        None \<Rightarrow> (AZURE_ERR_NOT_FOUND, 0, not_found ''Blob not found'', ctx)
      | Some i \<Rightarrow>
          let b = blob_at ctx i in
          if mb_lease_state b = LEASE_AVAILABLE
          then (AZURE_ERR_CONFLICT, 0, set_error 409 ''LeaseNotPresent'' ''There is currently no lease on the blob'', ctx)
          else if break_period_secs \<le> 0
          then (AZURE_OK, 0, err, put_blob i (b\<lparr>mb_lease_state := LEASE_AVAILABLE, mb_lease_id := []\<rparr>) ctx)
          else (AZURE_OK, break_period_secs, err,
                put_blob i (b\<lparr>mb_lease_state := LEASE_BREAKING, mb_break_period := break_period_secs\<rparr>) ctx))"

section \<open>Append blobs\<close>

definition mock_append_blob_create :: "string \<Rightarrow> string option \<Rightarrow> mock azure_call" where
  "mock_append_blob_create name lease_id ctx =
     (case pre_call OP_APPEND_BLOB_CREATE ctx of (rc, err, ctx) \<Rightarrow>
      if rc \<noteq> AZURE_OK then (rc, err, ctx)
      else case find_blob ctx name of
        Some i \<Rightarrow>
          let b = blob_at ctx i in
          if mb_type b \<noteq> BLOB_TYPE_APPEND
          then (AZURE_ERR_CONFLICT, set_error 409 ''BlobTypeMismatch'' ''Blob exists as different type'', ctx)
          else (AZURE_OK, err, put_blob i (b\<lparr>mb_size := 0\<rparr>) ctx)
      | None \<Rightarrow>
          (case create_blob ctx name BLOB_TYPE_APPEND of
             (None, ctx) \<Rightarrow> (AZURE_ERR_NOMEM, set_error 500 ''OutOfMemory'' ''Too many blobs'', ctx)
           | (Some i, ctx) \<Rightarrow> (AZURE_OK, err, ctx)))"

definition mock_append_blob_append :: "string \<Rightarrow> bytes \<Rightarrow> string option \<Rightarrow> mock azure_call" where
  "mock_append_blob_append name d lease_id ctx =
     (case pre_call OP_APPEND_BLOB_APPEND ctx of (rc, err, ctx) \<Rightarrow>
      if rc \<noteq> AZURE_OK then (rc, err, ctx)
      else if d = []
      then (AZURE_ERR_INVALID_ARG, set_error 400 ''InvalidHeaderValue'' ''Append data must be non-NULL with length > 0'', ctx)
      else case find_blob ctx name of
        None \<Rightarrow> (AZURE_ERR_NOT_FOUND, not_found ''Append blob not found'', ctx)
      | Some i \<Rightarrow>
          let b = blob_at ctx i in
          if mb_type b \<noteq> BLOB_TYPE_APPEND then (AZURE_ERR_NOT_FOUND, not_found ''Append blob not found'', ctx)
          else
            let new_size = mb_size b + int (length d);
                c = ensure_capacity b new_size;
                c = c\<lparr>mb_data := put (mb_data c) (nat (mb_size b)) d, mb_size := new_size\<rparr>;
                ctx = (if length (mk_append_records ctx) < 1024
                       then ctx\<lparr>mk_append_records := mk_append_records ctx @ [int (length d)]\<rparr> else ctx) in
            (case set_etag err (bump_etag c) of (err, c) \<Rightarrow> (AZURE_OK, err, put_blob i c ctx)))"

definition mock_append_blob_delete :: "string \<Rightarrow> string option \<Rightarrow> mock azure_call" where
  "mock_append_blob_delete name lease_id = mock_delete OP_APPEND_BLOB_DELETE name"

section \<open>The vtable\<close>

definition mock_ops :: "mock azure_ops" where
  "mock_ops =
     \<lparr>page_blob_create = Some mock_page_blob_create, page_blob_write = Some mock_page_blob_write,
      page_blob_read = Some mock_page_blob_read, page_blob_resize = Some mock_page_blob_resize,
      block_blob_upload = Some mock_block_blob_upload, block_blob_download = Some mock_block_blob_download,
      blob_get_properties = Some mock_blob_get_properties, blob_delete = Some mock_blob_delete,
      blob_undelete = None, blob_exists = Some mock_blob_exists, lease_acquire = Some mock_lease_acquire,
      lease_renew = Some mock_lease_renew, lease_release = Some mock_lease_release,
      lease_break = Some mock_lease_break, page_blob_write_batch = None, page_blob_read_multi = None,
      append_blob_create = Some mock_append_blob_create, append_blob_append = Some mock_append_blob_append,
      append_blob_delete = Some mock_append_blob_delete,
      block_blob_upload_parallel = Some mock_block_blob_upload_parallel,
      blob_snapshot_create = None, blob_get_page_ranges_diff = None\<rparr>"

section \<open>The mock keeps the store contract\<close>

definition mock_content :: "mock \<Rightarrow> string \<Rightarrow> bytes option" where
  "mock_content ctx name =
     (case find_blob ctx name of
        None \<Rightarrow> None
      | Some i \<Rightarrow> if mb_type (blob_at ctx i) = BLOB_TYPE_PAGE
                   then Some (take (nat (mb_size (blob_at ctx i))) (mb_data (blob_at ctx i))) else None)"

definition blob_sound :: "mock_blob \<Rightarrow> bool" where
  "blob_sound b \<longleftrightarrow> (mb_type b = BLOB_TYPE_PAGE \<longrightarrow>
     0 \<le> mb_size b \<and> nat (mb_size b) \<le> length (mb_data b) \<and> (\<forall>i \<ge> nat (mb_size b). byte_at (mb_data b) i = 0))"

definition mock_ok :: "mock \<Rightarrow> bool" where
  "mock_ok ctx \<longleftrightarrow> list_all blob_sound (mk_blobs ctx)"

text \<open>\<open>lid\<close> is the unexpired lease of the page blob, and no failure is to be injected.\<close>

definition mock_accepts :: "mock \<Rightarrow> string \<Rightarrow> string option \<Rightarrow> bool" where
  "mock_accepts ctx name lid \<longleftrightarrow>
     mk_fail_rules ctx = [] \<and>
     (case (find_blob ctx name, lid) of
        (Some i, Some l) \<Rightarrow>
          mb_type (blob_at ctx i) = BLOB_TYPE_PAGE \<and> \<not> mock_lease_expired ctx (blob_at ctx i) \<and>
          mb_lease_state (blob_at ctx i) = LEASE_LEASED \<and> mb_lease_id (blob_at ctx i) = l \<and> l \<noteq> []
      | _ \<Rightarrow> False)"

subsection \<open>Blobs by name\<close>

lemma find_from_Some: "find_from k bs n = Some i \<Longrightarrow> k \<le> i \<and> i - k < length bs \<and> mb_name (bs ! (i - k)) = n"
  by (induction k bs n rule: find_from.induct) (auto simp: nth_Cons' split: if_splits)

lemma find_from_names: "map mb_name bs = map mb_name bs' \<Longrightarrow> find_from k bs n = find_from k bs' n"
proof (induction bs arbitrary: k bs')
  case (Cons b bs)
  then show ?case by (cases bs') auto
qed simp

lemma find_blob_index: "find_blob ctx name = Some i \<Longrightarrow> i < length (mk_blobs ctx)"
  unfolding find_blob_def by (drule find_from_Some) simp

lemma find_put_blob:
  "find_blob ctx name = Some i \<Longrightarrow> mb_name b = mb_name (blob_at ctx i) \<Longrightarrow> find_blob (put_blob i b ctx) n = find_blob ctx n"
  unfolding find_blob_def put_blob_def blob_at_def
  by (rule find_from_names, rule nth_equalityI) (auto simp: nth_list_update dest!: find_from_Some)

lemma blob_at_put: "i < length (mk_blobs ctx) \<Longrightarrow> blob_at (put_blob i b ctx) j = (if j = i then b else blob_at ctx j)"
  by (simp add: blob_at_def put_blob_def nth_list_update)

lemma put_blob_frame [simp]:
  "mk_fail_rules (put_blob i b ctx) = mk_fail_rules ctx" "mock_time_now (put_blob i b ctx) = mock_time_now ctx"
  by (simp_all add: put_blob_def mock_time_now_def)

lemma mock_ok_put: "mock_ok ctx \<Longrightarrow> blob_sound b \<Longrightarrow> mock_ok (put_blob i b ctx)"
  by (auto simp: mock_ok_def put_blob_def list_all_iff dest!: subsetD [OF set_update_subset_insert])

lemma mock_ok_at: "mock_ok ctx \<Longrightarrow> find_blob ctx name = Some i \<Longrightarrow> blob_sound (blob_at ctx i)"
  using find_blob_index by (auto simp: mock_ok_def list_all_iff blob_at_def)

lemma pre_call_frame:
  assumes "pre_call oper ctx = (rc, err, ctx')"
  shows "mk_blobs ctx' = mk_blobs ctx" "mock_time_now ctx' = mock_time_now ctx" "find_blob ctx' = find_blob ctx"
    "blob_at ctx' = blob_at ctx" "mock_ok ctx' = mock_ok ctx" "mock_content ctx' = mock_content ctx"
    "mk_fail_rules ctx = [] \<Longrightarrow> mk_fail_rules ctx' = [] \<and> rc = AZURE_OK" "mock_lease_expired ctx' = mock_lease_expired ctx"
    "validate_lease_id ctx' = validate_lease_id ctx"
  using assms
  by (auto simp: pre_call_def Let_def mock_time_now_def find_blob_def blob_at_def mock_ok_def mock_content_def fun_eq_iff
      mock_lease_expired_def validate_lease_id_def split: prod.splits option.split)

lemma validate_ok: "validate_lease_id ctx b lid = (AZURE_OK, err, b') \<Longrightarrow> b' = b"
  by (auto simp: validate_lease_id_def split: if_splits)

lemma set_etag_fields:
  assumes "set_etag err b = (err', b')"
  shows "mb_name b' = mb_name b" "mb_type b' = mb_type b" "mb_data b' = mb_data b" "mb_size b' = mb_size b"
    "mb_lease_state b' = mb_lease_state b" "mb_lease_id b' = mb_lease_id b" "mb_lease_duration b' = mb_lease_duration b"
    "mb_lease_acquired_at b' = mb_lease_acquired_at b" "mb_etag b' = mb_etag b" "mb_etag_version b' = mb_etag_version b"
  using assms by (auto simp: set_etag_def split: if_splits)

lemma bump_etag_fields [simp]:
  "mb_name (bump_etag b) = mb_name b" "mb_type (bump_etag b) = mb_type b" "mb_data (bump_etag b) = mb_data b"
  "mb_size (bump_etag b) = mb_size b" "mb_lease_state (bump_etag b) = mb_lease_state b"
  "mb_lease_id (bump_etag b) = mb_lease_id b" "mb_lease_duration (bump_etag b) = mb_lease_duration b"
  "mb_lease_acquired_at (bump_etag b) = mb_lease_acquired_at b"
  by (simp_all add: bump_etag_def)

lemma ensure_capacity_fields [simp]:
  "mb_name (ensure_capacity b n) = mb_name b" "mb_type (ensure_capacity b n) = mb_type b"
  "mb_size (ensure_capacity b n) = mb_size b" "mb_lease_state (ensure_capacity b n) = mb_lease_state b"
  "mb_lease_id (ensure_capacity b n) = mb_lease_id b" "mb_lease_duration (ensure_capacity b n) = mb_lease_duration b"
  "mb_lease_acquired_at (ensure_capacity b n) = mb_lease_acquired_at b"
  "byte_at (mb_data (ensure_capacity b n)) k = byte_at (mb_data b) k"
  by (simp_all add: ensure_capacity_def Let_def)

lemma ensure_capacity_length: "n \<le> int (length (mb_data (ensure_capacity b n)))" "length (mb_data b) \<le> length (mb_data (ensure_capacity b n))"
  using align512_bounds(1) [of n] by (auto simp: ensure_capacity_def align512_def Let_def)

subsection \<open>Writes\<close>

text \<open>The blob a successful write leaves.\<close>

definition written_blob :: "mock_blob \<Rightarrow> int \<Rightarrow> bytes \<Rightarrow> mock_blob" where
  "written_blob b off d =
     (let en = off + int (length d);
          b = (if mb_size b < en then (ensure_capacity b en)\<lparr>mb_size := en\<rparr> else b)
      in b\<lparr>mb_data := put (mb_data b) (nat off) d\<rparr>)"

lemma written_blob_fields [simp]:
  "mb_name (written_blob b off d) = mb_name b" "mb_type (written_blob b off d) = mb_type b"
  "mb_lease_state (written_blob b off d) = mb_lease_state b" "mb_lease_id (written_blob b off d) = mb_lease_id b"
  "mb_lease_duration (written_blob b off d) = mb_lease_duration b"
  "mb_lease_acquired_at (written_blob b off d) = mb_lease_acquired_at b"
  "mb_size (written_blob b off d) = max (mb_size b) (off + int (length d))"
  by (simp_all add: written_blob_def Let_def max_def)

lemma written_blob_data:
  assumes "blob_sound b" and "mb_type b = BLOB_TYPE_PAGE" and "0 \<le> off"
  shows "blob_sound (written_blob b off d)"
    "take (nat (mb_size (written_blob b off d))) (mb_data (written_blob b off d)) =
      put (take (nat (mb_size b)) (mb_data b)) (nat off) d"
proof -
  have b: "0 \<le> mb_size b" "nat (mb_size b) \<le> length (mb_data b)" "\<And>i. nat (mb_size b) \<le> i \<Longrightarrow> byte_at (mb_data b) i = 0"
    using assms(1,2) by (auto simp: blob_sound_def)
  have bytes: "byte_at (mb_data (written_blob b off d)) i = byte_at (put (mb_data b) (nat off) d) i" for i
    by (simp add: written_blob_def byte_at_put Let_def)
  have len: "nat (max (mb_size b) (off + int (length d))) \<le> length (mb_data (written_blob b off d))"
    using b(2) assms(3) ensure_capacity_length(1) [of "off + int (length d)" b]
    by (auto simp: written_blob_def Let_def)
  show "blob_sound (written_blob b off d)"
    using assms(2,3) b(1,3) len by (auto simp: blob_sound_def bytes byte_at_put)
  show "take (nat (mb_size (written_blob b off d))) (mb_data (written_blob b off d)) =
      put (take (nat (mb_size b)) (mb_data b)) (nat off) d"
  proof (rule bytes_eqI)
    show "length (take (nat (mb_size (written_blob b off d))) (mb_data (written_blob b off d))) =
        length (put (take (nat (mb_size b)) (mb_data b)) (nat off) d)"
      using len b(1,2) assms(3) by simp
  next
    fix i
    show "byte_at (take (nat (mb_size (written_blob b off d))) (mb_data (written_blob b off d))) i =
        byte_at (put (take (nat (mb_size b)) (mb_data b)) (nat off) d) i"
      using assms(3) b(3) [of i] by (auto simp: byte_at_take bytes byte_at_put)
  qed
qed

lemma mock_write_cases:
  assumes "mock_page_blob_write name off d lid im ctx = (AZURE_OK, err, ctx')"
  obtains i e1 ctx1 e2 e3 b rs where "find_blob ctx name = Some i" "mb_type (blob_at ctx i) = BLOB_TYPE_PAGE"
    "pre_call OP_PAGE_BLOB_WRITE ctx = (AZURE_OK, e1, ctx1)"
    "validate_lease_id ctx (blob_at ctx i) lid = (AZURE_OK, e2, blob_at ctx i)"
    "set_etag e1 (bump_etag (written_blob (blob_at ctx i) off d)) = (e3, b)"
    "ctx' = (put_blob i b ctx1)\<lparr>mk_write_records := rs\<rparr>"
proof -
  obtain rc e1 ctx1 where 1: "pre_call OP_PAGE_BLOB_WRITE ctx = (rc, e1, ctx1)" by (rule prod_cases3)
  note fr = pre_call_frame [OF 1]
  have ok: "rc = AZURE_OK" and al: "c_mod off 512 = 0" "length d mod 512 = 0"
    using assms 1 by (auto simp: mock_page_blob_write_def split: if_splits)
  obtain i where i: "find_blob ctx name = Some i" "mb_type (blob_at ctx i) = BLOB_TYPE_PAGE"
    using assms 1 ok al fr(3,4)
    by (cases "find_blob ctx name") (auto simp: mock_page_blob_write_def Let_def split: if_splits)
  obtain rc2 e2 b2 where 2: "validate_lease_id ctx (blob_at ctx i) lid = (rc2, e2, b2)" by (rule prod_cases3)
  have ok2: "rc2 = AZURE_OK" using assms 1 ok al i 2 fr(3,4,9)
    by (auto simp: mock_page_blob_write_def Let_def split: if_splits)
  then have b2: "b2 = blob_at ctx i" using validate_ok 2 by blast
  obtain e3 b where 3: "set_etag e1 (bump_etag (written_blob (blob_at ctx i) off d)) = (e3, b)" by fastforce
  then have "ctx' = (put_blob i b ctx1)\<lparr>mk_write_records := (if length (mk_write_records (put_blob i b ctx1)) < 1024
      then mk_write_records (put_blob i b ctx1) @ [(off, int (length d))] else mk_write_records (put_blob i b ctx1))\<rparr>"
    using assms 1 ok al i 2 ok2 b2 fr(3,4,9)
    by (auto simp: mock_page_blob_write_def written_blob_def Let_def split: if_splits)
  then show ?thesis using that i 1 ok 2 ok2 b2 3 by blast
qed

text \<open>Replacing a blob and keeping its name.\<close>

lemma replace_blob:
  assumes "pre_call oper ctx = (rc, err, ctx1)" and "find_blob ctx name = Some i" and "mb_name b = mb_name (blob_at ctx i)"
    and "mk_blobs ctx' = mk_blobs (put_blob i b ctx1)"
  shows "find_blob ctx' = find_blob ctx" "blob_at ctx' j = (if j = i then b else blob_at ctx j)"
    "mock_ok ctx \<Longrightarrow> blob_sound b \<Longrightarrow> mock_ok ctx'"
    "mock_content ctx' name = (if mb_type b = BLOB_TYPE_PAGE then Some (take (nat (mb_size b)) (mb_data b)) else None)"
    "nm \<noteq> name \<Longrightarrow> mock_content ctx' nm = mock_content ctx nm"
proof -
  note fr = pre_call_frame [OF assms(1)]
  have f1: "find_blob ctx1 name = Some i" "mb_name b = mb_name (blob_at ctx1 i)" using assms(2,3) fr by simp_all
  have fb: "find_blob ctx' = find_blob (put_blob i b ctx1)" "blob_at ctx' = blob_at (put_blob i b ctx1)"
    using assms(4) by (auto simp: find_blob_def blob_at_def fun_eq_iff)
  show f: "find_blob ctx' = find_blob ctx" using fb find_put_blob [OF f1] fr by auto
  have il: "i < length (mk_blobs ctx1)" by (rule find_blob_index [OF f1(1)])
  show at: "blob_at ctx' j = (if j = i then b else blob_at ctx j)" for j
    using fb blob_at_put [OF il] fr by simp
  show "mock_ok ctx \<Longrightarrow> blob_sound b \<Longrightarrow> mock_ok ctx'"
    using mock_ok_put [of ctx1 b i] assms(4) fr by (simp add: mock_ok_def)
  show "mock_content ctx' name = (if mb_type b = BLOB_TYPE_PAGE then Some (take (nat (mb_size b)) (mb_data b)) else None)"
    using f at assms(2) by (simp add: mock_content_def)
  have "find_blob ctx nm \<noteq> Some i" if "nm \<noteq> name"
    using that find_from_Some [of 0 "mk_blobs ctx"] assms(2) by (auto simp: find_blob_def)
  then show "nm \<noteq> name \<Longrightarrow> mock_content ctx' nm = mock_content ctx nm"
    using f at by (auto simp: mock_content_def split: option.splits)
qed

subsection \<open>Resizing and renewing\<close>

definition resized_blob :: "mock_blob \<Rightarrow> int \<Rightarrow> mock_blob" where
  "resized_blob b n = (if mb_size b < n then ensure_capacity b n else b)\<lparr>mb_size := n\<rparr>"

lemma resized_blob_fields [simp]:
  "mb_name (resized_blob b n) = mb_name b" "mb_type (resized_blob b n) = mb_type b"
  "mb_lease_state (resized_blob b n) = mb_lease_state b" "mb_lease_id (resized_blob b n) = mb_lease_id b"
  "mb_lease_duration (resized_blob b n) = mb_lease_duration b"
  "mb_lease_acquired_at (resized_blob b n) = mb_lease_acquired_at b" "mb_size (resized_blob b n) = n"
  by (simp_all add: resized_blob_def)

lemma resized_blob_data:
  assumes "blob_sound b" and "mb_type b = BLOB_TYPE_PAGE" and "mb_size b \<le> n"
  shows "blob_sound (resized_blob b n)"
    "take (nat n) (mb_data (resized_blob b n)) = zpad (nat n) (take (nat (mb_size b)) (mb_data b))"
proof -
  have b: "0 \<le> mb_size b" "nat (mb_size b) \<le> length (mb_data b)" "\<And>i. nat (mb_size b) \<le> i \<Longrightarrow> byte_at (mb_data b) i = 0"
    using assms(1,2) by (auto simp: blob_sound_def)
  have bytes: "byte_at (mb_data (resized_blob b n)) i = byte_at (mb_data b) i" for i
    by (simp add: resized_blob_def)
  have len: "nat n \<le> length (mb_data (resized_blob b n))"
    using b(2) assms(3) ensure_capacity_length(1) [of n b] by (auto simp: resized_blob_def)
  show "blob_sound (resized_blob b n)" using assms(2,3) b len by (auto simp: blob_sound_def bytes)
  show "take (nat n) (mb_data (resized_blob b n)) = zpad (nat n) (take (nat (mb_size b)) (mb_data b))"
    using len b assms(3) by (intro bytes_eqI) (auto simp: byte_at_take bytes)
qed

lemma mock_resize_cases:
  assumes "mock_page_blob_resize name n lid ctx = (AZURE_OK, err, ctx')"
  obtains i e1 ctx1 e2 e3 b where "find_blob ctx name = Some i" "mb_type (blob_at ctx i) = BLOB_TYPE_PAGE"
    "pre_call OP_PAGE_BLOB_RESIZE ctx = (AZURE_OK, e1, ctx1)" "0 \<le> n"
    "validate_lease_id ctx (blob_at ctx i) lid = (AZURE_OK, e2, blob_at ctx i)"
    "set_etag e1 (bump_etag (resized_blob (blob_at ctx i) n)) = (e3, b)" "ctx' = put_blob i b ctx1"
proof -
  obtain rc e1 ctx1 where 1: "pre_call OP_PAGE_BLOB_RESIZE ctx = (rc, e1, ctx1)" by (rule prod_cases3)
  note fr = pre_call_frame [OF 1]
  have ok: "rc = AZURE_OK" and al: "0 \<le> n" "c_mod n 512 = 0 \<or> n = 0"
    using assms 1 by (auto simp: mock_page_blob_resize_def split: if_splits)
  obtain i where i: "find_blob ctx name = Some i" "mb_type (blob_at ctx i) = BLOB_TYPE_PAGE"
    using assms 1 ok al fr(3,4)
    by (cases "find_blob ctx name") (auto simp: mock_page_blob_resize_def Let_def split: if_splits)
  obtain rc2 e2 b2 where 2: "validate_lease_id ctx (blob_at ctx i) lid = (rc2, e2, b2)" by (rule prod_cases3)
  have ok2: "rc2 = AZURE_OK" using assms 1 ok al i 2 fr(3,4,9)
    by (auto simp: mock_page_blob_resize_def Let_def split: if_splits)
  then have b2: "b2 = blob_at ctx i" using validate_ok 2 by blast
  obtain e3 b where 3: "set_etag e1 (bump_etag (resized_blob (blob_at ctx i) n)) = (e3, b)" by fastforce
  then have "ctx' = put_blob i b ctx1"
    using assms 1 ok al i 2 ok2 b2 fr(3,4,9)
    by (auto simp: mock_page_blob_resize_def resized_blob_def Let_def split: if_splits)
  then show ?thesis using that i 1 ok 2 ok2 b2 3 al by blast
qed

lemma mock_lease_op_cases:
  assumes "mock_lease_op oper f name l ctx = (AZURE_OK, err, ctx')"
  obtains i e1 ctx1 where "find_blob ctx name = Some i" "pre_call oper ctx = (AZURE_OK, e1, ctx1)"
    "\<not> mock_lease_expired ctx (blob_at ctx i)" "mb_lease_state (blob_at ctx i) = LEASE_LEASED"
    "mb_lease_id (blob_at ctx i) = l" "ctx' = put_blob i (f ctx1 (blob_at ctx i)) ctx1"
proof -
  obtain rc e1 ctx1 where 1: "pre_call oper ctx = (rc, e1, ctx1)" by (rule prod_cases3)
  note fr = pre_call_frame [OF 1]
  have ok: "rc = AZURE_OK" using assms 1 by (auto simp: mock_lease_op_def split: if_splits)
  then show ?thesis using assms 1 fr(3,4,8) that
    by (cases "find_blob ctx name") (auto simp: mock_lease_op_def Let_def split: if_splits)
qed

lemma mock_renew_content:
  assumes "mock_lease_renew name l ctx = (AZURE_OK, err, ctx')" and "mock_ok ctx"
  shows "mock_ok ctx' \<and> mock_content ctx' nm = mock_content ctx nm"
proof -
  obtain i e1 ctx1 where r: "find_blob ctx name = Some i" "pre_call OP_LEASE_RENEW ctx = (AZURE_OK, e1, ctx1)"
    "ctx' = put_blob i ((blob_at ctx i)\<lparr>mb_lease_acquired_at := mock_time_now ctx1\<rparr>) ctx1"
    using mock_lease_op_cases [OF assms(1) [unfolded mock_lease_renew_def]] by metis
  note rep = replace_blob [OF r(2,1), of "(blob_at ctx i)\<lparr>mb_lease_acquired_at := mock_time_now ctx1\<rparr>" ctx']
  have "blob_sound (blob_at ctx i)" using mock_ok_at [OF assms(2) r(1)] .
  then have "blob_sound ((blob_at ctx i)\<lparr>mb_lease_acquired_at := mock_time_now ctx1\<rparr>)" by (simp add: blob_sound_def)
  moreover have "mock_content ctx' name = mock_content ctx name" using rep(4) r by (simp add: mock_content_def)
  ultimately show ?thesis using rep(3,5) r(3) assms(2) by (cases "nm = name") simp_all
qed

interpretation mock_store: page_blob_store mock_ops mock_content mock_ok
proof
  fix wr w name c off d lid im err w'
  assume "page_blob_write mock_ops = Some wr" "mock_ok w" "0 \<le> off" "mock_content w name = Some c"
    "wr name off d lid im w = (AZURE_OK, err, w')"
  then have a: "mock_page_blob_write name off d lid im w = (AZURE_OK, err, w')" "mock_ok w" "0 \<le> off"
    "mock_content w name = Some c" by (simp_all add: mock_ops_def)
  from a(1) obtain i e1 w1 e2 e3 b rs where r: "find_blob w name = Some i" "mb_type (blob_at w i) = BLOB_TYPE_PAGE"
    "pre_call OP_PAGE_BLOB_WRITE w = (AZURE_OK, e1, w1)"
    "set_etag e1 (bump_etag (written_blob (blob_at w i) off d)) = (e3, b)"
    "w' = (put_blob i b w1)\<lparr>mk_write_records := rs\<rparr>" by (rule mock_write_cases)
  note b = set_etag_fields [OF r(4)] and wb = written_blob_data [OF mock_ok_at [OF a(2) r(1)] r(2) a(3)]
  have "mb_name b = mb_name (blob_at w i)" "mk_blobs w' = mk_blobs (put_blob i b w1)" using b r(5) by simp_all
  note rep = replace_blob [OF r(3,1) this]
  have "blob_sound b" using wb(1) [of d] b by (simp add: blob_sound_def)
  then show "mock_ok w' \<and> mock_content w' name = Some (put c (nat off) d)"
    using rep(3,4) a(2,4) wb(2) [of d] b r(1,2) by (simp add: mock_content_def)
next
  fix rsz w name c n lid err w'
  assume "page_blob_resize mock_ops = Some rsz" "mock_ok w" "mock_content w name = Some c" "int (length c) \<le> n"
    "rsz name n lid w = (AZURE_OK, err, w')"
  then have a: "mock_page_blob_resize name n lid w = (AZURE_OK, err, w')" "mock_ok w" "mock_content w name = Some c"
    "int (length c) \<le> n" by (simp_all add: mock_ops_def)
  from a(1) obtain i e1 w1 e2 e3 b where r: "find_blob w name = Some i" "mb_type (blob_at w i) = BLOB_TYPE_PAGE"
    "pre_call OP_PAGE_BLOB_RESIZE w = (AZURE_OK, e1, w1)" "set_etag e1 (bump_etag (resized_blob (blob_at w i) n)) = (e3, b)"
    "w' = put_blob i b w1" by (rule mock_resize_cases)
  have s: "blob_sound (blob_at w i)" by (rule mock_ok_at [OF a(2) r(1)])
  have "mb_size (blob_at w i) \<le> n" using s a(3,4) r(1,2) by (auto simp: mock_content_def blob_sound_def)
  note b = set_etag_fields [OF r(4)] and rb = resized_blob_data [OF s r(2) this]
  have "mb_name b = mb_name (blob_at w i)" "mk_blobs w' = mk_blobs (put_blob i b w1)" using b r(5) by simp_all
  note rep = replace_blob [OF r(3,1) this]
  have "blob_sound b" using rb(1) b by (simp add: blob_sound_def)
  then show "mock_ok w' \<and> mock_content w' name = Some (zpad (nat n) c)"
    using rep(3,4) a(2,3) rb(2) b r(1,2) by (simp add: mock_content_def)
next
  fix rn w name l err w' nm
  assume "lease_renew mock_ops = Some rn" "mock_ok w" "rn name l w = (AZURE_OK, err, w')"
  then show "mock_ok w' \<and> mock_content w' nm = mock_content w nm"
    using mock_renew_content by (simp add: mock_ops_def)
qed (simp_all add: mock_ops_def)

subsection \<open>The mock serves the holder of the lease\<close>

lemma mock_acceptsD:
  assumes "mock_accepts ctx name lid"
  obtains i l where "mk_fail_rules ctx = []" "find_blob ctx name = Some i" "lid = Some l"
    "mb_type (blob_at ctx i) = BLOB_TYPE_PAGE" "\<not> mock_lease_expired ctx (blob_at ctx i)"
    "mb_lease_state (blob_at ctx i) = LEASE_LEASED" "mb_lease_id (blob_at ctx i) = l" "l \<noteq> []"
  using assms by (auto simp: mock_accepts_def split: option.splits)

lemma accepts_validate:
  assumes "mock_accepts ctx name lid" and "find_blob ctx name = Some i"
  shows "validate_lease_id ctx (blob_at ctx i) lid = (AZURE_OK, azure_error_init, blob_at ctx i)"
  by (rule mock_acceptsD [OF assms(1)]) (use assms(2) in \<open>simp add: validate_lease_id_def no_id_def\<close>)

text \<open>A blob replaced by one with the same lease is still served.\<close>

lemma accepts_replace:
  assumes "mock_accepts ctx name lid" and "find_blob ctx name = Some i" and "pre_call oper ctx = (AZURE_OK, err, ctx1)"
    and "mb_name b = mb_name (blob_at ctx i)" "mb_type b = mb_type (blob_at ctx i)"
    "mb_lease_state b = mb_lease_state (blob_at ctx i)" "mb_lease_id b = mb_lease_id (blob_at ctx i)"
    "mb_lease_duration b = mb_lease_duration (blob_at ctx i)" "mb_lease_acquired_at b = mb_lease_acquired_at (blob_at ctx i)"
    and "mk_blobs ctx' = mk_blobs (put_blob i b ctx1)" "mk_fail_rules ctx' = mk_fail_rules ctx1"
    "mock_time_now ctx' = mock_time_now ctx1"
  shows "mock_accepts ctx' name lid"
proof -
  note fr = pre_call_frame [OF assms(3)] and rep = replace_blob [OF assms(3,2,4,10)]
  have "mock_lease_expired ctx' b = mock_lease_expired ctx (blob_at ctx i)"
    using assms(6,8,9,12) fr(2) by (simp add: mock_lease_expired_def)
  then show ?thesis using assms(1,2,5-7,11) rep(1,2) fr(7)
    by (auto simp: mock_accepts_def split: option.splits)
qed

interpretation mock_serving: serving_store mock_ops mock_content mock_ok mock_accepts
proof
  fix w name lid and off :: int and d :: bytes
  assume a: "mock_accepts w name lid" "0 \<le> off" "512 dvd off" "512 dvd length d"
  obtain i where i: "mk_fail_rules w = []" "find_blob w name = Some i" "mb_type (blob_at w i) = BLOB_TYPE_PAGE"
    using a(1) by (rule mock_acceptsD)
  obtain rc e1 w1 where 1: "pre_call OP_PAGE_BLOB_WRITE w = (rc, e1, w1)" by (rule prod_cases3)
  note fr = pre_call_frame [OF 1]
  have rc: "rc = AZURE_OK" using fr(7) i(1) by simp
  obtain e3 b where 3: "set_etag e1 (bump_etag (written_blob (blob_at w i) off d)) = (e3, b)" by fastforce
  note bf = set_etag_fields [OF 3]
  define rs where "rs = (if length (mk_write_records (put_blob i b w1)) < 1024
      then mk_write_records (put_blob i b w1) @ [(off, int (length d))] else mk_write_records (put_blob i b w1))"
  have al: "c_mod off 512 = 0" "length d mod 512 = 0" using a(2-4) by (simp_all add: dvd_eq_mod_eq_0)
  have run: "mock_page_blob_write name off d lid None w = (AZURE_OK, e3, (put_blob i b w1)\<lparr>mk_write_records := rs\<rparr>)"
    using 1 rc al i accepts_validate [OF a(1) i(2)] fr(3,4,9) 3
    by (simp add: mock_page_blob_write_def written_blob_def rs_def Let_def)
  have "mock_accepts ((put_blob i b w1)\<lparr>mk_write_records := rs\<rparr>) name lid"
    by (rule accepts_replace [OF a(1) i(2) 1 [unfolded rc], of b]) (simp_all add: bf put_blob_def mock_time_now_def)
  with run show "\<exists>wr err w'. page_blob_write mock_ops = Some wr \<and> wr name off d lid None w = (AZURE_OK, err, w') \<and>
      mock_accepts w' name lid" by (simp add: mock_ops_def)
next
  fix w name lid and n :: int
  assume a: "mock_accepts w name lid" "0 \<le> n" "512 dvd n"
  obtain i where i: "mk_fail_rules w = []" "find_blob w name = Some i" "mb_type (blob_at w i) = BLOB_TYPE_PAGE"
    using a(1) by (rule mock_acceptsD)
  obtain rc e1 w1 where 1: "pre_call OP_PAGE_BLOB_RESIZE w = (rc, e1, w1)" by (rule prod_cases3)
  note fr = pre_call_frame [OF 1]
  have rc: "rc = AZURE_OK" using fr(7) i(1) by simp
  obtain e3 b where 3: "set_etag e1 (bump_etag (resized_blob (blob_at w i) n)) = (e3, b)" by fastforce
  note bf = set_etag_fields [OF 3]
  have run: "mock_page_blob_resize name n lid w = (AZURE_OK, e3, put_blob i b w1)"
    using 1 rc a(2,3) i accepts_validate [OF a(1) i(2)] fr(3,4,9) 3
    by (simp add: mock_page_blob_resize_def resized_blob_def Let_def dvd_eq_mod_eq_0)
  have "mock_accepts (put_blob i b w1) name lid"
    by (rule accepts_replace [OF a(1) i(2) 1 [unfolded rc], of b]) (simp_all add: bf)
  with run show "\<exists>rsz err w'. page_blob_resize mock_ops = Some rsz \<and> rsz name n lid w = (AZURE_OK, err, w') \<and>
      mock_accepts w' name lid" by (simp add: mock_ops_def)
qed (simp_all add: mock_ops_def)

subsection \<open>A backend with one leased page blob\<close>

definition sample_mock :: mock where
  "sample_mock = mock_azure_create\<lparr>mk_blobs :=
     [(new_blob ''db'' BLOB_TYPE_PAGE)\<lparr>mb_lease_state := LEASE_LEASED, mb_lease_id := ''L'', mb_lease_duration := 30\<rparr>]\<rparr>"

definition sample_mock_db :: "mock sqliteObjsFile" where
  "sample_mock_db = file_zero\<lparr>pMethod := True, ops := Some mock_ops, zBlobName := Some ''db'', cacheFd := Some ''c'',
     zCachePath := Some ''c'', pageSize := 512, leaseId := ''L'', leaseDuration := 30\<rparr>"

definition sample_mock_env :: "mock env" where
  "sample_mock_env = set_file ''c'' [] (env_start sample_mock)"

lemma sample_mock_facts:
  "mock_accepts sample_mock ''db'' (Some ''L'')" "mock_ok sample_mock" "mock_content sample_mock ''db'' = Some []"
  by (simp_all add: sample_mock_def mock_accepts_def mock_ok_def mock_content_def find_blob_def blob_at_def new_blob_def
      mock_azure_create_def mock_lease_expired_def mock_time_now_def blob_sound_def bump_etag_def)

end
