(* ===== verification/Durability.thy ===== *)
theory Durability
  imports Mock_Azure
begin

text \<open>
  From \<^verbatim>\<open>xWrite\<close> to the blob: the composition of the file I/O methods, \<^verbatim>\<open>xSync\<close> and the mock backend. The invariant
  \<open>durable_ready\<close> says that the blob agrees with the cache file on every clean page; writes keep it, and a sync
  turns it into equality.
\<close>

definition durable_ready :: "mock sqliteObjsFile \<Rightarrow> mock env \<Rightarrow> bytes \<Rightarrow> bool" where
  "durable_ready p e c \<longleftrightarrow>
     db_inv p e \<and> db_cover p e \<and> ops p = Some mock_ops \<and> hasLease p \<and>
     mock_accepts (remote e) (blob p) (lease_arg p) \<and> mock_ok (remote e) \<and> mock_content (remote e) (blob p) = Some c \<and>
     clean_agree p (db_file p e) c \<and> 512 dvd pageSize p \<and> pageSize p dvd 4194304 \<and> nData p < 2147483640 * pageSize p"

lemma written_frame [simp]:
  "ops (written p l en dm vm) = ops p" "lastSyncedSize (written p l en dm vm) = lastSyncedSize p"
  "blob (written p l en dm vm) = blob p" "lease_arg (written p l en dm vm) = lease_arg p"
  by (simp_all add: written_def blob_def lease_arg_def hasLease_def)

lemma touched_page:
  assumes "0 < ps" and "0 \<le> off" and "off \<le> k" and "k < off + len"
  shows "k div ps \<in> touched ps off len"
proof -
  have "k div ps * ps \<le> k" using le_div_iff [OF assms(1), of "k div ps" k] by simp
  moreover have "off div ps \<le> k div ps" using assms by (intro zdiv_mono1) simp_all
  ultimately show ?thesis using assms(4) by (simp add: touched_def)
qed

text \<open>A write changes bytes of the pages it marks and of no other.\<close>

lemma write_clean_agree:
  assumes "clean_agree p f c" and "0 < pageSize p" and "0 \<le> off" and "pageSize p' = pageSize p"
    and "pages (dirty p') = pages (dirty p) \<union> touched (pageSize p) off (int (length d))"
    and "lastSyncedSize p' = lastSyncedSize p" and "nData p \<le> nData p'"
    and "\<And>k. byte_at f' k = byte_at (put f (nat off) d) k" and "\<And>k. nat (nData p') \<le> k \<Longrightarrow> byte_at f' k = 0"
  shows "clean_agree p' f' c"
proof -
  have "byte_at c k = byte_at f' k" if "int k div pageSize p' \<notin> pages (dirty p')" for k
  proof -
    have "int k div pageSize p \<notin> touched (pageSize p) off (int (length d))" using that assms(4,5) by simp
    then have "\<not> (off \<le> int k \<and> int k < off + int (length d))"
      using touched_page [OF assms(2,3)] by blast
    moreover have "byte_at c k = byte_at f k" using assms(1,4,5) that by (simp add: clean_agree_def)
    ultimately show ?thesis using assms(3,8) by (auto simp: byte_at_put)
  qed
  then show ?thesis using assms(1,6,7,9) by (simp add: clean_agree_def)
qed

lemma write_durable_ready:
  assumes "durable_ready p e c" and "write_ok (off, d)" and "d \<noteq> []"
    and "off + int (length d) < 2147483640 * pageSize p"
  obtains p' e' where "sqliteObjsWrite p d off e = Some (SQLITE_OK, p', e')" "durable_ready p' e' c" "blob p' = blob p"
    "pageSize p' = pageSize p" "pages (dirty p') \<noteq> {}" "db_view p' e' = put (db_view p e) (nat off) d"
proof -
  have r: "db_inv p e" "db_cover p e" "clean_agree p (db_file p e) c" using assms(1) by (simp_all add: durable_ready_def)
  obtain p' e' where m: "sqliteObjsWrite p d off e = Some (SQLITE_OK, p', e')" "db_inv p' e'" "db_cover p' e'"
    "pages (dirty p') = pages (dirty p) \<union> touched (pageSize p) off (int (length d))"
    "pageSize p' = pageSize p" "db_view p' e' = put (db_view p e) (nat off) d" "remote e' = remote e"
    using db_write_marks [OF r(1,2) assms(2,4)] by metis
  obtain fd dm vm where fd: "cacheFd p = Some fd" and
    run: "sqliteObjsWrite p d off e = Some (SQLITE_OK, written p (int (length d)) (off + int (length d)) dm vm,
      set_file fd (put (zpad (nat (off + int (length d))) (db_file p e)) (nat off) d) e)"
    by (rule db_write_quiet [OF r(1) assms(2)])
  have w: "cacheFd p = Some fd"
    "p' = written p (int (length d)) (off + int (length d)) dm vm"
    "e' = set_file fd (put (zpad (nat (off + int (length d))) (db_file p e)) (nat off) d) e"
    using m(1) fd unfolding run by simp_all
  have off: "0 \<le> off" and ps: "0 < pageSize p" using assms(2) r(2) by (simp_all add: write_ok_def db_cover_def)
  have file': "byte_at (db_file p' e') k = byte_at (put (db_file p e) (nat off) d) k" for k
    using w by (simp add: db_file_def put_zpad_at)
  have "clean_agree p' (db_file p' e') c"
    by (rule write_clean_agree [OF r(3) ps off m(5,4) _ _ file']) (use w(2) m(2) in \<open>simp_all add: db_inv_def\<close>)
  then have "durable_ready p' e' c"
    using assms(1,4) m(2,3,5,7) w(2) by (auto simp: durable_ready_def max_def)
  moreover have "off div pageSize p \<in> touched (pageSize p) off (int (length d))"
    using touched_page [OF ps off, of off "int (length d)"] assms(3) by simp
  ultimately show ?thesis using that m w(2) by auto
qed

definition page_write :: "int \<Rightarrow> int \<times> bytes \<Rightarrow> bool" where
  "page_write ps w \<longleftrightarrow> write_ok w \<and> snd w \<noteq> [] \<and> fst w + int (length (snd w)) < 2147483640 * ps"

lemma writes_durable_ready:
  assumes "durable_ready p e c" and "list_all (page_write (pageSize p)) ws"
  shows "\<exists>p' e'. write_all sqliteObjsWrite ws p e = Some (p', e') \<and> durable_ready p' e' c \<and> blob p' = blob p \<and>
    db_view p' e' = puts ws (db_view p e) \<and> (ws \<noteq> [] \<or> pages (dirty p) \<noteq> {} \<longrightarrow> pages (dirty p') \<noteq> {})"
  using assms
proof (induction ws arbitrary: p e)
  case Nil
  then show ?case by (simp add: puts_def)
next
  case (Cons w ws)
  obtain off d where w: "w = (off, d)" by fastforce
  have ok: "write_ok (off, d)" "d \<noteq> []" "off + int (length d) < 2147483640 * pageSize p"
    using Cons.prems(2) w by (simp_all add: page_write_def)
  obtain p' e' where 1: "sqliteObjsWrite p d off e = Some (SQLITE_OK, p', e')" "durable_ready p' e' c" "blob p' = blob p"
    "pageSize p' = pageSize p" "pages (dirty p') \<noteq> {}" "db_view p' e' = put (db_view p e) (nat off) d"
    by (rule write_durable_ready [OF Cons.prems(1) ok])
  from Cons.IH [OF 1(2)] Cons.prems(2) 1 w show ?case by (simp add: puts_def)
qed

lemma durable_sync_ready:
  assumes "durable_ready p e c" and "pages (dirty p) \<noteq> {}" and "0 < nData p"
  shows "sync_ready mock_ops p e"
  using assms by (auto simp: sync_ready_def durable_ready_def db_inv_def db_cover_def page_geometry_def)

lemma puts_grow: "length c \<le> length (puts ws c)"
proof (induction ws arbitrary: c)
  case (Cons w ws)
  then show ?case using Cons.IH [of "put c (nat (fst w)) (snd w)"]
    by (cases w) (auto simp: puts_def)
qed (simp add: puts_def)

lemma length_db_view: "db_inv p e \<Longrightarrow> int (length (db_view p e)) = nData p"
  by (auto simp: db_inv_def db_view_def)

text \<open>C2 Committed data is durable: when the holder of the lease writes any sequence of non-empty blocks to the database
  and then syncs, every call succeeds and the blob in the backend starts with exactly the bytes those writes leave in a byte
  array, whatever the pages, offsets, overlaps and growth, and its size is the size of that array rounded up to 512.\<close>

theorem committed_writes_are_durable:
  assumes "durable_ready p e c" and "ws \<noteq> []" and "list_all (page_write (pageSize p)) ws"
  shows "\<exists>p1 e1 p2 e2 c'. write_all sqliteObjsWrite ws p e = Some (p1, e1) \<and> sqliteObjsSync p1 e1 = (SQLITE_OK, p2, e2) \<and>
    mock_content (remote e2) (blob p) = Some c' \<and>
    take (length (puts ws (db_view p e))) c' = puts ws (db_view p e) \<and>
    int (length c') = align512 (int (length (puts ws (db_view p e))))"
proof -
  obtain p1 e1 where w: "write_all sqliteObjsWrite ws p e = Some (p1, e1)" "durable_ready p1 e1 c" "blob p1 = blob p"
    "db_view p1 e1 = puts ws (db_view p e)" "pages (dirty p1) \<noteq> {}"
    using writes_durable_ready [OF assms(1,3)] assms(2) by blast
  have i: "db_inv p1 e1" using w(2) by (simp add: durable_ready_def)
  have n: "int (length (puts ws (db_view p e))) = nData p1" using length_db_view [OF i] w(4) by simp
  obtain off d ws' where ws: "ws = (off, d) # ws'" using assms(2) by (cases ws) auto
  have "0 < length d" using assms(3) ws by (simp add: page_write_def)
  then have "0 < length (puts ws (db_view p e))"
    using puts_grow [of "put (db_view p e) (nat off) d" ws'] ws by (simp add: puts_def del: length_greater_0_conv)
  then have "0 < nData p1" using n by linarith
  then have "sync_ready mock_ops p1 e1" by (rule durable_sync_ready [OF w(2,5)])
  moreover have "blob_holds mock_content mock_ok e1 (blob p1) c" "mock_accepts (remote e1) (blob p1) (lease_arg p1)"
    "clean_agree p1 (db_file p1 e1) c" "nData p1 \<le> int (length (db_file p1 e1))"
    using w(2) by (simp_all add: durable_ready_def blob_holds_def db_inv_def)
  ultimately obtain p2 e2 c' where "sqliteObjsSync p1 e1 = (SQLITE_OK, p2, e2)" "mock_content (remote e2) (blob p1) = Some c'"
    "int (length c') = align512 (nData p1)" "take (nat (nData p1)) c' = db_view p1 e1"
    using mock_serving.sync_total [of p1 e1 c] unfolding blob_holds_def by blast
  then show ?thesis using w n by (metis nat_int)
qed

lemma sample_durable: "durable_ready sample_mock_db sample_mock_env []"
proof -
  have f: "ops sample_mock_db = Some mock_ops" "blob sample_mock_db = ''db''" "lease_arg sample_mock_db = Some ''L''"
    "remote sample_mock_env = sample_mock" "db_file sample_mock_db sample_mock_env = []" "dirty sample_mock_db = bitmap_empty"
    "pageSize sample_mock_db = 512" "nData sample_mock_db = 0" "lastSyncedSize sample_mock_db = 0" "hasLease sample_mock_db"
    by (simp_all add: sample_mock_db_def sample_mock_env_def file_zero_def env_start_def blob_def lease_arg_def hasLease_def
        db_file_def)
  have "db_inv sample_mock_db sample_mock_env"
    using f by (simp add: db_inv_def)
      (simp add: sample_mock_db_def sample_mock_env_def file_zero_def env_start_def lease_quiet_def no_faults_def)
  then show ?thesis using f sample_mock_facts
    by (simp add: durable_ready_def db_cover_def clean_agree_def align512_dvd capacity_def) (simp add: bitmap_empty_def)
qed

theorem committed_writes_are_durable_witness:
  "\<exists>p1 e1 p2 e2 c'. write_all sqliteObjsWrite [(0, [1, 2, 3]), (510, [7, 8, 9]), (1, [4])] sample_mock_db sample_mock_env = Some (p1, e1) \<and>
    sqliteObjsSync p1 e1 = (SQLITE_OK, p2, e2) \<and> mock_content (remote e2) ''db'' = Some c' \<and>
    take 513 c' = [1, 4, 3] @ replicate 507 0 @ [7, 8, 9] \<and> int (length c') = 1024"
proof -
  let ?ws = "[(0, [1, 2, 3]), (510, [7, 8, 9]), (1, [4])] :: (int \<times> bytes) list"
  have v: "db_view sample_mock_db sample_mock_env = []"
    by (simp add: db_view_def sample_mock_db_def sample_mock_env_def file_zero_def db_file_def)
  have puts: "puts ?ws [] = [1, 4, 3] @ replicate 507 0 @ [7, 8, 9]"
    by (simp add: puts_def put_def zpad_def numeral_eq_Suc)
  have "list_all (page_write (pageSize sample_mock_db)) ?ws"
    by (simp add: page_write_def write_ok_def sample_mock_db_def)
  from committed_writes_are_durable [OF sample_durable _ this] show ?thesis
    unfolding v puts by (simp add: align512_mod sample_mock_db_def blob_def)
qed

end
