(* ===== verification/Locking.thy ===== *)
theory Locking
  imports Sync
begin

text \<open>
  Locks and cache coherence of \<^verbatim>\<open>sqlite_objs_vfs.c\<close>: \<^verbatim>\<open>refreshMainDbCache\<close>, \<^verbatim>\<open>revalidateBeforeRead\<close>,
  \<^verbatim>\<open>revalidateAfterLease\<close>, \<^verbatim>\<open>xLock\<close>, \<^verbatim>\<open>xUnlock\<close> and \<^verbatim>\<open>xCheckReservedLock\<close>. A SHARED lock refreshes the
  cache when the blob's ETag moved on; RESERVED and above are backed by the blob's lease.
\<close>

section \<open>Refreshing the cache\<close>

text \<open>The download into a heap buffer of \<open>blobSize\<close> bytes. \<^term>\<open>None\<close>: neither read operation exists.\<close>

definition refresh_download ::
  "'w azure_ops \<Rightarrow> 'w sqliteObjsFile \<Rightarrow> int \<Rightarrow> bytes \<Rightarrow> 'w env \<Rightarrow> (azure_err \<times> bytes \<times> 'w env) option" where
  "refresh_download az p blobSize tempBuf e =
     (case page_blob_read_multi az of
        Some multi \<Rightarrow>
          (case call_azure (multi (blob p) blobSize tempBuf) e of (arc, tempBuf, aerr, e) \<Rightarrow>
             Some (arc, tempBuf, e))
      | None \<Rightarrow>
          (case page_blob_read az of
             None \<Rightarrow> None
           | Some rd \<Rightarrow>
               (case call_azure (rd (blob p) 0 blobSize) e of (arc, buf, aerr, e) \<Rightarrow>
                if arc = AZURE_OK
                then if buf = [] then Some (AZURE_ERR_INVALID_ARG, tempBuf, e)
                     else Some (AZURE_OK, put tempBuf 0 (take (nat blobSize) buf), e)
                else Some (arc, tempBuf, e))))"

text \<open>The loop that stores the buffer in the emptied cache file.\<close>

function refresh_write_loop ::
  "string \<Rightarrow> bytes \<Rightarrow> int \<Rightarrow> int \<Rightarrow> 'w sqliteObjsFile \<Rightarrow> 'w env \<Rightarrow> sqlite_rc \<times> 'w sqliteObjsFile \<times> 'w env" where
  "refresh_write_loop fd tempBuf blobSize totalWritten p e =
     (if \<not> totalWritten < blobSize then (SQLITE_OK, p, e)
      else
        case sys_pwrite fd (bslice tempBuf (nat totalWritten) (nat (blobSize - totalWritten))) totalWritten e of
          (nWritten, e) \<Rightarrow>
        if nWritten \<le> 0 then (SQLITE_IOERR, p, e)
        else refresh_write_loop fd tempBuf blobSize (totalWritten + nWritten)
               (bump disk_bytes_written_update nWritten (bump disk_writes_update 1 p)) e)"
  by pat_completeness auto
termination
  by (relation "measure (\<lambda>(fd, tempBuf, blobSize, totalWritten, p, e). nat (blobSize - totalWritten))") auto

declare refresh_write_loop.simps [simp del]

text \<open>What follows the store: the new size, the page size, the bitmaps.\<close>

definition refresh_finish :: "int \<Rightarrow> 'w sqliteObjsFile \<Rightarrow> 'w env \<Rightarrow> 'w sqliteObjsFile \<times> 'w env" where
  "refresh_finish blobSize p e =
     (let p = p\<lparr>nData := blobSize, nDownloads := nDownloads p + 1, snapshot := []\<rparr> in
      case pread_fd (cacheFd p) 100 0 e of (nRead, header, e) \<Rightarrow>
      let p = (if nRead = 100
               then let detected = detectPageSize header 100
                    in if detected > 0 then p\<lparr>pageSize := detected\<rparr> else p
               else p) in
      case bitmapsEnsureCapacity p e of (_, p, e) \<Rightarrow>
      let p = p\<lparr>dirty := bitmapClearAll (dirty p)\<rparr>;
          p = p\<lparr>lastSyncedSize := nData p\<rparr> in
      if bm_data (valid p) \<noteq> None
      then case bitmapEnsureCapacity (valid p) (nData p) (pageSize p) e of (_, bm, e) \<Rightarrow>
             (validMarkAll (p\<lparr>valid := bm\<rparr>), e)
      else (p, e))"

definition refreshMainDbCache ::
  "'w sqliteObjsFile \<Rightarrow> int \<Rightarrow> string \<Rightarrow> 'w env \<Rightarrow> sqlite_rc \<times> 'w sqliteObjsFile \<times> 'w env" where
  "refreshMainDbCache p blobSize newEtag e =
     (if eFileType p \<noteq> MAIN_DB then (SQLITE_OK, p, e)
      else case cacheFd p of
        None \<Rightarrow> (SQLITE_OK, p, e)
      | Some fd \<Rightarrow>
          let p = (if newEtag \<noteq> [] then p\<lparr>etag := newEtag\<rparr> else p) in
          if blobSize \<le> 0
          then (case sys_ftruncate fd 0 e of (r, e) \<Rightarrow>
                if r \<noteq> 0 then (SQLITE_IOERR, p, e)
                else (SQLITE_OK,
                      p\<lparr>nData := 0, snapshot := [], dirty := bitmapClearAll (dirty p),
                        valid := bitmapClearAll (valid p), lastSyncedSize := 0\<rparr>, e))
          else
            let p = bump revalidation_downloads_update 1 p in
            case sys_malloc blobSize e of
              (None, e) \<Rightarrow> (SQLITE_NOMEM, p, e)
            | (Some tempBuf, e) \<Rightarrow>
            (case ops p of
               None \<Rightarrow> (UB_NULL_CALL, p, e)
             | Some az \<Rightarrow>
            (case refresh_download az p blobSize tempBuf e of
               None \<Rightarrow> (SQLITE_IOERR, p, e)
             | Some (arc, tempBuf, e) \<Rightarrow>
            if arc \<noteq> AZURE_OK
            then (azureErrToSqlite arc (Some SQLITE_IOERR_READ), bump azure_errors_update 1 p, e)
            else
              let p = bump blob_bytes_read_update blobSize (bump blob_reads_update 1 p) in
              case sys_lseek_start fd e of (r, e) \<Rightarrow>
              if r \<noteq> 0 then (SQLITE_IOERR, p, e)
              else case sys_ftruncate fd 0 e of (r, e) \<Rightarrow>
              if r \<noteq> 0 then (SQLITE_IOERR, p, e)
              else case refresh_write_loop fd tempBuf blobSize 0 p e of (rc, p, e) \<Rightarrow>
              if rc \<noteq> SQLITE_OK then (rc, p, e)
              else case sys_fsync fd e of (r, e) \<Rightarrow>
              if r \<noteq> 0 then (SQLITE_IOERR, p, e)
              else case refresh_finish blobSize p e of (p, e) \<Rightarrow> (SQLITE_OK, p, e))))"

definition revalidateBeforeRead ::
  "'w sqliteObjsFile \<Rightarrow> 'w env \<Rightarrow> sqlite_rc \<times> 'w sqliteObjsFile \<times> 'w env" where
  "revalidateBeforeRead p e =
     (if eFileType p \<noteq> MAIN_DB then (SQLITE_OK, p, e)
      else if cacheFd p = None then (SQLITE_OK, p, e)
      else if etag p = [] then (SQLITE_OK, p, e)
      else case Option.bind (ops p) blob_get_properties of
        None \<Rightarrow> (SQLITE_OK, p, e)
      | Some props \<Rightarrow>
          let p = bump revalidations_update 1 p in
          (case call_azure (props (blob p)) e of (arc, (blobSize, leaseState, leaseStatus), aerr, e) \<Rightarrow>
           if arc \<noteq> AZURE_OK
           then (azureErrToSqlite arc (Some SQLITE_IOERR_READ), bump azure_errors_update 1 p, e)
           else if err_etag aerr = [] \<or> etag p = err_etag aerr then (SQLITE_OK, p, e)
           else refreshMainDbCache p blobSize (err_etag aerr) e))"

definition revalidateAfterLease ::
  "'w sqliteObjsFile \<Rightarrow> string \<Rightarrow> 'w env \<Rightarrow> sqlite_rc \<times> 'w sqliteObjsFile \<times> 'w env" where
  "revalidateAfterLease p leaseEtag e =
     (if eFileType p \<noteq> MAIN_DB then (SQLITE_OK, p, e)
      else if cacheFd p = None then (SQLITE_OK, p, e)
      else if etag p = [] then (SQLITE_OK, p, e)
      else if ops p = None then (SQLITE_OK, p, e)
      else
        let p = bump revalidations_update 1 p in
        if leaseEtag \<noteq> [] \<and> etag p = leaseEtag then (SQLITE_OK, p, e)
        else case Option.bind (ops p) blob_get_properties of
          None \<Rightarrow> (SQLITE_OK, p, e)
        | Some props \<Rightarrow>
            (case call_azure (props (blob p)) e of (arc, (blobSize, leaseState, leaseStatus), aerr, e) \<Rightarrow>
             if arc \<noteq> AZURE_OK
             then (azureErrToSqlite arc (Some SQLITE_IOERR_READ), bump azure_errors_update 1 p, e)
             else if err_etag aerr = [] \<or> etag p = err_etag aerr then (SQLITE_OK, p, e)
             else if readsSinceSharedLock p = 0 then refreshMainDbCache p blobSize (err_etag aerr) e
             else (SQLITE_BUSY, bump revalidation_busy_update 1 p, e)))"

section \<open>Locks\<close>

text \<open>The call of \<^verbatim>\<open>lease_release\<close> whose result is ignored, and the reset of the lease fields.\<close>

definition release_call :: "'w sqliteObjsFile \<Rightarrow> 'w env \<Rightarrow> 'w env" where
  "release_call p e =
     (case Option.bind (ops p) lease_release of
        None \<Rightarrow> e
      | Some release \<Rightarrow> (case do_azure (release (blob p) (leaseId p)) e of (_, _, e) \<Rightarrow> e))"

definition drop_lease :: "'w sqliteObjsFile \<Rightarrow> 'w sqliteObjsFile" where
  "drop_lease p = p\<lparr>leaseId := [], leaseAcquiredAt := 0\<rparr>"

text \<open>The lease part of \<^verbatim>\<open>xLock\<close>; the boolean says that the lock may be granted.\<close>

definition lock_acquire ::
  "(string \<Rightarrow> int \<Rightarrow> ('w, string option) azure_query) \<Rightarrow> 'w sqliteObjsFile \<Rightarrow> 'w env \<Rightarrow>
     sqlite_rc \<times> 'w sqliteObjsFile \<times> 'w env" where
  "lock_acquire acquire p e =
     (let duration = (if SQLITE_OBJS_DIRTY_PAGE_THRESHOLD < lastSyncDirtyCount p
                      then SQLITE_OBJS_LEASE_DURATION_LONG else SQLITE_OBJS_LEASE_DURATION) in
      case call_azure (acquire (blob p) duration) e of (arc, lid, aerr, e) \<Rightarrow>
      let p = (case lid of None \<Rightarrow> p | Some l \<Rightarrow> p\<lparr>leaseId := l\<rparr>) in
      if arc = AZURE_ERR_CONFLICT then (SQLITE_BUSY, bump azure_errors_update 1 p, e)
      else if arc \<noteq> AZURE_OK
      then (azureErrToSqlite arc (Some SQLITE_IOERR_LOCK), bump azure_errors_update 1 p, e)
      else
        let p = bump lease_acquires_update 1 p in
        case sys_time e of (now, e) \<Rightarrow>
        let p = p\<lparr>leaseAcquiredAt := now, leaseDuration := duration\<rparr> in
        case revalidateAfterLease p (err_etag aerr) e of (rv, p, e) \<Rightarrow>
        if rv \<noteq> SQLITE_OK then (rv, drop_lease p, release_call p e)
        else (SQLITE_OK, p, e))"

definition sqliteObjsLock ::
  "'w sqliteObjsFile \<Rightarrow> int \<Rightarrow> 'w env \<Rightarrow> sqlite_rc \<times> 'w sqliteObjsFile \<times> 'w env" where
  "sqliteObjsLock p lvl e =
     (if lvl \<le> eLock p then (SQLITE_OK, p, e)
      else if lvl = SQLITE_LOCK_SHARED
      then
        let p = p\<lparr>readsSinceSharedLock := 0\<rparr> in
        case revalidateBeforeRead p e of (rv, p, e) \<Rightarrow>
        if rv \<noteq> SQLITE_OK then (rv, p, e)
        else (SQLITE_OK, p\<lparr>eLock := lvl\<rparr>, e)
      else if \<not> hasLease p
      then case Option.bind (ops p) lease_acquire of
             None \<Rightarrow> (SQLITE_OK, p\<lparr>eLock := lvl\<rparr>, e)
           | Some acquire \<Rightarrow>
               (case lock_acquire acquire p e of (rc, p, e) \<Rightarrow>
                if rc \<noteq> SQLITE_OK then (rc, p, e)
                else (SQLITE_OK, p\<lparr>eLock := lvl\<rparr>, e))
      else (SQLITE_OK, p\<lparr>eLock := lvl\<rparr>, e))"

definition sqliteObjsUnlock ::
  "'w sqliteObjsFile \<Rightarrow> int \<Rightarrow> 'w env \<Rightarrow> sqlite_rc \<times> 'w sqliteObjsFile \<times> 'w env" where
  "sqliteObjsUnlock p lvl e =
     (if eLock p \<le> lvl then (SQLITE_OK, p, e)
      else if lvl \<le> SQLITE_LOCK_SHARED \<and> hasLease p
      then
        let e = release_call p e;
            p = (if Option.bind (ops p) lease_release = None then p else bump lease_releases_update 1 p)
        in (SQLITE_OK, (drop_lease p)\<lparr>eLock := lvl\<rparr>, e)
      else (SQLITE_OK, p\<lparr>eLock := lvl\<rparr>, e))"

definition sqliteObjsCheckReservedLock ::
  "'w sqliteObjsFile \<Rightarrow> 'w env \<Rightarrow> sqlite_rc \<times> bool \<times> 'w env" where
  "sqliteObjsCheckReservedLock p e =
     (if SQLITE_LOCK_RESERVED \<le> eLock p then (SQLITE_OK, True, e)
      else case Option.bind (ops p) blob_get_properties of
        None \<Rightarrow> (SQLITE_OK, False, e)
      | Some props \<Rightarrow>
          (case call_azure (props (blob p)) e of (arc, (blobSize, leaseState, leaseStatus), aerr, e) \<Rightarrow>
           if arc = AZURE_OK \<and> leaseState = ''leased'' then (SQLITE_OK, True, e)
           else (SQLITE_OK, False, e)))"

end
