(* ===== verification/Lock_Protocol.thy ===== *)
theory Lock_Protocol
  imports Blob_Store Locking
begin

text \<open>
  Lock levels, leases and the calls a database file makes. \<open>call_step\<close> lists the calls, every method is shown to stay within
  them, \<open>file_step\<close> is one call of any method, and two locales state the contracts of the backend the lock protocol rests
  on: \<open>lease_provider\<close> for the holder of a lock and \<open>world_keeper\<close> for everyone else.
\<close>

section \<open>The calls a database file makes\<close>

text \<open>One call of an Azure operation on the blob \<open>name\<close> by a database file whose lease is \<open>lid\<close>, the empty string when it has none.
  These are all the calls \<^verbatim>\<open>xRead\<close>, \<^verbatim>\<open>xWrite\<close>, \<^verbatim>\<open>xTruncate\<close>, \<^verbatim>\<open>xSync\<close>, \<^verbatim>\<open>xLock\<close> and \<^verbatim>\<open>xUnlock\<close> make.\<close>

inductive call_step :: "'w azure_ops option \<Rightarrow> string \<Rightarrow> string \<Rightarrow> 'w \<Rightarrow> 'w \<Rightarrow> bool" for az name lid where
  read_call: "Option.bind az page_blob_read = Some f \<Longrightarrow> f name off n w = (rc, buf, err, w') \<Longrightarrow> call_step az name lid w w'"
| multi_call: "Option.bind az page_blob_read_multi = Some f \<Longrightarrow> f name n d w = (rc, buf, err, w') \<Longrightarrow> call_step az name lid w w'"
| write_call: "Option.bind az page_blob_write = Some f \<Longrightarrow>
    f name off d (if lid = [] then None else Some lid) im w = (rc, err, w') \<Longrightarrow> call_step az name lid w w'"
| batch_call: "Option.bind az page_blob_write_batch = Some f \<Longrightarrow>
    f name rs (if lid = [] then None else Some lid) im w = (rc, err, w') \<Longrightarrow> call_step az name lid w w'"
| resize_call: "Option.bind az page_blob_resize = Some f \<Longrightarrow>
    f name n (if lid = [] then None else Some lid) w = (rc, err, w') \<Longrightarrow> call_step az name lid w w'"
| props_call: "Option.bind az blob_get_properties = Some f \<Longrightarrow> f name w = (rc, out, err, w') \<Longrightarrow> call_step az name lid w w'"
| renew_call: "Option.bind az lease_renew = Some f \<Longrightarrow> lid \<noteq> [] \<Longrightarrow> f name lid w = (rc, err, w') \<Longrightarrow> call_step az name lid w w'"
| release_call: "Option.bind az lease_release = Some f \<Longrightarrow> f name lid w = (rc, err, w') \<Longrightarrow> call_step az name lid w w'"
| acquire_call: "Option.bind az lease_acquire = Some f \<Longrightarrow> lid = [] \<Longrightarrow> f name n w = (rc, out, err, w') \<Longrightarrow> call_step az name lid w w'"
| snapshot_call: "Option.bind az blob_snapshot_create = Some f \<Longrightarrow> f name w = (rc, snap, err, w') \<Longrightarrow> call_step az name lid w w'"

text \<open>\<open>acts p e p' e'\<close>: the file keeps its identity, its lock level and its lease, and the remote side changes by such calls
  alone.\<close>

definition same_id :: "'w sqliteObjsFile \<Rightarrow> 'w sqliteObjsFile \<Rightarrow> bool" where
  "same_id p p' \<longleftrightarrow> ops p' = ops p \<and> zBlobName p' = zBlobName p \<and> eFileType p' = eFileType p \<and>
     leaseId p' = leaseId p \<and> eLock p' = eLock p"

definition calls :: "'w sqliteObjsFile \<Rightarrow> 'w env \<Rightarrow> 'w env \<Rightarrow> bool" where
  "calls p e e' \<longleftrightarrow> (call_step (ops p) (blob p) (leaseId p))\<^sup>*\<^sup>* (remote e) (remote e')"

definition acts :: "'w sqliteObjsFile \<Rightarrow> 'w env \<Rightarrow> 'w sqliteObjsFile \<Rightarrow> 'w env \<Rightarrow> bool" where
  "acts p e p' e' \<longleftrightarrow> same_id p p' \<and> calls p e e'"

lemma same_id_refl [simp]: "same_id p p"
  by (simp add: same_id_def)

lemma same_id_upd [simp]:
  "same_id p (bump u n q) = same_id p q" "same_id p (q\<lparr>nData := a\<rparr>) = same_id p q" "same_id p (q\<lparr>dirty := b\<rparr>) = same_id p q"
  "same_id p (q\<lparr>pageSize := a\<rparr>) = same_id p q" "same_id p (q\<lparr>lastSyncDirtyCount := a\<rparr>) = same_id p q"
  "same_id p (q\<lparr>valid := b\<rparr>) = same_id p q" "same_id p (q\<lparr>leaseAcquiredAt := a\<rparr>) = same_id p q"
  "same_id p (q\<lparr>readsSinceSharedLock := a\<rparr>) = same_id p q" "same_id p (q\<lparr>lastSyncedSize := a\<rparr>) = same_id p q"
  "same_id p (q\<lparr>leaseDuration := a\<rparr>) = same_id p q"
  "same_id p (q\<lparr>etag := s\<rparr>) = same_id p q" "same_id p (q\<lparr>snapshot := s\<rparr>) = same_id p q" "same_id p (q\<lparr>nDownloads := a\<rparr>) = same_id p q"
  by (simp_all add: same_id_def)

lemma same_id_db: "same_db p p' \<Longrightarrow> same_id p p'"
  by (simp add: same_db_def same_id_def)

lemma same_id_blob: "same_id p p' \<Longrightarrow> ops p' = ops p \<and> blob p' = blob p \<and> leaseId p' = leaseId p \<and> eLock p' = eLock p \<and>
    eFileType p' = eFileType p"
  by (simp add: same_id_def blob_def)

lemma acts_refl: "same_id p p' \<Longrightarrow> remote e' = remote e \<Longrightarrow> acts p e p' e'"
  by (simp add: acts_def calls_def)

lemma acts_trans:
  assumes "acts p e q f" and "acts q f r g"
  shows "acts p e r g"
proof -
  have id: "same_id p q" "same_id q r" using assms by (simp_all add: acts_def)
  have "calls p f g" using assms(2) same_id_blob [OF id(1)] by (simp add: acts_def calls_def)
  moreover have "calls p e f" using assms(1) by (simp add: acts_def)
  ultimately have "calls p e g" unfolding calls_def by (rule rtranclp_trans [rotated])
  moreover have "same_id p r" using id by (simp add: same_id_def)
  ultimately show ?thesis by (simp add: acts_def)
qed

lemma acts_more: "same_id p p' \<Longrightarrow> posix.more e' = posix.more e \<Longrightarrow> acts p e p' e'"
  by (rule acts_refl) (blast dest: more_env)+

lemma acts_call:
  assumes "call_step (ops p) (blob p) (leaseId p) (remote e) (remote e')" and "same_id p p'"
  shows "acts p e p' e'"
  using assms by (simp add: acts_def calls_def)

lemma lease_arg_alt: "lease_arg p = (if leaseId p = [] then None else Some (leaseId p))"
  by (simp add: lease_arg_def hasLease_def)

text \<open>A call through the environment.\<close>

lemma acts_do:
  assumes "do_azure f e = (rc, err, e')" and "\<And>w rc err w'. f w = (rc, err, w') \<Longrightarrow> call_step (ops p) (blob p) (leaseId p) w w'"
    and "same_id p p'"
  shows "acts p e p' e'"
  by (rule acts_call [OF assms(2) [OF do_azure_remote [OF assms(1)]] assms(3)])

lemma acts_query:
  assumes "call_azure f e = (rc, out, err, e')"
    and "\<And>w rc out err w'. f w = (rc, out, err, w') \<Longrightarrow> call_step (ops p) (blob p) (leaseId p) w w'" and "same_id p p'"
  shows "acts p e p' e'"
  by (rule acts_call [OF assms(2) [OF call_azure_remote [OF assms(1)]] assms(3)])

section \<open>Every method stays within them\<close>

lemma sys_time_remote: "sys_time e = (t, e') \<Longrightarrow> posix.more e' = posix.more e"
  by (auto simp: sys_time_def split: list.splits)

lemma lseek_frame:
  "sys_lseek_end fd e = (r, e') \<Longrightarrow> fs e' = fs e \<and> posix.more e' = posix.more e"
  "sys_lseek_start fd e = (r, e') \<Longrightarrow> fs e' = fs e \<and> posix.more e' = posix.more e"
  by (auto simp: sys_lseek_end_def sys_lseek_start_def split: prod.splits if_splits dest: next_io_frame)

lemma fd_frames:
  "pread_fd fd n off e = (r, d, e') \<Longrightarrow> posix.more e' = posix.more e"
  "pwrite_fd fd b off e = (r, e') \<Longrightarrow> posix.more e' = posix.more e"
  "ftruncate_fd fd n e = (r, e') \<Longrightarrow> posix.more e' = posix.more e"
  "fsync_fd fd e = (r, e') \<Longrightarrow> posix.more e' = posix.more e"
  by (auto simp: pread_fd_def pwrite_fd_def ftruncate_fd_def fsync_fd_def split: option.splits
      dest: pread_frame pwrite_frame ftruncate_frame fsync_frame)

lemma leaseRenew_acts:
  assumes "leaseRenewIfNeeded p e = (rc, p', e')"
  shows "acts p e p' e'"
proof -
  obtain t e1 where t: "sys_time e = (t, e1)" by (rule prod.exhaust)
  have 1: "acts p e p e1" using sys_time_remote [OF t] by (simp add: acts_more)
  show ?thesis
  proof (cases "remote e' = remote e")
    case True
    then show ?thesis using assms leaseRenew_same [OF assms] by (intro acts_refl same_id_db) auto
  next
    case False
    then obtain f rc1 err where f: "Option.bind (ops p) lease_renew = Some f" "leaseId p \<noteq> []"
      "do_azure (f (blob p) (leaseId p)) e1 = (rc1, err, e')"
      using assms t 1 more_env [OF sys_time_remote [OF t]]
      by (auto simp: leaseRenewIfNeeded_def hasLease_def Let_def split: if_splits option.splits prod.splits)
    have "acts p e1 p' e'"
      using leaseRenew_same [OF assms] by (intro acts_do [OF f(3)] renew_call [OF f(1,2)] same_id_db) auto
    then show ?thesis using 1 acts_trans by blast
  qed
qed

lemma ensureCapacity_more: "bitmapEnsureCapacity bm n ps e = (rc, bm', e') \<Longrightarrow> posix.more e' = posix.more e"
  by (auto simp: bitmapEnsureCapacity_def Let_def split: if_splits option.splits prod.splits dest: malloc_frame)

lemma bitmapsEnsure_frame: "bitmapsEnsureCapacity p e = (rc, p', e') \<Longrightarrow> same_id p p' \<and> posix.more e' = posix.more e"
  by (auto simp: bitmapsEnsureCapacity_def Let_def split: if_splits prod.splits dest!: ensureCapacity_more)

lemma cacheEnsure_frame: "cacheEnsureSize p n e = (rc, p', e') \<Longrightarrow> same_id p p' \<and> posix.more e' = posix.more e"
  by (auto simp: cacheEnsureSize_def split: if_splits option.splits prod.splits
      dest!: bitmapsEnsure_frame lseek_frame ftruncate_frame)

lemma fetch_range_acts:
  assumes "fetch_range f p off n e = (rc, p', e')" and "Option.bind (ops p) page_blob_read = Some f"
  shows "acts p e p' e'"
proof -
  obtain arc buf err e1 where c: "call_azure (f (blob p) off n) e = (arc, buf, err, e1)" by (rule prod_cases4)
  have "acts p e p e1" by (intro acts_query [OF c] read_call [OF assms(2)]) auto
  moreover have "acts p e1 p' e'"
    using assms(1) c
    by (intro acts_more) (auto simp: fetch_range_def validMarkRange_def Let_def split: if_splits prod.splits dest: fd_frames)
  ultimately show ?thesis by (rule acts_trans)
qed

lemma fetchPages_acts: "fetchPagesFromAzure p i e = (rc, p', e') \<Longrightarrow> acts p e p' e'"
  by (auto simp: fetchPagesFromAzure_def Let_def acts_refl split: if_splits option.splits dest: fetch_range_acts)

lemma lazy_loop_acts: "lazy_fetch_loop pg en h p e = (rc, h', p', e') \<Longrightarrow> acts p e p' e'"
proof (induction pg en h p e rule: lazy_fetch_loop.induct)
  case (1 pg en h p e)
  define q where "q = bump cache_miss_pages_update 1 (if h then p else bump cache_misses_update 1 p)"
  have q: "acts p e q e" by (simp add: q_def acts_refl)
  obtain rc1 p1 e1 where f: "fetchPagesFromAzure q pg e = (rc1, p1, e1)" by (rule prod_cases3)
  note pq = acts_trans [OF q fetchPages_acts [OF f]]
  show ?case
  proof (cases "pg < en \<and> \<not> bitmapTestBit (valid p) pg \<and> rc1 = SQLITE_OK")
    case True
    then have rest: "lazy_fetch_loop (pg + 1) en True p1 e1 = (rc, h', p', e')"
      using "1.prems" f by (simp add: lazy_fetch_loop.simps [of pg en h p e] q_def Let_def)
    have "acts p1 e1 p' e'" using True rest f by (intro "1.IH"(2) [OF _ _ refl q_def]) auto
    then show ?thesis using pq acts_trans by blast
  next
    case False
    then show ?thesis using "1.prems" "1.IH"(1) pq f
      by (auto simp: lazy_fetch_loop.simps [of pg en h p e] q_def [symmetric] Let_def acts_refl split: if_splits prod.splits)
  qed
qed

lemma read_acts:
  assumes "sqliteObjsRead p n off e = (rc, buf, p', e')" and "eFileType p = MAIN_DB"
  shows "acts p e p' e'"
proof -
  define q where "q = (if SQLITE_LOCK_SHARED \<le> eLock p then p\<lparr>readsSinceSharedLock := readsSinceSharedLock p + 1\<rparr> else p)"
  define f where "f = e\<lparr>g_xread_count := g_xread_count e + 1\<rparr>"
  have pq: "acts p e q f" by (simp add: q_def f_def acts_refl)
  obtain rc1 p1 e1 where l: "lazy_fetch n off q f = (rc1, p1, e1)" by (rule prod_cases3)
  then have la: "acts q f p1 e1"
    by (auto simp: lazy_fetch_def Let_def acts_refl split: if_splits prod.splits dest!: lazy_loop_acts)
       (auto simp: acts_def)
  have "acts p1 e1 p' e'" if "cache_read n off p1 e1 = (rc, buf, p', e')"
    using that by (intro acts_more) (auto simp: cache_read_def Let_def split: if_splits prod.splits dest: fd_frames)
  moreover have "sqliteObjsRead p n off e =
      (if cacheFd q = None \<or> nData q \<le> off then (SQLITE_IOERR_SHORT_READ, replicate (nat n) 0, q, f)
       else if rc1 \<noteq> SQLITE_OK then (rc1, replicate (nat n) 0, p1, e1) else cache_read n off p1 e1)"
  proof -
    have "cacheFd q = cacheFd p" "nData q = nData p" by (simp_all add: q_def)
    then show ?thesis
      unfolding sqliteObjsRead_def Let_def f_def [symmetric] q_def [symmetric] using assms(2) l by simp
  qed
  ultimately show ?thesis
    using assms(1) pq acts_trans [OF pq la] by (auto intro: acts_trans split: if_splits)
qed

lemma mark_written_id: "same_id p (mark_written_loop ps s en p)"
  using mark_written_frame [of ps s en p] by auto

lemma write_acts:
  assumes "sqliteObjsWrite p d off e = Some (rc, p', e')" and "eFileType p = MAIN_DB"
  shows "acts p e p' e'"
proof -
  define en q where "en = off + int (length d)" and "q = (if nData p < en then p\<lparr>nData := en\<rparr> else p)"
  obtain rc1 p1 e1 where grow: "(if nData p < en then cacheEnsureSize q en e else (SQLITE_OK, q, e)) = (rc1, p1, e1)"
    by (rule prod_cases3)
  obtain nw e2 where pw: "pwrite_fd (cacheFd p1) d off e1 = (nw, e2)" by (rule prod.exhaust)
  define p2 where "p2 = bump disk_bytes_written_update (int (length d)) (bump disk_writes_update 1 p1)"
  obtain rc3 p3 e3 where rn: "(if hasLease p2 then leaseRenewIfNeeded p2 e2 else (SQLITE_OK, p2, e2)) = (rc3, p3, e3)"
    by (rule prod_cases3)
  have "same_id q p1" "posix.more e1 = posix.more e"
    using grow by (auto split: if_splits dest: cacheEnsure_frame)
  moreover have "same_id p q" by (simp add: q_def)
  ultimately have 1: "acts p e p1 e1" by (intro acts_more) (auto simp: same_id_def)
  have 2: "acts p1 e1 p2 e2" "acts p1 e1 p1 e2" using fd_frames(2) [OF pw] by (simp_all add: acts_more p2_def)
  have 3: "acts p2 e2 p3 e3" using rn by (auto simp: acts_refl split: if_splits dest: leaseRenew_acts)
  have 4: "acts p1 e1 (p1\<lparr>nData := n\<rparr>) e1" "acts p1 e2 (p1\<lparr>nData := n\<rparr>) e2" for n by (simp_all add: acts_refl)
  have 5: "acts p3 e3 (mark_written_loop ps s en p3) e3" for ps s by (simp add: acts_refl mark_written_id)
  have run: "sqliteObjsWrite p d off e =
      (if cacheFd p = None then Some (SQLITE_IOERR_WRITE, p, e)
       else if rc1 \<noteq> SQLITE_OK then Some (rc1, p1\<lparr>nData := nData p\<rparr>, e1)
       else if nw \<noteq> int (length d) then Some (SQLITE_IOERR_WRITE, p1\<lparr>nData := nData p\<rparr>, e2)
       else if rc3 \<noteq> SQLITE_OK then Some (rc3, p3, e3)
       else if pageSize p3 > 0
       then Some (SQLITE_OK, mark_written_loop (pageSize p3) (c_div off (pageSize p3) * pageSize p3) en p3, e3)
       else Some (SQLITE_OK, p3, e3))"
    unfolding sqliteObjsWrite_def Let_def en_def [symmetric] q_def [symmetric]
    by (simp only: assms(2) file_type.case grow pw rn p2_def [symmetric] prod.case)
  note a = acts_trans [OF 1 2(1)] and b = acts_trans [OF 1 2(2)]
  note c = acts_trans [OF a 3]
  show ?thesis
    using assms(1) acts_trans [OF 1 4(1)] acts_trans [OF b 4(2)] c acts_trans [OF c 5]
    unfolding run by (auto split: if_splits intro: acts_refl)
qed

lemma truncate_acts:
  assumes "sqliteObjsTruncate p sz e = (rc, p', e')" and "eFileType p = MAIN_DB"
  shows "acts p e p' e'"
proof (cases "Option.bind (ops p) page_blob_resize")
  case None
  then show ?thesis
    using assms by (intro acts_more)
      (auto simp: sqliteObjsTruncate_def Let_def split: if_splits prod.splits dest: fd_frames)
next
  case (Some f)
  obtain arc err e1 where c: "do_azure (f (blob p) (align512 sz) (lease_arg p)) e = (arc, err, e1)" by (rule prod_cases3)
  have "acts p e p' e1"
    using assms Some c
    by (intro acts_do [OF c] resize_call [OF Some])
       (auto simp: sqliteObjsTruncate_def lease_arg_alt Let_def split: if_splits prod.splits)
  moreover have "acts p' e1 p' e'"
    using assms Some c by (intro acts_more)
      (auto simp: sqliteObjsTruncate_def Let_def split: if_splits prod.splits dest: fd_frames)
  ultimately show ?thesis by (rule acts_trans)
qed

lemma sync_resize_acts:
  assumes "sync_resize p aerr e = (rc, aerr', p', e')"
  shows "acts p e p' e'"
proof (cases "Option.bind (ops p) page_blob_resize")
  case None
  then show ?thesis using assms by (simp add: sync_resize_def acts_refl)
next
  case (Some f)
  obtain arc err e1 where c: "do_azure (f (blob p) (align512 (nData p)) (lease_arg p)) e = (arc, err, e1)" by (rule prod_cases3)
  have "acts p e p' e1"
    using sync_resize_same [OF assms] by (intro acts_do [OF c] resize_call [OF Some] same_id_db) (auto simp: lease_arg_alt)
  then show ?thesis using assms Some c by (auto simp: sync_resize_def acts_refl split: if_splits)
qed

lemma seq_renew_acts: "seq_renew i p e = (rc, p', e') \<Longrightarrow> acts p e p' e'"
  by (auto simp: seq_renew_def acts_refl split: if_splits dest: leaseRenew_acts)

lemma seq_loop_acts:
  assumes "seq_loop f rs i aerr p e = (rc, aerr', p', e')" and "Option.bind (ops p) page_blob_write = Some f"
  shows "acts p e p' e'"
  using assms
proof (induction rs arbitrary: i aerr p e)
  case Nil
  then show ?case by (simp add: acts_refl)
next
  case (Cons r rs)
  have wr: "acts q e1 q' e2" if "do_azure (f (blob q) off d (lease_arg q) im) e1 = (arc, err, e2)" "ops q = ops p" "same_id q q'"
    for q q' e1 e2 off d im arc err
    using Cons.prems(2) that(2)
    by (intro acts_do [OF that(1) _ that(3)] write_call [where f = f]) (auto simp: lease_arg_alt)
  from Cons.prems(1) show ?case
  proof (cases rule: seq_loop_cases)
    case (renew rc1)
    then show ?thesis by (simp add: seq_renew_acts)
  next
    case (fail p1 e1 arc)
    note a = seq_renew_acts [OF fail(1)]
    have "acts p1 e1 p' e'" using a fail(4) by (intro wr [OF fail(2)]) (simp_all add: acts_def same_id_def)
    with a show ?thesis by (rule acts_trans)
  next
    case (ok p1 e1 err e2)
    note a = seq_renew_acts [OF ok(1)]
    define q where "q = bump blob_bytes_written_update (pr_len r) (bump blob_writes_update 1 p1)"
    have b: "acts p1 e1 q e2" using a by (intro wr [OF ok(2)]) (simp_all add: acts_def same_id_def q_def)
    have "ops q = ops p" using a by (simp add: q_def acts_def same_id_def)
    then have "acts q e2 p' e'" using ok(3) Cons.prems(2) by (intro Cons.IH) (simp_all add: q_def)
    then show ?thesis using acts_trans [OF a b] acts_trans by blast
  qed
qed

lemma sync_uploaded_acts: "sync_uploaded n aerr p e = (p', e') \<Longrightarrow> acts p e p' e'"
  by (rule acts_refl) (auto simp: sync_uploaded_def Let_def split: if_splits)

lemma sync_upload_acts:
  assumes "sync_upload f rs n aerr p e = (rc, p', e')" and "Option.bind (ops p) page_blob_write = Some f"
  shows "acts p e p' e'"
proof (cases "Option.bind (ops p) page_blob_write_batch")
  case (Some g)
  obtain arc err e1 where c: "do_azure (g (blob p) rs (lease_arg p) (if_match_arg p)) e = (arc, err, e1)" by (rule prod_cases3)
  have 1: "acts p e q e1" if "same_id p q" for q
    using that by (intro acts_do [OF c] batch_call [OF Some]) (auto simp: lease_arg_alt)
  define q where "q = bump blob_bytes_written_update (total_bytes rs) (bump blob_writes_update 1 p)"
  obtain p2 e2 where u: "sync_uploaded n err q e1 = (p2, e2)" by (rule prod.exhaust)
  have "acts p e p2 e2" using acts_trans [OF 1 sync_uploaded_acts [OF u]] by (simp add: q_def)
  then show ?thesis
    using assms(1) Some c 1 u
    by (auto simp: sync_upload_def sync_batch_def q_def [symmetric] Let_def split: if_splits)
next
  case None
  obtain rc1 aerr1 p1 e1 where l: "seq_loop f rs 0 aerr p e = (rc1, aerr1, p1, e1)" by (rule prod_cases4)
  note a = seq_loop_acts [OF l assms(2)]
  define e2 where "e2 = e1\<lparr>g_xread_count := 0, g_xread_journal_count := 0\<rparr>"
  obtain p3 e3 where u: "sync_uploaded n aerr1 p1 e2 = (p3, e3)" by (rule prod.exhaust)
  have "acts p1 e1 p1 e2" by (simp add: e2_def acts_refl)
  from acts_trans [OF acts_trans [OF a this] sync_uploaded_acts [OF u]] show ?thesis
    using assms(1) None l a u by (auto simp: sync_upload_def sync_seq_def e2_def [symmetric] Let_def split: if_splits)
qed

lemma sync_snapshot_acts:
  assumes "sync_snapshot p e = (p', e')"
  shows "acts p e p' e'"
proof -
  have "same_id p p'" using assms
    by (auto simp: sync_snapshot_def Let_def split: if_splits prod.splits option.splits bool.splits)
  then show ?thesis
    using sync_snapshot_remote [OF assms] by (metis acts_refl acts_call snapshot_call)
qed

lemma read_ranges_acts: "read_ranges_loop rs p e = (rc, rs', p', e') \<Longrightarrow> posix.more e' = posix.more e"
proof (induction rs arbitrary: p e rs' p' e' rc)
  case (Cons r rs)
  from Cons.prems show ?case by (auto simp: Let_def split: prod.splits if_splits dest!: Cons.IH fd_frames)
qed simp

lemma ftruncate_more: "posix.more (snd (sys_ftruncate fd n e)) = posix.more e"
  using ftruncate_frame [of fd n e] by (metis prod.collapse)

lemma sync_read_acts:
  assumes "sync_read rs p e = (rc, rs', p', e')"
  shows "acts p e p' e'"
proof (rule acts_more)
  show "same_id p p'" using sync_read_same [OF assms] by (rule same_id_db)
  show "posix.more e' = posix.more e"
    using assms
    by (auto simp: sync_read_def ftruncate_more Let_def split: if_splits prod.splits option.splits
        dest!: read_ranges_acts malloc_frame lseek_frame ftruncate_frame)
qed

lemma sync_acts:
  assumes "sqliteObjsSync p e = (rc, p', e')" and "eFileType p = MAIN_DB"
  shows "acts p e p' e'"
proof (cases "bm_nSet (dirty p) = 0 \<or> Option.bind (ops p) page_blob_write = None")
  case True
  then show ?thesis using assms by (auto simp: sqliteObjsSync_def sync_db_def acts_refl split: if_splits)
next
  case False
  then obtain wr where wr: "Option.bind (ops p) page_blob_write = Some wr" and n: "bm_nSet (dirty p) \<noteq> 0" by auto
  define q where "q = bump dirty_pages_synced_update (bm_nSet (dirty p)) (bump syncs_update 1 p)"
  have q: "acts p e q e" by (simp add: q_def acts_refl)
  obtain rc1 p1 e1 where 1: "leaseRenewIfNeeded q e = (rc1, p1, e1)" by (rule prod_cases3)
  obtain rc2 aerr p2 e2 where 2: "sync_resize p1 (stack_error e1) e1 = (rc2, aerr, p2, e2)" by (rule prod_cases4)
  obtain rc3 rs e3 where 3: "sync_ranges p2 e2 = (rc3, rs, e3)" by (rule prod_cases3)
  obtain rc4 rs' p4 e4 where 4: "sync_read rs p2 e3 = (rc4, rs', p4, e4)" by (rule prod_cases4)
  obtain rc5 p5 e5 where 5: "sync_upload wr rs' (bm_nSet (dirty p)) aerr p4 e4 = (rc5, p5, e5)" by (rule prod_cases3)
  obtain p6 e6 where 6: "sync_snapshot p5 e5 = (p6, e6)" by (rule prod.exhaust)
  note a1 = acts_trans [OF q leaseRenew_acts [OF 1]]
  note a2 = acts_trans [OF a1 sync_resize_acts [OF 2]]
  have "acts p2 e2 p2 e3" using 3 by (intro acts_more) (auto simp: sync_ranges_def split: option.splits prod.splits dest: malloc_frame)
  note a3 = acts_trans [OF a2 this]
  note a4 = acts_trans [OF a3 sync_read_acts [OF 4]]
  have "Option.bind (ops p4) page_blob_write = Some wr" using a4 wr by (simp add: acts_def same_id_def)
  note a5 = acts_trans [OF a4 sync_upload_acts [OF 5 this]]
  note a6 = acts_trans [OF a5 sync_snapshot_acts [OF 6]]
  have "(p', e') \<in> {(p1, e1), (p2, e2), (p2, e3), (p4, e4), (p5, e5), (p6, e6)}"
    using assms n wr 1 2 3 4 5 6
    by (auto simp: sqliteObjsSync_def sync_db_def q_def [symmetric] Let_def split: if_splits)
  then show ?thesis using a1 a2 a3 a4 a5 a6 by blast
qed

lemma refresh_loop_frame:
  "refresh_write_loop fd buf n k p e = (rc, p', e') \<Longrightarrow> same_id p p' \<and> posix.more e' = posix.more e"
proof (induction fd buf n k p e rule: refresh_write_loop.induct)
  case (1 fd buf n k p e)
  obtain nw e1 where w: "sys_pwrite fd (bslice buf (nat k) (nat (n - k))) k e = (nw, e1)" by (rule prod.exhaust)
  have m: "posix.more e1 = posix.more e" using pwrite_frame [OF w] by simp
  show ?case
  proof (cases "k < n \<and> 0 < nw")
    case True
    define q where "q = bump disk_bytes_written_update nw (bump disk_writes_update 1 p)"
    have "refresh_write_loop fd buf n (k + nw) q e1 = (rc, p', e')"
      using "1.prems" True w by (simp add: refresh_write_loop.simps [of fd buf n k] q_def)
    from "1.IH" [OF _ w [symmetric] _ this [unfolded q_def]] True m show ?thesis by (simp add: same_id_def)
  next
    case False
    then show ?thesis using "1.prems" w m by (auto simp: refresh_write_loop.simps [of fd buf n k] split: if_splits)
  qed
qed

lemma refresh_finish_frame:
  assumes "refresh_finish n p e = (p', e')"
  shows "same_id p p' \<and> posix.more e' = posix.more e"
proof -
  define p0 where "p0 = p\<lparr>nData := n, nDownloads := nDownloads p + 1, snapshot := []\<rparr>"
  obtain nr h e1 where 1: "pread_fd (cacheFd p0) 100 0 e = (nr, h, e1)" by (rule prod_cases3)
  define p1 where "p1 = (if nr = 100 then let detected = detectPageSize h 100
    in if detected > 0 then p0\<lparr>pageSize := detected\<rparr> else p0 else p0)"
  obtain rc2 p2 e2 where 2: "bitmapsEnsureCapacity p1 e1 = (rc2, p2, e2)" by (rule prod_cases3)
  have "same_id p p0" by (simp add: p0_def)
  then have "same_id p p1" by (simp add: p1_def Let_def)
  with bitmapsEnsure_frame [OF 2] have "same_id p p2" by (auto simp: same_id_def)
  then show ?thesis
    using assms fd_frames(1) [OF 1] bitmapsEnsure_frame [OF 2] 1 2
    unfolding refresh_finish_def Let_def [of "p\<lparr>nData := n, nDownloads := nDownloads p + 1, snapshot := []\<rparr>"] p0_def [symmetric]
    by (auto simp: p1_def [symmetric] validMarkAll_def Let_def split: if_splits prod.splits dest!: ensureCapacity_more)
qed

lemma refresh_download_acts:
  assumes "refresh_download az p n buf e = Some (arc, buf', e')" and "ops p = Some az"
  shows "acts p e p e'"
proof (cases "page_blob_read_multi az")
  case (Some f)
  obtain rc b err e1 where c: "call_azure (f (blob p) n buf) e = (rc, b, err, e1)" by (rule prod_cases4)
  have "acts p e p e1" using assms(2) Some by (intro acts_query [OF c] multi_call [where f = f]) auto
  then show ?thesis using assms(1) Some c by (simp add: refresh_download_def)
next
  case None
  then obtain f where f: "page_blob_read az = Some f" using assms(1) by (auto simp: refresh_download_def split: option.splits)
  obtain rc b err e1 where c: "call_azure (f (blob p) 0 n) e = (rc, b, err, e1)" by (rule prod_cases4)
  have "acts p e p e1" using assms(2) f by (intro acts_query [OF c] read_call [where f = f]) auto
  then show ?thesis using assms(1) None f c by (auto simp: refresh_download_def split: if_splits)
qed

lemma refresh_acts:
  assumes "refreshMainDbCache p n et e = (rc, p', e')"
  shows "acts p e p' e'"
proof (cases "eFileType p = MAIN_DB \<and> cacheFd p \<noteq> None \<and> 0 < n")
  case False
  then show ?thesis using assms
    by (intro acts_more) (auto simp: refreshMainDbCache_def Let_def split: if_splits option.splits prod.splits dest: ftruncate_frame)
next
  case True
  then obtain fd where fd: "cacheFd p = Some fd" by auto
  define q where "q = bump revalidation_downloads_update 1 (if et \<noteq> [] then p\<lparr>etag := et\<rparr> else p)"
  have q: "acts p e q e" by (simp add: q_def acts_refl)
  obtain mb e1 where m: "sys_malloc n e = (mb, e1)" by (rule prod.exhaust)
  have a1: "acts p e q e1" using malloc_frame [OF m] by (intro acts_more) (simp_all add: q_def)
  show ?thesis
  proof (cases "\<exists>buf az arc buf' e2. mb = Some buf \<and> ops q = Some az \<and> refresh_download az q n buf e1 = Some (arc, buf', e2)")
    case False
    then have "p' = q \<and> e' = e1" using assms True fd m
      by (auto simp: refreshMainDbCache_def Let_def q_def split: option.splits)
    then show ?thesis using a1 by simp
  next
    case True': True
    then obtain buf az arc buf' e2 where d: "mb = Some buf" "ops q = Some az" "refresh_download az q n buf e1 = Some (arc, buf', e2)"
      by blast
    have q_ops: "ops p = ops q" by (simp add: q_def)
    note a2 = acts_trans [OF a1 refresh_download_acts [OF d(3,2)]]
    define q3 where "q3 = bump blob_bytes_read_update n (bump blob_reads_update 1 q)"
    obtain r3 e3 where s: "sys_lseek_start fd e2 = (r3, e3)" by (rule prod.exhaust)
    obtain r4 e4 where t: "sys_ftruncate fd 0 e3 = (r4, e4)" by (rule prod.exhaust)
    obtain rc5 p5 e5 where l: "refresh_write_loop fd buf' n 0 q3 e4 = (rc5, p5, e5)" by (rule prod_cases3)
    obtain r6 e6 where y: "sys_fsync fd e5 = (r6, e6)" by (rule prod.exhaust)
    obtain p7 e7 where f: "refresh_finish n p5 e6 = (p7, e7)" by (rule prod.exhaust)
    note fr = lseek_frame(2) [OF s] ftruncate_frame [OF t] refresh_loop_frame [OF l] fsync_frame [OF y] refresh_finish_frame [OF f]
    have i: "same_id q q3" "same_id q p5" "same_id q p7" "same_id q (bump azure_errors_update 1 q)"
      using fr by (simp_all add: q3_def same_id_def)
    have "(p', e') \<in> {(bump azure_errors_update 1 q, e2), (q3, e3), (q3, e4), (p5, e5), (p5, e6), (p7, e7)}"
      using assms True fd m d(1,3) s t l y f d(2) q_ops
      unfolding refreshMainDbCache_def Let_def q_def [symmetric] q3_def [symmetric]
      by (simp split: if_splits)
    then have "same_id q p' \<and> posix.more e' = posix.more e2" using fr i by auto
    then have "acts q e2 p' e'" by (auto intro: acts_more)
    with a2 show ?thesis by (rule acts_trans)
  qed
qed

lemma before_read_acts:
  assumes "revalidateBeforeRead p e = (rc, p', e')"
  shows "acts p e p' e'"
proof (cases "Option.bind (ops p) blob_get_properties")
  case None
  then show ?thesis using assms by (auto simp: revalidateBeforeRead_def acts_refl split: if_splits)
next
  case (Some f)
  define q where "q = bump revalidations_update 1 p"
  obtain arc sz ls lt err e1 where c: "call_azure (f (blob p)) e = (arc, (sz, ls, lt), err, e1)" by (cases "call_azure (f (blob p)) e") auto
  have 1: "acts p e q' e1" if "same_id p q'" for q' using that by (intro acts_query [OF c] props_call [OF Some]) auto
  have 2: "acts p e r g" if "refreshMainDbCache q n et e1 = (rc', r, g)" for n et rc' r g
    using acts_trans [OF 1 refresh_acts [OF that]] by (simp add: q_def)
  show ?thesis using assms Some c 1 2
    unfolding revalidateBeforeRead_def Let_def q_def [symmetric]
    by (auto simp: q_def acts_refl split: if_splits)
qed

lemma after_lease_acts:
  assumes "revalidateAfterLease p et e = (rc, p', e')"
  shows "acts p e p' e'"
proof (cases "Option.bind (ops p) blob_get_properties")
  case None
  then show ?thesis using assms by (auto simp: revalidateAfterLease_def acts_refl Let_def split: if_splits)
next
  case (Some f)
  define q where "q = bump revalidations_update 1 p"
  obtain arc sz ls lt err e1 where c: "call_azure (f (blob p)) e = (arc, (sz, ls, lt), err, e1)" by (cases "call_azure (f (blob p)) e") auto
  have 1: "acts p e q' e1" if "same_id p q'" for q' using that by (intro acts_query [OF c] props_call [OF Some]) auto
  have 2: "acts p e r g" if "refreshMainDbCache q n et e1 = (rc', r, g)" for n et rc' r g
    using acts_trans [OF 1 refresh_acts [OF that]] by (simp add: q_def)
  show ?thesis using assms Some c 1 2
    unfolding revalidateAfterLease_def Let_def q_def [symmetric]
    by (auto simp: q_def acts_refl split: if_splits)
qed

section \<open>Taking and dropping the lease\<close>

lemma release_call_acts: "acts p e p (release_call p e)"
proof (cases "Option.bind (ops p) lease_release")
  case (Some f)
  obtain rc err e1 where c: "do_azure (f (blob p) (leaseId p)) e = (rc, err, e1)" by (rule prod_cases3)
  have "acts p e p e1" by (intro acts_do [OF c] call_step.release_call [OF Some]) auto
  then show ?thesis using Some c by (simp add: release_call_def)
qed (simp add: release_call_def acts_refl)

text \<open>The branches of \<^verbatim>\<open>xLock\<close>. In the last one the file had no lease: the acquisition is the first call, the
  revalidation follows under the new lease, and unless it succeeds the lease is given back.\<close>

lemma azureErr_ok: "azureErrToSqlite arc (Some SQLITE_IOERR_LOCK) = SQLITE_OK \<longleftrightarrow> arc = AZURE_OK"
  by (simp add: azureErrToSqlite_def split: azure_err.splits)

lemma lock_cases:
  assumes "sqliteObjsLock p lvl e = (rc, p', e')"
  obtains (held) "p' = p" "e' = e" "rc = SQLITE_OK" "lvl \<le> eLock p"
  | (shared) q where "lvl = SQLITE_LOCK_SHARED" "eLock p < lvl" "revalidateBeforeRead (p\<lparr>readsSinceSharedLock := 0\<rparr>) e = (rc, q, e')"
      "p' = (if rc = SQLITE_OK then q\<lparr>eLock := lvl\<rparr> else q)"
  | (upgrade) "eLock p < lvl" "lvl \<noteq> SQLITE_LOCK_SHARED" "hasLease p \<or> Option.bind (ops p) lease_acquire = None" "rc = SQLITE_OK"
      "p' = p\<lparr>eLock := lvl\<rparr>" "e' = e"
  | (refused) f dur arc lid err where "eLock p < lvl" "lvl \<noteq> SQLITE_LOCK_SHARED" "\<not> hasLease p"
      "Option.bind (ops p) lease_acquire = Some f" "call_azure (f (blob p) dur) e = (arc, lid, err, e')" "arc \<noteq> AZURE_OK"
      "rc \<noteq> SQLITE_OK" "p' = bump azure_errors_update 1 (case lid of None \<Rightarrow> p | Some l \<Rightarrow> p\<lparr>leaseId := l\<rparr>)"
  | (leased) f dur lid err e1 t e2 q rv q' e3 where "eLock p < lvl" "lvl \<noteq> SQLITE_LOCK_SHARED" "\<not> hasLease p"
      "Option.bind (ops p) lease_acquire = Some f" "call_azure (f (blob p) dur) e = (AZURE_OK, lid, err, e1)"
      "sys_time e1 = (t, e2)"
      "q = (bump lease_acquires_update 1 (case lid of None \<Rightarrow> p | Some l \<Rightarrow> p\<lparr>leaseId := l\<rparr>))\<lparr>leaseAcquiredAt := t, leaseDuration := dur\<rparr>"
      "revalidateAfterLease q (err_etag err) e2 = (rv, q', e3)"
      "(rc, p', e') = (if rv = SQLITE_OK then (SQLITE_OK, q'\<lparr>eLock := lvl\<rparr>, e3) else (rv, drop_lease q', release_call q' e3))"
proof -
  consider "lvl \<le> eLock p" | "eLock p < lvl" "lvl = SQLITE_LOCK_SHARED"
    | "eLock p < lvl" "lvl \<noteq> SQLITE_LOCK_SHARED" "hasLease p \<or> Option.bind (ops p) lease_acquire = None"
    | f where "eLock p < lvl" "lvl \<noteq> SQLITE_LOCK_SHARED" "\<not> hasLease p" "Option.bind (ops p) lease_acquire = Some f"
    by fastforce
  then show ?thesis
  proof cases
    case 1
    then show ?thesis using assms held by (simp add: sqliteObjsLock_def)
  next
    case 2
    obtain rv q f where r: "revalidateBeforeRead (p\<lparr>readsSinceSharedLock := 0\<rparr>) e = (rv, q, f)" by (rule prod_cases3)
    then have "rc = rv \<and> e' = f \<and> p' = (if rc = SQLITE_OK then q\<lparr>eLock := lvl\<rparr> else q)"
      using assms 2 by (simp add: sqliteObjsLock_def Let_def split: if_splits)
    then show ?thesis using shared 2 r by blast
  next
    case 3
    then have "rc = SQLITE_OK \<and> p' = p\<lparr>eLock := lvl\<rparr> \<and> e' = e"
      using assms by (auto simp: sqliteObjsLock_def split: if_splits)
    then show ?thesis using upgrade 3 by blast
  next
    case (4 f)
    define dur where "dur = (if SQLITE_OBJS_DIRTY_PAGE_THRESHOLD < lastSyncDirtyCount p
      then SQLITE_OBJS_LEASE_DURATION_LONG else SQLITE_OBJS_LEASE_DURATION)"
    obtain arc lid err e1 where c: "call_azure (f (blob p) dur) e = (arc, lid, err, e1)" by (rule prod_cases4)
    define p1 where "p1 = (case lid of None \<Rightarrow> p | Some l \<Rightarrow> p\<lparr>leaseId := l\<rparr>)"
    obtain t e2 where t: "sys_time e1 = (t, e2)" by (rule prod.exhaust)
    define q where "q = (bump lease_acquires_update 1 p1)\<lparr>leaseAcquiredAt := t, leaseDuration := dur\<rparr>"
    obtain rv q' e3 where v: "revalidateAfterLease q (err_etag err) e2 = (rv, q', e3)" by (rule prod_cases3)
    have run: "lock_acquire f p e =
        (if arc = AZURE_ERR_CONFLICT then (SQLITE_BUSY, bump azure_errors_update 1 p1, e1)
         else if arc \<noteq> AZURE_OK then (azureErrToSqlite arc (Some SQLITE_IOERR_LOCK), bump azure_errors_update 1 p1, e1)
         else if rv \<noteq> SQLITE_OK then (rv, drop_lease q', release_call q' e3) else (SQLITE_OK, q', e3))"
      unfolding lock_acquire_def Let_def dur_def [symmetric]
      by (simp only: c prod.case p1_def [symmetric] t q_def [symmetric] v)
    have lock: "(rc, p', e') = (case lock_acquire f p e of (rc, p, e) \<Rightarrow>
        if rc \<noteq> SQLITE_OK then (rc, p, e) else (SQLITE_OK, p\<lparr>eLock := lvl\<rparr>, e))"
      using assms 4 by (simp add: sqliteObjsLock_def)
    show ?thesis
    proof (cases "arc = AZURE_OK")
      case True
      have "(rc, p', e') = (if rv = SQLITE_OK then (SQLITE_OK, q'\<lparr>eLock := lvl\<rparr>, e3) else (rv, drop_lease q', release_call q' e3))"
        using lock run True by (simp split: if_splits)
      then show ?thesis using leased [OF 4 c [unfolded True] t q_def [unfolded p1_def] v] by simp
    next
      case False
      then have "rc \<noteq> SQLITE_OK" "p' = bump azure_errors_update 1 p1" "e' = e1"
        using lock run azureErr_ok [of arc] by (auto split: if_splits)
      then show ?thesis using refused [OF 4 _ False] c by (simp add: p1_def)
    qed
  qed
qed

section \<open>Lock levels and leases\<close>

text \<open>One call of a method on an open database file, with any arguments and any outcome. The time of the environment advances
  within the methods.\<close>

inductive file_step :: "'w sqliteObjsFile \<times> 'w env \<Rightarrow> 'w sqliteObjsFile \<times> 'w env \<Rightarrow> bool" where
  step_read: "sqliteObjsRead p n off e = (rc, buf, p', e') \<Longrightarrow> file_step (p, e) (p', e')"
| step_write: "sqliteObjsWrite p d off e = Some (rc, p', e') \<Longrightarrow> file_step (p, e) (p', e')"
| step_truncate: "sqliteObjsTruncate p sz e = (rc, p', e') \<Longrightarrow> file_step (p, e) (p', e')"
| step_sync: "sqliteObjsSync p e = (rc, p', e') \<Longrightarrow> file_step (p, e) (p', e')"
| step_lock: "sqliteObjsLock p lvl e = (rc, p', e') \<Longrightarrow> file_step (p, e) (p', e')"
| step_unlock: "sqliteObjsUnlock p lvl e = (rc, p', e') \<Longrightarrow> file_step (p, e) (p', e')"

inductive_cases file_stepE: "file_step (p, e) s"

lemma file_step_cases:
  assumes "file_step (p, e) (p', e')" and "eFileType p = MAIN_DB"
  obtains (acts) "acts p e p' e'" | (lock) lvl rc where "sqliteObjsLock p lvl e = (rc, p', e')"
  | (unlock) lvl rc where "sqliteObjsUnlock p lvl e = (rc, p', e')"
  using assms(1)
proof (cases rule: file_step.cases)
  case step_read
  then show ?thesis using acts read_acts [OF _ assms(2)] by blast
next
  case step_write
  then show ?thesis using acts write_acts [OF _ assms(2)] by blast
next
  case step_truncate
  then show ?thesis using acts truncate_acts [OF _ assms(2)] by blast
next
  case step_sync
  then show ?thesis using acts sync_acts [OF _ assms(2)] by blast
qed (erule lock unlock)+

lemma unlock_cases:
  assumes "sqliteObjsUnlock p lvl e = (rc, p', e')"
  obtains (same) "e' = e" "p' = p"
  | (lower) "e' = e" "p' = p\<lparr>eLock := lvl\<rparr>" "lvl < eLock p"
  | (drop) u n where "hasLease p" "e' = release_call p e" "p' = (drop_lease (bump u n p))\<lparr>eLock := lvl\<rparr>" "lvl \<le> SQLITE_LOCK_SHARED"
proof -
  consider "eLock p \<le> lvl" | "lvl < eLock p" "\<not> (lvl \<le> SQLITE_LOCK_SHARED \<and> hasLease p)"
    | "lvl < eLock p" "lvl \<le> SQLITE_LOCK_SHARED" "hasLease p" by linarith
  then show ?thesis
  proof cases
    case 1
    then show ?thesis using assms same by (simp add: sqliteObjsUnlock_def)
  next
    case 2
    then have "e' = e \<and> p' = p\<lparr>eLock := lvl\<rparr>" using assms by (auto simp: sqliteObjsUnlock_def split: if_splits)
    then show ?thesis using lower 2 by blast
  next
    case 3
    have "drop_lease p = drop_lease (bump disk_reads_update 0 p)" by (simp add: bump_def drop_lease_def)
    then have "\<exists>u n. e' = release_call p e \<and> p' = (drop_lease (bump u n p))\<lparr>eLock := lvl\<rparr>"
      using assms 3 by (auto simp: sqliteObjsUnlock_def Let_def split: if_splits)
    then show ?thesis using drop 3 by blast
  qed
qed

text \<open>The contract of the lease operation the lock levels rest on: a granted lease has an identifier.\<close>

locale lease_provider =
  fixes store :: "'w azure_ops"
  assumes offered: "lease_acquire store \<noteq> None"
    and granted: "lease_acquire store = Some f \<Longrightarrow> f name n w = (AZURE_OK, lid, err, w') \<Longrightarrow> \<exists>l. lid = Some l \<and> l \<noteq> []"
begin

definition leased_lock :: "'w sqliteObjsFile \<times> 'w env \<Rightarrow> bool" where
  "leased_lock s \<longleftrightarrow> ops (fst s) = Some store \<and> eFileType (fst s) = MAIN_DB \<and>
     (SQLITE_LOCK_RESERVED \<le> eLock (fst s) \<longrightarrow> hasLease (fst s))"

lemma leased_lock_acts: "leased_lock (p, e) \<Longrightarrow> acts p e p' e' \<Longrightarrow> leased_lock (p', e')"
  by (simp add: leased_lock_def acts_def same_id_def hasLease_def)

lemma leased_lock_lock:
  assumes "sqliteObjsLock p lvl e = (rc, p', e')" and "leased_lock (p, e)"
  shows "leased_lock (p', e')"
  using assms(1)
proof (cases rule: lock_cases)
  case held
  then show ?thesis using assms(2) by (simp add: leased_lock_def)
next
  case (shared q)
  have "acts p e (p\<lparr>readsSinceSharedLock := 0\<rparr>) e" by (simp add: acts_refl)
  from acts_trans [OF this before_read_acts [OF shared(3)]]
  have q: "leased_lock (q, e')" using assms(2) leased_lock_acts by blast
  then show ?thesis using shared by (simp add: leased_lock_def)
next
  case upgrade
  then show ?thesis using assms(2) offered by (auto simp: leased_lock_def hasLease_def)
next
  case (refused f dur arc lid err)
  then show ?thesis using assms(2) by (auto simp: leased_lock_def hasLease_def split: option.splits)
next
  case (leased f dur lid err e1 t e2 q rv q' e3)
  obtain l where l: "lid = Some l" "l \<noteq> []"
    using granted [of f "blob p" dur "remote e"] call_azure_remote [OF leased(5)] leased(4) assms(2)
    by (auto simp: leased_lock_def)
  have q: "leased_lock (q, e2)" "hasLease q" "eLock q = eLock p" using assms(2) l leased(7) by (simp_all add: leased_lock_def hasLease_def)
  note q' = after_lease_acts [OF leased(8)]
  have "leased_lock (q', e3)" "hasLease q'" "eLock q' = eLock p"
    using leased_lock_acts [OF q(1) q'] q' q by (simp_all add: acts_def same_id_def hasLease_def)
  moreover have "\<not> SQLITE_LOCK_RESERVED \<le> eLock p" using assms(2) leased(3) by (auto simp: leased_lock_def)
  ultimately show ?thesis using leased(9) by (auto simp: leased_lock_def drop_lease_def hasLease_def split: if_splits)
qed

lemma leased_lock_step:
  assumes "file_step s t" and "leased_lock s"
  shows "leased_lock t"
proof -
  obtain p e p' e' where st: "s = (p, e)" "t = (p', e')" by (metis surj_pair)
  have "eFileType p = MAIN_DB" using assms(2) st by (simp add: leased_lock_def)
  from assms(1) [unfolded st] this show ?thesis
  proof (cases rule: file_step_cases)
    case acts
    then show ?thesis using assms(2) leased_lock_acts st by blast
  next
    case (lock lvl rc)
    then show ?thesis using assms(2) leased_lock_lock st by blast
  next
    case (unlock lvl rc)
    then show ?thesis using assms(2) st by (cases rule: unlock_cases) (auto simp: leased_lock_def drop_lease_def hasLease_def)
  qed
qed

lemma leased_lock_reachable:
  assumes "file_step\<^sup>*\<^sup>* s t" and "leased_lock s"
  shows "leased_lock t"
  using assms by (induction rule: rtranclp_induct) (simp_all add: leased_lock_step)

end

section \<open>What other clients cannot change\<close>

text \<open>\<open>keep\<close> is a property of the remote side that every call made without one of the leases outside \<open>mine\<close> keeps, and
  no such lease is ever granted while it holds.\<close>

locale world_keeper =
  fixes store :: "'w azure_ops" and name :: string and keep :: "'w \<Rightarrow> bool" and mine :: "string \<Rightarrow> bool"
  assumes keeps: "call_step (Some store) name lid w w' \<Longrightarrow> keep w \<Longrightarrow> mine lid \<Longrightarrow> keep w'"
    and grants: "lease_acquire store = Some f \<Longrightarrow> keep w \<Longrightarrow> f name n w = (rc, Some l, err, w') \<Longrightarrow> mine l"
    and no_lease: "mine []"
begin

definition client :: "'w sqliteObjsFile \<times> 'w env \<Rightarrow> bool" where
  "client s \<longleftrightarrow> ops (fst s) = Some store \<and> blob (fst s) = name \<and> eFileType (fst s) = MAIN_DB \<and> mine (leaseId (fst s)) \<and>
     keep (remote (snd s))"

lemma client_acts:
  assumes "acts p e p' e'" and "client (p, e)"
  shows "client (p', e')"
proof -
  have "(call_step (Some store) name (leaseId p))\<^sup>*\<^sup>* (remote e) (remote e')" and m: "mine (leaseId p)" "keep (remote e)"
    using assms by (simp_all add: acts_def calls_def client_def)
  then have "keep (remote e')" by (induction rule: rtranclp_induct) (auto dest: keeps)
  then show ?thesis using assms same_id_blob [of p p'] by (simp add: acts_def client_def)
qed

lemma client_more: "client (p, e) \<Longrightarrow> same_id p p' \<Longrightarrow> posix.more e' = posix.more e \<Longrightarrow> client (p', e')"
  using client_acts acts_more by blast

lemma client_lock:
  assumes "sqliteObjsLock p lvl e = (rc, p', e')" and "client (p, e)"
  shows "client (p', e')"
proof -
  have acq: "client ((case lid of None \<Rightarrow> p | Some l \<Rightarrow> p\<lparr>leaseId := l\<rparr>), e1)"
    if "\<not> hasLease p" "Option.bind (ops p) lease_acquire = Some f" "call_azure (f (blob p) dur) e = (arc, lid, err, e1)"
    for f dur arc lid err e1
  proof -
    have "client (p, e1)"
      using that(1) by (intro client_acts [OF acts_query [OF that(3) acquire_call [OF that(2)]] assms(2)]) (simp_all add: hasLease_def)
    moreover have "mine l" if "lid = Some l" for l
      using grants [of f] call_azure_remote [OF \<open>call_azure _ _ = _\<close>] assms(2) \<open>Option.bind _ _ = _\<close> that by (auto simp: client_def)
    ultimately show ?thesis by (auto simp: client_def blob_def split: option.splits)
  qed
  from assms(1) show ?thesis
  proof (cases rule: lock_cases)
    case held
    then show ?thesis using assms(2) by simp
  next
    case (shared q)
    have "client (p\<lparr>readsSinceSharedLock := 0\<rparr>, e)" using assms(2) by (rule client_more) simp_all
    then have "client (q, e')" by (rule client_acts [OF before_read_acts [OF shared(3)]])
    then show ?thesis using shared(4) by (simp add: client_def blob_def)
  next
    case upgrade
    then show ?thesis using assms(2) by (simp add: client_def blob_def)
  next
    case (refused f dur arc lid err)
    show ?thesis unfolding refused(8) by (rule client_more [OF acq [OF refused(3-5)]]) simp_all
  next
    case (leased f dur lid err e1 t e2 q rv q' e3)
    have "client (q, e2)"
      unfolding leased(7) by (rule client_more [OF acq [OF leased(3-5)]]) (simp_all add: sys_time_remote [OF leased(6)])
    then have q': "client (q', e3)" by (rule client_acts [OF after_lease_acts [OF leased(8)]])
    have "client (q', release_call q' e3)"
      by (rule client_acts [OF release_call_acts q'])
    then show ?thesis using leased(9) q' no_lease by (auto simp: client_def blob_def drop_lease_def split: if_splits)
  qed
qed

lemma client_step:
  assumes "file_step s t" and "client s"
  shows "client t"
proof -
  obtain p e p' e' where st: "s = (p, e)" "t = (p', e')" by (metis surj_pair)
  have "eFileType p = MAIN_DB" using assms(2) st by (simp add: client_def)
  from assms(1) [unfolded st] this show ?thesis
  proof (cases rule: file_step_cases)
    case acts
    then show ?thesis using assms(2) client_acts st by blast
  next
    case (lock lvl rc)
    then show ?thesis using assms(2) client_lock st by blast
  next
    case (unlock lvl rc)
    have rel: "client (p, release_call p e)" using client_acts [OF release_call_acts] assms(2) st by blast
    from unlock show ?thesis
      using assms(2) st rel no_lease by (cases rule: unlock_cases) (auto simp: client_def blob_def drop_lease_def)
  qed
qed

lemma client_reachable:
  assumes "file_step\<^sup>*\<^sup>* s t" and "client s"
  shows "client t"
  using assms by (induction rule: rtranclp_induct) (simp_all add: client_step)

end

end
