(* ===== verification/Coherence.thy ===== *)
theory Coherence
  imports Lock_Protocol Mock_Azure
begin

text \<open>
  The lock protocol on the mock backend: a lease fences the blob against other clients, locks above SHARED are backed by a
  lease, and a lock is granted on a fresh cache only. The one case where it is not, a download that failed before, is
  at the end.
\<close>

section \<open>Fencing\<close>

text \<open>The unexpired lease of the page blob \<open>name\<close> is \<open>lid\<close> and its contents are \<open>c\<close>.\<close>

definition fenced :: "string \<Rightarrow> string \<Rightarrow> bytes \<Rightarrow> mock \<Rightarrow> bool" where
  "fenced lid name c w \<longleftrightarrow> lid \<noteq> [] \<and> mock_content w name = Some c \<and>
     (case find_blob w name of
        None \<Rightarrow> False
      | Some i \<Rightarrow> mb_lease_state (blob_at w i) = LEASE_LEASED \<and> mb_lease_id (blob_at w i) = lid \<and>
          \<not> mock_lease_expired w (blob_at w i))"

lemma fencedD:
  assumes "fenced lid name c w"
  obtains i where "lid \<noteq> []" "find_blob w name = Some i" "mb_type (blob_at w i) = BLOB_TYPE_PAGE"
    "mb_lease_state (blob_at w i) = LEASE_LEASED" "mb_lease_id (blob_at w i) = lid"
    "\<not> mock_lease_expired w (blob_at w i)" "mock_content w name = Some c"
  using assms by (auto simp: fenced_def mock_content_def split: option.splits if_splits)

lemma fenced_blobs:
  assumes "mk_blobs w' = mk_blobs w" and "mock_time_now w' = mock_time_now w"
  shows "fenced lid name c w' = fenced lid name c w"
proof -
  have "find_blob w' = find_blob w" "blob_at w' = blob_at w" "mock_lease_expired w' = mock_lease_expired w"
    using assms by (auto simp: fun_eq_iff find_blob_def blob_at_def mock_lease_expired_def)
  then show ?thesis unfolding fenced_def mock_content_def by (simp only:)
qed

lemma fenced_pre: "pre_call oper w = (rc, err, w') \<Longrightarrow> fenced lid name c w' = fenced lid name c w"
  using pre_call_frame(1,2) fenced_blobs by blast

lemma fenced_put: "fenced lid name c w \<Longrightarrow> fenced lid name c (put_blob i (blob_at w i) w)"
  by (subst fenced_blobs) (simp_all add: put_blob_def blob_at_def mock_time_now_def)

lemma fenced_validate:
  assumes "fenced lid name c w" and "find_blob w name = Some i" and "l \<noteq> Some lid"
  shows "\<exists>err. validate_lease_id w (blob_at w i) l = (AZURE_ERR_CONFLICT, err, blob_at w i)"
proof -
  have "mb_lease_state (blob_at w i) = LEASE_LEASED" "mb_lease_id (blob_at w i) = lid" "\<not> mock_lease_expired w (blob_at w i)"
    using assms(1,2) by (simp_all add: fenced_def)
  then show ?thesis using assms(3) by (cases l) (simp_all add: validate_lease_id_def no_id_def)
qed

text \<open>What the operations do to a fenced blob without its lease: nothing.\<close>

lemma fenced_write:
  assumes "mock_page_blob_write name off d l im w = (rc, err, w')" and "fenced lid name c w" and "l \<noteq> Some lid"
  shows "fenced lid name c w' \<and> rc \<noteq> AZURE_OK"
proof -
  obtain rc1 e1 w1 where 1: "pre_call OP_PAGE_BLOB_WRITE w = (rc1, e1, w1)" by (rule prod_cases3)
  have f: "fenced lid name c w1" using fenced_pre [OF 1] assms(2) by simp
  then obtain i where i: "find_blob w1 name = Some i" "mb_type (blob_at w1 i) = BLOB_TYPE_PAGE" by (rule fencedD)
  obtain e2 where "validate_lease_id w1 (blob_at w1 i) l = (AZURE_ERR_CONFLICT, e2, blob_at w1 i)"
    using fenced_validate [OF f i(1) assms(3)] by blast
  then show ?thesis
    using assms(1) 1 i f fenced_put [OF f] by (auto simp: mock_page_blob_write_def Let_def split: if_splits)
qed

lemma fenced_resize:
  assumes "mock_page_blob_resize name n l w = (rc, err, w')" and "fenced lid name c w" and "l \<noteq> Some lid"
  shows "fenced lid name c w' \<and> rc \<noteq> AZURE_OK"
proof -
  obtain rc1 e1 w1 where 1: "pre_call OP_PAGE_BLOB_RESIZE w = (rc1, e1, w1)" by (rule prod_cases3)
  have f: "fenced lid name c w1" using fenced_pre [OF 1] assms(2) by simp
  then obtain i where i: "find_blob w1 name = Some i" "mb_type (blob_at w1 i) = BLOB_TYPE_PAGE" by (rule fencedD)
  obtain e2 where "validate_lease_id w1 (blob_at w1 i) l = (AZURE_ERR_CONFLICT, e2, blob_at w1 i)"
    using fenced_validate [OF f i(1) assms(3)] by blast
  then show ?thesis
    using assms(1) 1 i f fenced_put [OF f] by (auto simp: mock_page_blob_resize_def Let_def split: if_splits)
qed

lemma fenced_lease_op:
  assumes "mock_lease_op oper g name l w = (rc, err, w')" and "fenced lid name c w" and "l \<noteq> lid"
  shows "fenced lid name c w' \<and> rc \<noteq> AZURE_OK"
proof -
  obtain rc1 e1 w1 where 1: "pre_call oper w = (rc1, e1, w1)" by (rule prod_cases3)
  have f: "fenced lid name c w1" using fenced_pre [OF 1] assms(2) by simp
  then obtain i where "find_blob w1 name = Some i" "mb_lease_state (blob_at w1 i) = LEASE_LEASED" "mb_lease_id (blob_at w1 i) = lid"
    "\<not> mock_lease_expired w1 (blob_at w1 i)" by (rule fencedD)
  then show ?thesis using assms(1,3) 1 f by (auto simp: mock_lease_op_def Let_def split: if_splits)
qed

lemma fenced_acquire:
  assumes "mock_lease_acquire name n w = (rc, out, err, w')" and "fenced lid name c w"
  shows "fenced lid name c w' \<and> out = None"
proof -
  obtain rc1 e1 w1 where 1: "pre_call OP_LEASE_ACQUIRE w = (rc1, e1, w1)" by (rule prod_cases3)
  have f: "fenced lid name c w1" using fenced_pre [OF 1] assms(2) by simp
  then obtain i where "find_blob w1 name = Some i" "mb_lease_state (blob_at w1 i) = LEASE_LEASED" "mb_lease_id (blob_at w1 i) = lid"
    "\<not> mock_lease_expired w1 (blob_at w1 i)" by (rule fencedD)
  then show ?thesis using assms(1) 1 f fenced_put [OF f] by (auto simp: mock_lease_acquire_def Let_def split: if_splits)
qed

lemma fenced_read:
  assumes "mock_page_blob_read name off n w = (rc, buf, err, w')" and "fenced lid name c w"
  shows "fenced lid name c w'"
proof -
  obtain rc1 e1 w1 where 1: "pre_call OP_PAGE_BLOB_READ w = (rc1, e1, w1)" by (rule prod_cases3)
  then have "w' = w1" using assms(1) by (auto simp: mock_page_blob_read_def Let_def split: if_splits option.splits)
  then show ?thesis using fenced_pre [OF 1] assms(2) by simp
qed

lemma fenced_props:
  assumes "mock_blob_get_properties name w = (rc, out, err, w')" and "fenced lid name c w"
  shows "fenced lid name c w'"
proof -
  obtain rc1 e1 w1 where 1: "pre_call OP_BLOB_GET_PROPERTIES w = (rc1, e1, w1)" by (rule prod_cases3)
  have f: "fenced lid name c w1" using fenced_pre [OF 1] assms(2) by simp
  then obtain i where i: "lid \<noteq> []" "find_blob w1 name = Some i" "mb_type (blob_at w1 i) = BLOB_TYPE_PAGE"
    "mb_lease_state (blob_at w1 i) = LEASE_LEASED" "mb_lease_id (blob_at w1 i) = lid"
    "\<not> mock_lease_expired w1 (blob_at w1 i)" "mock_content w1 name = Some c" by (rule fencedD)
  obtain e2 b where 2: "set_etag e1 (blob_at w1 i) = (e2, b)" by (rule prod.exhaust)
  note b = set_etag_fields [OF 2]
  show ?thesis
  proof (cases "rc1 = AZURE_OK")
    case True
    then have w': "w' = put_blob i b w1"
      using assms(1) 1 i 2 by (simp add: mock_blob_get_properties_def Let_def)
    have il: "i < length (mk_blobs w1)" using i(2) by (rule find_blob_index)
    have "find_blob w' name = Some i" "blob_at w' i = b"
      using find_put_blob [OF i(2)] blob_at_put [OF il] b i(2) w' by simp_all
    then show ?thesis using i b w' by (auto simp: fenced_def mock_content_def mock_lease_expired_def)
  next
    case False
    then show ?thesis using assms(1) 1 f by (simp add: mock_blob_get_properties_def)
  qed
qed

text \<open>While a lease is in force, no call made with another lease or with none changes the blob or the lease.\<close>

interpretation mock_fence: world_keeper mock_ops name "fenced lid name c" "\<lambda>l. l = [] \<or> l \<noteq> lid" for name lid c
proof
  fix l w w'
  assume st: "call_step (Some mock_ops) name l w w'" and f: "fenced lid name c w" and m: "l = [] \<or> l \<noteq> lid"
  have lid: "lid \<noteq> []" using f by (simp add: fenced_def)
  have arg: "(if l = [] then None else Some l) \<noteq> Some lid" "l \<noteq> lid" using m lid by auto
  from st show "fenced lid name c w'"
  proof cases
    case (read_call f off n rc buf err)
    then show ?thesis using fenced_read [OF _ \<open>fenced lid name c w\<close>] by (simp add: mock_ops_def)
  next
    case (write_call f off d im rc err)
    then show ?thesis using fenced_write [OF _ \<open>fenced lid name c w\<close> arg(1)] by (simp add: mock_ops_def)
  next
    case (resize_call f n rc err)
    then show ?thesis using fenced_resize [OF _ \<open>fenced lid name c w\<close> arg(1)] by (simp add: mock_ops_def)
  next
    case (props_call f rc out err)
    then show ?thesis using fenced_props [OF _ \<open>fenced lid name c w\<close>] by (simp add: mock_ops_def)
  next
    case (renew_call f rc err)
    then have "mock_lease_renew name l w = (rc, err, w')" by (simp add: mock_ops_def)
    then show ?thesis using fenced_lease_op [OF _ \<open>fenced lid name c w\<close> arg(2)] unfolding mock_lease_renew_def by blast
  next
    case (release_call f rc err)
    then have "mock_lease_release name l w = (rc, err, w')" by (simp add: mock_ops_def)
    then show ?thesis using fenced_lease_op [OF _ \<open>fenced lid name c w\<close> arg(2)] unfolding mock_lease_release_def by blast
  next
    case (acquire_call f n rc out err)
    then show ?thesis using fenced_acquire [OF _ \<open>fenced lid name c w\<close>] by (simp add: mock_ops_def)
  qed (simp_all add: mock_ops_def)
next
  fix f w n rc l err w'
  assume "lease_acquire mock_ops = Some f" "fenced lid name c w" "f name n w = (rc, Some l, err, w')"
  then show "l = [] \<or> l \<noteq> lid" using fenced_acquire by (fastforce simp: mock_ops_def)
qed simp

lemma lease_id_nonempty: "generate_lease_id w = (l, w') \<Longrightarrow> take 36 l \<noteq> []"
  by (auto simp: generate_lease_id_def)

interpretation mock_leases: lease_provider mock_ops
proof
  show "lease_acquire mock_ops \<noteq> None" by (simp add: mock_ops_def)
next
  fix f name n w lid err w'
  assume "lease_acquire mock_ops = Some f" "f name n w = (AZURE_OK, lid, err, w')"
  then have "mock_lease_acquire name n w = (AZURE_OK, lid, err, w')" by (simp add: mock_ops_def)
  then show "\<exists>l. lid = Some l \<and> l \<noteq> []"
    using lease_id_nonempty
    by (auto simp: mock_lease_acquire_def Let_def split: if_splits option.splits prod.splits)
qed

text \<open>C3 A lease fences the database blob. While client A's lease is in force, another client of the same blob may call
  its methods in any order, with any arguments, under any pattern of local and remote failures: as long as it does not present A's
  lease id, the contents of the blob stay what they are and A's lease stays in force.\<close>

theorem lease_fences_other_clients:
  assumes "file_step\<^sup>*\<^sup>* (p, e) (p', e')" and "ops p = Some mock_ops" and "eFileType p = MAIN_DB"
    and "leaseId p \<noteq> lid" and "fenced lid (blob p) c (remote e)"
  shows "fenced lid (blob p) c (remote e') \<and> mock_content (remote e') (blob p) = Some c \<and> leaseId p' \<noteq> lid"
proof -
  have "mock_fence.client (blob p) lid c (p, e)" using assms(2-5) by (simp add: mock_fence.client_def)
  from mock_fence.client_reachable [OF assms(1) this]
  show ?thesis by (auto simp: mock_fence.client_def fenced_def)
qed


section \<open>Fresh caches\<close>

lemma refresh_ok_steps:
  assumes "refreshMainDbCache p n et e = (SQLITE_OK, p', e')" and "eFileType p = MAIN_DB" and "cacheFd p = Some fd" and "0 < n"
  obtains q buf e1 az buf' e2 e3 e4 p5 e5 e6 where
    "q = bump revalidation_downloads_update 1 (if et \<noteq> [] then p\<lparr>etag := et\<rparr> else p)"
    "sys_malloc n e = (Some buf, e1)" "ops p = Some az" "refresh_download az q n buf e1 = Some (AZURE_OK, buf', e2)"
    "sys_lseek_start fd e2 = (0, e3)" "sys_ftruncate fd 0 e3 = (0, e4)"
    "refresh_write_loop fd buf' n 0 (bump blob_bytes_read_update n (bump blob_reads_update 1 q)) e4 = (SQLITE_OK, p5, e5)"
    "sys_fsync fd e5 = (0, e6)" "refresh_finish n p5 e6 = (p', e')"
proof -
  define q where "q = bump revalidation_downloads_update 1 (if et \<noteq> [] then p\<lparr>etag := et\<rparr> else p)"
  define q3 where "q3 = bump blob_bytes_read_update n (bump blob_reads_update 1 q)"
  obtain mb e1 where m: "sys_malloc n e = (mb, e1)" by (rule prod.exhaust)
  have qo: "ops q = ops p" by (simp add: q_def)
  obtain buf az arc buf' e2 where d: "mb = Some buf" "ops p = Some az" "refresh_download az q n buf e1 = Some (arc, buf', e2)"
    using assms m qo unfolding refreshMainDbCache_def Let_def q_def [symmetric] by (auto split: option.splits if_splits)
  obtain r3 e3 where s: "sys_lseek_start fd e2 = (r3, e3)" by (rule prod.exhaust)
  obtain r4 e4 where t: "sys_ftruncate fd 0 e3 = (r4, e4)" by (rule prod.exhaust)
  obtain rc5 p5 e5 where l: "refresh_write_loop fd buf' n 0 q3 e4 = (rc5, p5, e5)" by (rule prod_cases3)
  obtain r6 e6 where y: "sys_fsync fd e5 = (r6, e6)" by (rule prod.exhaust)
  have "azureErrToSqlite arc (Some SQLITE_IOERR_READ) \<noteq> SQLITE_OK" if "arc \<noteq> AZURE_OK"
    using that by (auto simp: azureErrToSqlite_def split: azure_err.splits)
  then have "arc = AZURE_OK \<and> r3 = 0 \<and> r4 = 0 \<and> rc5 = SQLITE_OK \<and> r6 = 0 \<and> refresh_finish n p5 e6 = (p', e')"
    using assms m d s t l y qo
    unfolding refreshMainDbCache_def Let_def q_def [symmetric] q3_def [symmetric]
    by (auto split: if_splits prod.splits)
  then show ?thesis using that [OF q_def] m d s t l y by (auto simp: q3_def)
qed

text \<open>The loop writes the whole buffer behind what is already there, whatever the sizes of the partial writes.\<close>

lemma next_io_more: "next_io e = (r, e') \<Longrightarrow> file_of e' = file_of e"
  by (auto simp: next_io_def file_of_def fun_eq_iff split: list.splits)

lemma pwrite_prefix:
  assumes "sys_pwrite fd d off e = (k, e')" and "0 < k" and "0 \<le> off"
  shows "nat k \<le> length d \<and> file_of e' fd = put (file_of e fd) (nat off) (take (nat k) d)"
proof -
  obtain r e1 where r: "next_io e = (r, e1)" by (rule prod.exhaust)
  then show ?thesis using assms next_io_more [OF r] by (auto simp: sys_pwrite_def min_def split: io_res.splits)
qed

lemma put_append: "length c = k \<Longrightarrow> put c k d = c @ d"
  by (simp add: put_def zpad_id)

lemma refresh_loop_file:
  assumes "refresh_write_loop fd buf n k p e = (SQLITE_OK, p', e')" and "0 \<le> k" and "nat n \<le> length buf"
    and "file_of e fd = take (nat k) buf" and "k \<le> n"
  shows "file_of e' fd = take (nat n) buf \<and> cacheFd p' = cacheFd p \<and> etag p' = etag p \<and> dirty p' = dirty p"
  using assms
proof (induction fd buf n k p e rule: refresh_write_loop.induct)
  case (1 fd buf n k p e)
  obtain nw e1 where w: "sys_pwrite fd (bslice buf (nat k) (nat (n - k))) k e = (nw, e1)" by (rule prod.exhaust)
  show ?case
  proof (cases "k < n")
    case True
    have nw: "0 < nw" using "1.prems"(1) True w by (auto simp: refresh_write_loop.simps [of fd buf n k] split: if_splits)
    define q where "q = bump disk_bytes_written_update nw (bump disk_writes_update 1 p)"
    have rest: "refresh_write_loop fd buf n (k + nw) q e1 = (SQLITE_OK, p', e')"
      using "1.prems"(1) True w nw by (simp add: refresh_write_loop.simps [of fd buf n k] q_def)
    have len: "length (take (nat k) buf) = nat k" using "1.prems"(2,3,5) by simp
    have le: "nw \<le> n - k" and f: "file_of e1 fd = take (nat k) buf @ take (nat nw) (bslice buf (nat k) (nat (n - k)))"
      using pwrite_prefix [OF w nw "1.prems"(2)] "1.prems"(2-5) put_append [OF len] by (auto simp: bslice_def)
    have "file_of e1 fd = take (nat (k + nw)) buf"
      using f le nw "1.prems"(2) by (simp add: bslice_def take_add nat_add_distrib min_absorb1 min_absorb2)
    from "1.IH" [OF _ w [symmetric] _ rest [unfolded q_def] _ "1.prems"(3) this] True nw "1.prems"(2) le
    show ?thesis by simp
  next
    case False
    then have "k = n" using "1.prems"(5) by simp
    then show ?thesis using "1.prems" by (simp add: refresh_write_loop.simps [of fd buf n n])
  qed
qed

lemma ensureCapacity_file:
  "bitmapEnsureCapacity bm n ps e = (rc, bm', e') \<Longrightarrow> file_of e' = file_of e \<and> (bm_shape bm \<longrightarrow> bm_shape bm')"
  by (auto simp: bitmapEnsureCapacity_def file_of_def fun_eq_iff bm_shape_def Let_def
      split: if_splits option.splits prod.splits dest: malloc_frame)

lemma bitmapsEnsure_file:
  "bitmapsEnsureCapacity p e = (rc, p', e') \<Longrightarrow>
     file_of e' = file_of e \<and> cacheFd p' = cacheFd p \<and> etag p' = etag p \<and> nData p' = nData p \<and>
     (bm_shape (dirty p) \<longrightarrow> bm_shape (dirty p'))"
  by (auto simp: bitmapsEnsureCapacity_def Let_def split: if_splits prod.splits dest!: ensureCapacity_file)

lemma refresh_finish_file:
  assumes "refresh_finish n p e = (p', e')"
  shows "file_of e' = file_of e \<and> cacheFd p' = cacheFd p \<and> etag p' = etag p \<and> nData p' = n \<and> lastSyncedSize p' = n \<and>
    (bm_shape (dirty p) \<longrightarrow> pages (dirty p') = {})"
proof -
  define p0 where "p0 = p\<lparr>nData := n, nDownloads := nDownloads p + 1, snapshot := []\<rparr>"
  obtain nr h e1 where 1: "pread_fd (cacheFd p0) 100 0 e = (nr, h, e1)" by (rule prod_cases3)
  define p1 where "p1 = (if nr = 100 then let detected = detectPageSize h 100
    in if detected > 0 then p0\<lparr>pageSize := detected\<rparr> else p0 else p0)"
  obtain rc2 p2 e2 where 2: "bitmapsEnsureCapacity p1 e1 = (rc2, p2, e2)" by (rule prod_cases3)
  have "file_of e1 = file_of e"
    using 1 by (auto simp: pread_fd_def file_of_def fun_eq_iff split: option.splits dest!: pread_frame)
  moreover have "cacheFd p1 = cacheFd p" "etag p1 = etag p" "nData p1 = n" "dirty p1 = dirty p" by (simp_all add: p1_def p0_def Let_def)
  ultimately show ?thesis
    using assms bitmapsEnsure_file [OF 2] 1 2
    unfolding refresh_finish_def Let_def [of "p\<lparr>nData := n, nDownloads := nDownloads p + 1, snapshot := []\<rparr>"] p0_def [symmetric]
    by (auto simp: p1_def [symmetric] validMarkAll_def pages_clearAll Let_def split: if_splits prod.splits dest!: ensureCapacity_file)
qed

text \<open>The ETag of a blob, and that the next response will carry it.\<close>

definition mock_etag :: "mock \<Rightarrow> string \<Rightarrow> string" where
  "mock_etag w name = (case find_blob w name of None \<Rightarrow> [] | Some i \<Rightarrow> mb_etag (blob_at w i))"

definition tells_etag :: "mock \<Rightarrow> string \<Rightarrow> bool" where
  "tells_etag w name \<longleftrightarrow>
     (case find_blob w name of None \<Rightarrow> False | Some i \<Rightarrow> mb_etag (blob_at w i) \<noteq> [] \<and> \<not> mb_omit_next_etag (blob_at w i))"

text \<open>\<open>same_blob w w' name\<close>: the page blob has the same contents and the same ETag.\<close>

definition same_blob :: "string \<Rightarrow> mock \<Rightarrow> mock \<Rightarrow> bool" where
  "same_blob name w w' \<longleftrightarrow> mock_content w' name = mock_content w name \<and> mock_etag w' name = mock_etag w name \<and>
     tells_etag w' name = tells_etag w name \<and> (mock_ok w \<longrightarrow> mock_ok w')"

lemma same_blob_trans: "same_blob name w1 w2 \<Longrightarrow> same_blob name w2 w3 \<Longrightarrow> same_blob name w1 w3"
  by (simp add: same_blob_def)

lemma same_blob_blobs: "mk_blobs w' = mk_blobs w \<Longrightarrow> same_blob name w w'"
  unfolding same_blob_def mock_content_def mock_etag_def tells_etag_def find_blob_def blob_at_def mock_ok_def by (simp only:) simp

text \<open>A blob replaced by one that differs at most in its lease.\<close>

lemma same_blob_put:
  assumes "find_blob w name = Some i" and "mb_name b = mb_name (blob_at w i)" and "mb_type b = mb_type (blob_at w i)"
    and "mb_data b = mb_data (blob_at w i)" and "mb_size b = mb_size (blob_at w i)" and "mb_etag b = mb_etag (blob_at w i)"
    and "mb_omit_next_etag b = mb_omit_next_etag (blob_at w i)" and "mk_blobs w' = mk_blobs (put_blob i b w)"
  shows "same_blob name w w'"
proof -
  have il: "i < length (mk_blobs w)" using assms(1) by (rule find_blob_index)
  have "find_blob (put_blob i b w) name = Some i" "blob_at (put_blob i b w) i = b"
    using find_put_blob [OF assms(1,2)] blob_at_put [OF il] assms(1) by simp_all
  moreover have "blob_sound b = blob_sound (blob_at w i)" using assms(3-5) by (simp add: blob_sound_def)
  ultimately have "same_blob name w (put_blob i b w)"
    using assms mock_ok_at [OF _ assms(1)] mock_ok_put by (simp add: same_blob_def mock_content_def mock_etag_def tells_etag_def)
  then show ?thesis using same_blob_blobs [OF assms(8)] same_blob_trans by blast
qed

lemma read_whole:
  assumes "mock_page_blob_read name 0 n w = (AZURE_OK, buf, err, w')" and "mock_content w name = Some c"
    and "n = int (length c)" and "mock_ok w"
  shows "buf = c \<and> same_blob name w w'"
proof -
  obtain rc1 e1 w1 where 1: "pre_call OP_PAGE_BLOB_READ w = (rc1, e1, w1)" by (rule prod_cases3)
  note fr = pre_call_frame [OF 1]
  obtain i where i: "find_blob w name = Some i" "mb_type (blob_at w i) = BLOB_TYPE_PAGE"
    "c = take (nat (mb_size (blob_at w i))) (mb_data (blob_at w i))"
    using assms(2) by (auto simp: mock_content_def split: option.splits if_splits)
  have "blob_sound (blob_at w i)" by (rule mock_ok_at [OF assms(4) i(1)])
  then have sz: "mb_size (blob_at w i) = n" using i assms(3) by (auto simp: blob_sound_def)
  have "w' = w1" "buf = c"
    using assms(1) 1 fr(3,4) i sz by (auto simp: mock_page_blob_read_def bslice_def Let_def split: if_splits)
  then show ?thesis using same_blob_blobs fr(1) by simp
qed

lemma props_ok:
  assumes "mock_blob_get_properties name w = (AZURE_OK, (sz, st, status), err, w')" and "mock_content w name = Some c"
    and "mock_ok w" and "tells_etag w name"
  shows "sz = int (length c) \<and> err_etag err = mock_etag w name \<and> err_etag err \<noteq> [] \<and> same_blob name w w'"
proof -
  obtain rc1 e1 w1 where 1: "pre_call OP_BLOB_GET_PROPERTIES w = (rc1, e1, w1)" by (rule prod_cases3)
  note fr = pre_call_frame [OF 1]
  have ok: "rc1 = AZURE_OK" using assms(1) 1 by (auto simp: mock_blob_get_properties_def split: if_splits)
  obtain i where i: "find_blob w1 name = Some i" "c = take (nat (mb_size (blob_at w i))) (mb_data (blob_at w i))"
      "mb_type (blob_at w i) = BLOB_TYPE_PAGE"
    using assms(2) fr(3) by (auto simp: mock_content_def split: option.splits if_splits)
  define b where "b = (if mock_lease_expired w1 (blob_at w1 i) then mock_clear_lease (blob_at w1 i) else blob_at w1 i)"
  have b: "mb_etag b = mb_etag (blob_at w1 i)" "mb_omit_next_etag b = mb_omit_next_etag (blob_at w1 i)"
    "mb_size b = mb_size (blob_at w1 i)" "mb_data b = mb_data (blob_at w1 i)" "mb_name b = mb_name (blob_at w1 i)"
    "mb_type b = mb_type (blob_at w1 i)"
    by (simp_all add: b_def mock_clear_lease_def)
  have t: "mb_etag b \<noteq> []" "\<not> mb_omit_next_etag b" using assms(4) i(1) b fr(3,4) by (auto simp: tells_etag_def)
  then have e: "set_etag e1 b = (e1\<lparr>err_etag := mb_etag b\<rparr>, b)" by (simp add: set_etag_def)
  have run: "sz = mb_size b" "err = e1\<lparr>err_etag := mb_etag b\<rparr>" "w' = put_blob i b w1"
    using assms(1) 1 ok i(1) e by (auto simp: mock_blob_get_properties_def b_def [symmetric] Let_def)
  have "same_blob name w1 w'" using run b by (intro same_blob_put [OF i(1), of b]) simp_all
  moreover have "same_blob name w w1" using fr(1) by (rule same_blob_blobs)
  moreover have "mb_size b = int (length c)"
    using mock_ok_at [OF assms(3)] i b fr(3,4) by (auto simp: blob_sound_def)
  ultimately show ?thesis using run b t i(1) fr(3,4) same_blob_trans by (auto simp: mock_etag_def)
qed

lemma acquire_same:
  assumes "mock_lease_acquire name n w = (AZURE_OK, lid, err, w')"
  shows "same_blob name w w' \<and> err_etag err = []"
proof -
  obtain rc1 e1 w1 where 1: "pre_call OP_LEASE_ACQUIRE w = (rc1, e1, w1)" by (rule prod_cases3)
  note fr = pre_call_frame [OF 1]
  have e1: "rc1 = AZURE_OK \<Longrightarrow> err_etag e1 = []"
  proof -
    have "fail_check a b oper rs = (AZURE_OK, err, rs') \<Longrightarrow> err_etag err = []" for a b oper rs err rs'
      by (induction a b oper rs arbitrary: err rs' rule: fail_check.induct)
         (auto simp: azure_error_init_def set_error_def split: if_splits prod.splits)
    then show "rc1 = AZURE_OK \<Longrightarrow> err_etag e1 = []" using 1 by (auto simp: pre_call_def Let_def split: prod.splits)
  qed
  have ok: "rc1 = AZURE_OK" using assms 1 by (auto simp: mock_lease_acquire_def split: if_splits)
  then obtain i where i: "find_blob w1 name = Some i"
    using assms 1 by (auto simp: mock_lease_acquire_def split: option.splits)
  obtain l w2 where g: "generate_lease_id w1 = (l, w2)" by (rule prod.exhaust)
  then have g2: "mk_blobs w2 = mk_blobs w1" by (auto simp: generate_lease_id_def)
  define b where "b = (if mock_lease_expired w1 (blob_at w1 i) then mock_clear_lease (blob_at w1 i) else blob_at w1 i)
     \<lparr>mb_lease_state := LEASE_LEASED, mb_lease_duration := n, mb_lease_acquired_at := mock_time_now w1, mb_lease_id := take 36 l\<rparr>"
  have run: "w' = put_blob i b w2" "err = e1"
    using assms 1 ok i g by (auto simp: mock_lease_acquire_def b_def Let_def split: if_splits)
  have "same_blob name w1 w'"
    using run(1) g2 by (intro same_blob_put [OF i, of b]) (auto simp: b_def mock_clear_lease_def put_blob_def)
  then show ?thesis using same_blob_blobs [OF fr(1)] same_blob_trans run(2) e1 ok by blast
qed

text \<open>The state in which a cache file may be used: it holds what the blob of the same ETag holds.\<close>

definition coherent :: "'w sqliteObjsFile \<Rightarrow> 'w env \<Rightarrow> string \<Rightarrow> bytes \<Rightarrow> bool" where
  "coherent p e et c \<longleftrightarrow> (etag p = et \<longrightarrow> db_file p e = c \<and> nData p = int (length c))"

definition fresh :: "mock sqliteObjsFile \<Rightarrow> mock env \<Rightarrow> bytes \<Rightarrow> bool" where
  "fresh p e c \<longleftrightarrow> db_file p e = c \<and> nData p = int (length c) \<and> etag p = mock_etag (remote e) (blob p) \<and>
     mock_content (remote e) (blob p) = Some c"

lemma fresh_upd [simp]: "fresh (p\<lparr>eLock := l\<rparr>) e c = fresh p e c"
  by (simp add: fresh_def db_file_def blob_def)

lemma db_file_fs: "fs e' = fs e \<Longrightarrow> db_file p e' = db_file p e"
  by (simp add: db_file_def file_of_def split: option.splits)

lemma refresh_mock:
  assumes "refreshMainDbCache p n et e = (SQLITE_OK, p', e')" and "eFileType p = MAIN_DB" and "cacheFd p = Some fd"
    and "ops p = Some mock_ops" and "mock_content (remote e) (blob p) = Some c" and "n = int (length c)" and "mock_ok (remote e)"
    and "et \<noteq> []"
  shows "db_file p' e' = c \<and> nData p' = n \<and> etag p' = et \<and> blob p' = blob p \<and> same_blob (blob p) (remote e) (remote e')"
proof -
  have bl: "blob p' = blob p" using refresh_acts [OF assms(1)] same_id_blob by (auto simp: acts_def)
  show ?thesis
  proof (cases "0 < n")
    case False
    then have c: "c = []" "n = 0" using assms(6) by simp_all
    obtain r e1 where t: "sys_ftruncate fd 0 e = (r, e1)" by (rule prod.exhaust)
    have "r = 0" "p' = (p\<lparr>etag := et, nData := 0, snapshot := [], dirty := bitmapClearAll (dirty p),
                        valid := bitmapClearAll (valid p), lastSyncedSize := 0\<rparr>)" "e' = e1"
      using assms(1,2,3,8) c t by (auto simp: refreshMainDbCache_def Let_def split: if_splits)
    moreover have "r = 0 \<Longrightarrow> file_of e1 fd = []" using t by (auto simp: sys_ftruncate_def split: prod.splits if_splits)
    moreover have "remote e1 = remote e" using ftruncate_frame [OF t] more_env by blast
    ultimately show ?thesis using c assms(3) by (auto simp: db_file_def same_blob_def blob_def)
  next
    case True
    obtain q buf e1 az buf' e2 e3 e4 p5 e5 e6 where st:
      "q = bump revalidation_downloads_update 1 (if et \<noteq> [] then p\<lparr>etag := et\<rparr> else p)"
      "sys_malloc n e = (Some buf, e1)" "ops p = Some az" "refresh_download az q n buf e1 = Some (AZURE_OK, buf', e2)"
      "sys_lseek_start fd e2 = (0, e3)" "sys_ftruncate fd 0 e3 = (0, e4)"
      "refresh_write_loop fd buf' n 0 (bump blob_bytes_read_update n (bump blob_reads_update 1 q)) e4 = (SQLITE_OK, p5, e5)"
      "sys_fsync fd e5 = (0, e6)" "refresh_finish n p5 e6 = (p', e')"
      using assms(1-3) True by (rule refresh_ok_steps)
    have r1: "remote e1 = remote e" using malloc_frame [OF st(2)] more_env by blast
    have lb: "length buf = nat n" using st(2) by (auto simp: sys_malloc_def split: prod.splits if_splits)
    have bq: "blob q = blob p" by (simp add: st(1) blob_def)
    obtain err b where rd: "mock_page_blob_read (blob p) 0 n (remote e1) = (AZURE_OK, b, err, remote e2)" "buf' = put buf 0 (take (nat n) b)"
      using st(3,4) assms(4) bq
      by (auto simp: refresh_download_def mock_ops_def split: prod.splits if_splits dest!: call_azure_remote)
    have b: "b = c" "same_blob (blob p) (remote e1) (remote e2)"
      using read_whole [OF rd(1)] assms(5-7) r1 by simp_all
    have "buf' = c" using rd(2) b(1) assms(6) lb by (simp add: put_def zpad_def)
    moreover have "file_of e4 fd = []" using st(6) by (auto simp: sys_ftruncate_def split: prod.splits if_splits)
    ultimately have l: "file_of e5 fd = c" "cacheFd p5 = Some fd" "etag p5 = et"
      using refresh_loop_file [OF st(7)] assms(3,6,8) True by (simp_all add: st(1))
    have f: "file_of e' = file_of e6" "cacheFd p' = cacheFd p5" "etag p' = etag p5" "nData p' = n"
      using refresh_finish_file [OF st(9)] by simp_all
    have "file_of e6 = file_of e5" using fsync_frame [OF st(8)] by (simp add: file_of_def fun_eq_iff)
    moreover have "remote e' = remote e2"
      using lseek_frame(2) [OF st(5)] ftruncate_frame [OF st(6)] refresh_loop_frame [OF st(7)] fsync_frame [OF st(8)]
        refresh_finish_frame [OF st(9)] more_env by metis
    ultimately show ?thesis using f l b(2) r1 bl by (simp add: db_file_def)
  qed
qed

text \<open>The part both revalidations share: the properties, and a refresh unless the ETags agree.\<close>

lemma props_refresh_mock:
  assumes "call_azure (mock_blob_get_properties (blob p)) e = (AZURE_OK, (sz, st, status), err, e1)"
    and "eFileType p = MAIN_DB" and "cacheFd p = Some fd" and "ops p = Some mock_ops"
    and "mock_content (remote e) (blob p) = Some c" and "mock_ok (remote e)" and "tells_etag (remote e) (blob p)"
    and "coherent p e (mock_etag (remote e) (blob p)) c"
    and "etag p = err_etag err \<Longrightarrow> p' = bump u k p \<and> e' = e1"
    and "etag p \<noteq> err_etag err \<Longrightarrow> refreshMainDbCache (bump u k p) sz (err_etag err) e1 = (SQLITE_OK, p', e')"
  shows "fresh p' e' c" "err_etag err \<noteq> []"
proof -
  have pr: "sz = int (length c)" "err_etag err = mock_etag (remote e) (blob p)" "err_etag err \<noteq> []"
    "same_blob (blob p) (remote e) (remote e1)"
    using props_ok [OF call_azure_remote [OF assms(1)] assms(5-7)] by blast+
  show "err_etag err \<noteq> []" by (rule pr(3))
  show "fresh p' e' c"
  proof (cases "etag p = err_etag err")
    case True
    have "fs e1 = fs e" using call_azure_frame [OF assms(1)] by simp
    then show ?thesis using True assms(5,8,9) pr(2,4) db_file_fs [of e1 e "bump u k p"]
      by (simp add: fresh_def coherent_def same_blob_def) (simp add: db_file_def)
  next
    case False
    have "mock_content (remote e1) (blob (bump u k p)) = Some c" "mock_ok (remote e1)"
      using assms(5,6) pr(4) by (simp_all add: same_blob_def)
    from refresh_mock [OF assms(10) [OF False] _ _ _ this(1) pr(1) this(2) pr(3)] assms(2-4) pr(2,4)
    show ?thesis using assms(5) pr(1) by (auto simp: fresh_def same_blob_def)
  qed
qed

lemma coherent_upd:
  "cacheFd q = cacheFd p \<Longrightarrow> nData q = nData p \<Longrightarrow> etag q = etag p \<Longrightarrow> fs e' = fs e \<Longrightarrow> coherent p e et c \<Longrightarrow> coherent q e' et c"
  by (auto simp: coherent_def db_file_def file_of_def split: option.splits)

lemma before_read_fresh:
  assumes "revalidateBeforeRead p e = (SQLITE_OK, p', e')"
    and "ops p = Some mock_ops" and "eFileType p = MAIN_DB" and "cacheFd p = Some fd" and "etag p \<noteq> []"
    and "mock_content (remote e) (blob p) = Some c" and "mock_ok (remote e)" and "tells_etag (remote e) (blob p)"
    and "coherent p e (mock_etag (remote e) (blob p)) c"
  shows "fresh p' e' c"
proof -
  define q where "q = bump revalidations_update 1 p"
  obtain arc sz st status err e1 where
    call: "call_azure (mock_blob_get_properties (blob p)) e = (arc, (sz, st, status), err, e1)"
    by (cases "call_azure (mock_blob_get_properties (blob p)) e") auto
  have "azureErrToSqlite arc (Some SQLITE_IOERR_READ) \<noteq> SQLITE_OK" if "arc \<noteq> AZURE_OK"
    using that by (auto simp: azureErrToSqlite_def split: azure_err.splits)
  then have run: "arc = AZURE_OK"
    "(SQLITE_OK, p', e') = (if err_etag err = [] \<or> etag p = err_etag err then (SQLITE_OK, q, e1)
      else refreshMainDbCache q sz (err_etag err) e1)"
    using assms(1-5) call unfolding revalidateBeforeRead_def Let_def q_def [symmetric]
    by (auto simp: mock_ops_def q_def split: if_splits)
  note pr = props_ok [OF call_azure_remote [OF call [unfolded run(1)]] assms(6-8)]
  show ?thesis
    by (rule props_refresh_mock(1) [OF call [unfolded run(1)] assms(3,4,2,6-9), where u = revalidations_update and k = 1])
       (use run(2) pr in \<open>auto simp: q_def split: if_splits\<close>)
qed

lemma after_lease_fresh:
  assumes "revalidateAfterLease p [] e = (SQLITE_OK, p', e')"
    and "ops p = Some mock_ops" and "eFileType p = MAIN_DB" and "cacheFd p = Some fd" and "etag p \<noteq> []"
    and "mock_content (remote e) (blob p) = Some c" and "mock_ok (remote e)" and "tells_etag (remote e) (blob p)"
    and "coherent p e (mock_etag (remote e) (blob p)) c"
  shows "fresh p' e' c \<and> (readsSinceSharedLock p \<noteq> 0 \<longrightarrow> etag p' = etag p)"
proof -
  define q where "q = bump revalidations_update 1 p"
  obtain arc sz st status err e1 where
    call: "call_azure (mock_blob_get_properties (blob p)) e = (arc, (sz, st, status), err, e1)"
    by (cases "call_azure (mock_blob_get_properties (blob p)) e") auto
  have "azureErrToSqlite arc (Some SQLITE_IOERR_READ) \<noteq> SQLITE_OK" if "arc \<noteq> AZURE_OK"
    using that by (auto simp: azureErrToSqlite_def split: azure_err.splits)
  then have run: "arc = AZURE_OK"
    "(SQLITE_OK, p', e') = (if err_etag err = [] \<or> etag p = err_etag err then (SQLITE_OK, q, e1)
      else if readsSinceSharedLock p = 0 then refreshMainDbCache q sz (err_etag err) e1
      else (SQLITE_BUSY, bump revalidation_busy_update 1 q, e1))"
    using assms(1-5) call unfolding revalidateAfterLease_def Let_def q_def [symmetric]
    by (auto simp: mock_ops_def q_def split: if_splits)
  note pr = props_ok [OF call_azure_remote [OF call [unfolded run(1)]] assms(6-8)]
  have "fresh p' e' c"
    by (rule props_refresh_mock(1) [OF call [unfolded run(1)] assms(3,4,2,6-9), where u = revalidations_update and k = 1])
       (use run(2) pr in \<open>auto simp: q_def split: if_splits\<close>)
  moreover have "readsSinceSharedLock p \<noteq> 0 \<longrightarrow> etag p' = etag p" using run(2) by (auto simp: q_def split: if_splits)
  ultimately show ?thesis by simp
qed


section \<open>A second client\<close>

text \<open>A file on the blob of the sample backend that has no lease and whose cache is out of date, and the same backend with the
  blob free.\<close>

definition sample_client :: "mock sqliteObjsFile" where
  "sample_client = sample_mock_db\<lparr>leaseId := [], leaseDuration := 0, etag := ''old'', nData := 1\<rparr>"

definition sample_free_mock :: mock where
  "sample_free_mock = mock_azure_create\<lparr>mk_blobs := [(new_blob ''db'' BLOB_TYPE_PAGE)\<lparr>mb_data := [1, 2, 3], mb_size := 3\<rparr>]\<rparr>"

definition sample_free_env :: "mock env" where
  "sample_free_env = set_file ''c'' [9] (env_start sample_free_mock)"

lemma sample_client_fields:
  "ops sample_client = Some mock_ops" "eFileType sample_client = MAIN_DB" "eLock sample_client = SQLITE_LOCK_NONE"
  "leaseId sample_client = []" "blob sample_client = ''db''" "cacheFd sample_client = Some ''c''" "etag sample_client = ''old''"
  by (simp_all add: sample_client_def sample_mock_db_def file_zero_def blob_def)

lemma sample_free_facts:
  "mock_content sample_free_mock ''db'' = Some [1, 2, 3]" "mock_ok sample_free_mock" "tells_etag sample_free_mock ''db''"
  "mock_etag sample_free_mock ''db'' \<noteq> ''old''" "remote sample_free_env = sample_free_mock"
  by (simp_all add: sample_free_mock_def mock_content_def mock_ok_def tells_etag_def mock_etag_def find_blob_def blob_at_def
      new_blob_def mock_azure_create_def blob_sound_def bump_etag_def byte_at_def sample_free_env_def env_start_def)

lemma sample_fenced: "fenced ''L'' ''db'' [] sample_mock"
  using sample_mock_facts(3)
  by (simp add: fenced_def sample_mock_def find_blob_def blob_at_def new_blob_def mock_azure_create_def
      mock_lease_expired_def mock_time_now_def bump_etag_def)

theorem lease_fences_other_clients_witness:
  "\<exists>p' e'. sqliteObjsLock sample_client SQLITE_LOCK_RESERVED sample_mock_env = (SQLITE_BUSY, p', e') \<and>
    mock_content (remote e') ''db'' = Some [] \<and> leaseId p' \<noteq> ''L''"
proof -
  have "fst (sqliteObjsLock sample_client SQLITE_LOCK_RESERVED sample_mock_env) = SQLITE_BUSY" by code_simp
  then obtain p' e' where run: "sqliteObjsLock sample_client SQLITE_LOCK_RESERVED sample_mock_env = (SQLITE_BUSY, p', e')"
    by (metis prod.collapse)
  have "file_step\<^sup>*\<^sup>* (sample_client, sample_mock_env) (p', e')" using step_lock [OF run] by (rule r_into_rtranclp)
  moreover have "remote sample_mock_env = sample_mock" by (simp add: sample_mock_env_def env_start_def)
  ultimately show ?thesis
    using lease_fences_other_clients [of sample_client sample_mock_env p' e' "''L''" "[]"] sample_client_fields sample_fenced run
    by simp
qed




end
