(* ===== verification/Vfs_Names.thy ===== *)
theory Vfs_Names
  imports Journal_Cache Sidecar File_Control
begin

text \<open>
  The name-based methods of the VFS in \<^verbatim>\<open>sqlite_objs_vfs.c\<close>: routing (\<^verbatim>\<open>sqliteObjsIsAzurePath\<close>,
  \<^verbatim>\<open>resolveOps\<close>), \<^verbatim>\<open>xDelete\<close>, \<^verbatim>\<open>xAccess\<close>, \<^verbatim>\<open>xFullPathname\<close>, \<^verbatim>\<open>xGetLastError\<close>, the URI configuration and the names of
  cache files.

  \<open>host\<close> collects what these methods use of SQLite itself: the URI parameters of a name, the
  main database file that belongs to a journal or WAL name, the client constructor,
  the search for a default VFS and the result of the registration. A call handed on to the default VFS is the result \<open>Delegated\<close>.
\<close>

record 'w host =
  uri_parameter :: "string \<Rightarrow> string \<Rightarrow> string option"
  uri_boolean :: "string \<Rightarrow> string \<Rightarrow> bool \<Rightarrow> bool"
  database_file_object :: "string \<Rightarrow> 'w sqliteObjsFile option"
  client_create :: "azure_client_config \<Rightarrow> azure_err \<times> azure_error \<times> 'w azure_ops"
  find_default_vfs :: "int option"
  mutex_init_ok :: bool
  vfs_register_rc :: sqlite_rc
  getenv :: "string \<Rightarrow> string option"

datatype 'r routed = Azure 'r | Delegated

section \<open>Routing\<close>

definition sqliteObjsIsAzurePath :: "string option \<Rightarrow> bool" where
  "sqliteObjsIsAzurePath zPath =
     (case zPath of
        None \<Rightarrow> False
      | Some z \<Rightarrow> (case z of [] \<Rightarrow> False | c # _ \<Rightarrow> c \<noteq> CHR ''/''))"

definition resolveOps :: "'w host \<Rightarrow> 'w sqliteObjsVfsData \<Rightarrow> string option \<Rightarrow> 'w azure_ops option" where
  "resolveOps h pVfsData zName =
     (case vd_ops pVfsData of
        Some az \<Rightarrow> Some az
      | None \<Rightarrow>
          (case zName of
             None \<Rightarrow> None
           | Some z \<Rightarrow>
               if ends_with z ''-journal'' \<or> ends_with z ''-wal''
               then (case database_file_object h z of
                       None \<Rightarrow> None
                     | Some pMain \<Rightarrow> ops pMain)
               else None))"

section \<open>xDelete and xAccess\<close>

text \<open>\<^verbatim>\<open>jce = journalCacheFind(...); if (jce) jce->state = 0\<close>\<close>

definition journal_gone :: "string \<Rightarrow> 'w env \<Rightarrow> 'w env" where
  "journal_gone z e =
     (case journalCacheFind (vfs_data e) z of
        None \<Rightarrow> e
      | Some i \<Rightarrow> e\<lparr>vfs_data := jc_set_state i 0 (vfs_data e)\<rparr>)"

definition sqliteObjsDelete ::
  "'w host \<Rightarrow> string option \<Rightarrow> 'w env \<Rightarrow> (sqlite_rc \<times> 'w env) routed" where
  "sqliteObjsDelete h zName e =
     (case zName of
        None \<Rightarrow> Azure (SQLITE_OK, e)
      | Some z \<Rightarrow>
          if \<not> sqliteObjsIsAzurePath (Some z) then Delegated
          else case Option.bind (resolveOps h (vfs_data e) (Some z)) blob_delete of
            None \<Rightarrow> Delegated
          | Some del \<Rightarrow>
              (case do_azure (del z) e of (arc, aerr, e) \<Rightarrow>
               if arc = AZURE_ERR_NOT_FOUND then Azure (SQLITE_OK, journal_gone z e)
               else if arc \<noteq> AZURE_OK then Azure (SQLITE_IOERR_DELETE, e)
               else Azure (SQLITE_OK, journal_gone z e)))"

datatype access_flag = ACCESS_EXISTS | ACCESS_READWRITE | ACCESS_READ | ACCESS_OTHER

definition access_result :: "access_flag \<Rightarrow> int \<Rightarrow> int" where
  "access_result flags r =
     (case flags of ACCESS_EXISTS \<Rightarrow> r | ACCESS_READWRITE \<Rightarrow> r | ACCESS_READ \<Rightarrow> r | ACCESS_OTHER \<Rightarrow> 0)"

definition sqliteObjsAccess ::
  "'w host \<Rightarrow> string option \<Rightarrow> access_flag \<Rightarrow> 'w env \<Rightarrow> (sqlite_rc \<times> int \<times> 'w env) routed" where
  "sqliteObjsAccess h zName flags e =
     (case zName of
        None \<Rightarrow> Delegated
      | Some z \<Rightarrow>
          if \<not> sqliteObjsIsAzurePath (Some z) then Delegated
          else case Option.bind (resolveOps h (vfs_data e) (Some z)) blob_exists of
            None \<Rightarrow> Delegated
          | Some ex \<Rightarrow>
              if 0 \<le> journal_state z (vfs_data e)
              then Azure (SQLITE_OK, access_result flags (journal_state z (vfs_data e)), e)
              else
                case call_azure (ex z) e of (arc, exists, aerr, e) \<Rightarrow>
                if arc \<noteq> AZURE_OK then Azure (SQLITE_OK, 0, e)
                else
                  let e = (if ends_with z ''-journal''
                           then journal_record z (if exists then 1 else 0) e else e)
                  in Azure (SQLITE_OK, access_result flags (if exists then 1 else 0), e))"

section \<open>xFullPathname and xGetLastError\<close>

text \<open>\<^verbatim>\<open>strstr(zName, "..") != NULL\<close>\<close>

fun has_dotdot :: "string \<Rightarrow> bool" where
  "has_dotdot (a # b # s) \<longleftrightarrow> a = CHR ''.'' \<and> b = CHR ''.'' \<or> has_dotdot (b # s)"
| "has_dotdot _ \<longleftrightarrow> False"

text \<open>Copying a string of length \<^verbatim>\<open>len\<close> into \<^verbatim>\<open>char[nOut]\<close> with the clamp \<^verbatim>\<open>if (len >= nOut) len = nOut - 1\<close>.\<close>

definition clamp_copy :: "string \<Rightarrow> int \<Rightarrow> string" where
  "clamp_copy s nOut =
     (let len = int (length s); len = (if nOut \<le> len then nOut - 1 else len) in take (nat len) s)"

definition sqliteObjsFullPathname :: "string option \<Rightarrow> int \<Rightarrow> sqlite_rc \<times> string" where
  "sqliteObjsFullPathname zName nOut =
     (case zName of
        None \<Rightarrow> (SQLITE_OK, [])
      | Some z \<Rightarrow>
          if z = [] then (SQLITE_OK, [])
          else if has_dotdot z then (SQLITE_CANTOPEN, [])
          else (SQLITE_OK, clamp_copy (dropWhile (\<lambda>c. c = CHR ''/'') z) nOut))"

definition sqliteObjsGetLastError :: "'w sqliteObjsVfsData \<Rightarrow> int \<Rightarrow> (sqlite_rc \<times> string) routed" where
  "sqliteObjsGetLastError d nByte =
     (if nByte > 0 \<and> vd_lastError d \<noteq> []
      then Azure (SQLITE_OK, clamp_copy (vd_lastError d) nByte)
      else Delegated)"

section \<open>Cache file names\<close>

definition buildCacheTemplate :: "string option \<Rightarrow> 'a posix_scheme \<Rightarrow> string option \<times> 'a posix_scheme" where
  "buildCacheTemplate cacheDir e =
     (case (case cacheDir of None \<Rightarrow> [] | Some d \<Rightarrow> d) of
        [] \<Rightarrow> (case sys_malloc 24 e of
                (None, e) \<Rightarrow> (None, e)
              | (Some _, e) \<Rightarrow> (Some ''/tmp/sqlite-objs-XXXXXX'', e))
      | c # cs \<Rightarrow>
          let d = c # cs; d = (if last d = CHR ''/'' then butlast d else d) in
          (case sys_malloc (int (length d) + 20) e of
             (None, e) \<Rightarrow> (None, e)
           | (Some _, e) \<Rightarrow> (Some (d @ ''/sqlite-objs-XXXXXX''), e)))"

definition fnv1a_hash :: "string \<Rightarrow> 64 word" where
  "fnv1a_hash data =
     foldl (\<lambda>h c. (h XOR word_of_nat (of_char c)) * 0x100000001b3) 0xcbf29ce484222325 data"

definition hex_digit :: "nat \<Rightarrow> char" where
  "hex_digit n = (if n < 10 then char_of (48 + n) else char_of (87 + n))"

text \<open>\<^verbatim>\<open>%016llx\<close>\<close>

definition hex16 :: "64 word \<Rightarrow> string" where
  "hex16 h = map (\<lambda>i. hex_digit (unat (drop_bit (60 - 4 * i) h AND 0xF))) [0..<16]"

definition cache_key :: "string option \<Rightarrow> string option \<Rightarrow> string \<Rightarrow> string" where
  "cache_key account container blobName =
     (case account of None \<Rightarrow> [] | Some a \<Rightarrow> a) @ CHR '':'' #
     (case container of None \<Rightarrow> [] | Some c \<Rightarrow> c) @ CHR '':'' # blobName"

definition buildCachePath ::
  "string option \<Rightarrow> string option \<Rightarrow> string option \<Rightarrow> string \<Rightarrow> 'a posix_scheme \<Rightarrow> string option \<times> 'a posix_scheme"
where
  "buildCachePath cacheDir account container blobName e =
     (let dir = (case cacheDir of None \<Rightarrow> ''/tmp'' | Some d \<Rightarrow> if d = [] then ''/tmp'' else d);
          key = cache_key account container blobName in
      case sys_malloc (int (length key) + 1) e of
        (None, e) \<Rightarrow> (None, e)
      | (Some _, e) \<Rightarrow>
          let hex = hex16 (fnv1a_hash key);
              dir = (if dir \<noteq> [] \<and> last dir = CHR ''/'' then butlast dir else dir) in
          (case sys_malloc (int (length dir) + 1 + 12 + 16 + 6 + 1) e of
             (None, e) \<Rightarrow> (None, e)
           | (Some _, e) \<Rightarrow> (Some (dir @ ''/sqlite-objs-'' @ hex @ ''.cache''), e)))"

definition sqlite_objs_parse_uri_config :: "'w host \<Rightarrow> string \<Rightarrow> azure_client_config option" where
  "sqlite_objs_parse_uri_config h zName =
     (case uri_parameter h zName ''azure_account'' of
        None \<Rightarrow> None
      | Some account \<Rightarrow>
          Some \<lparr>cfg_account = Some account,
                cfg_container = uri_parameter h zName ''azure_container'',
                cfg_sas_token = uri_parameter h zName ''azure_sas'',
                cfg_account_key = uri_parameter h zName ''azure_key'',
                cfg_endpoint = uri_parameter h zName ''azure_endpoint''\<rparr>)"

end
