(* ===== verification/Vfs_Open.thy ===== *)
theory Vfs_Open
  imports Locking Vfs_Names
begin

text \<open>
  \<^verbatim>\<open>xOpen\<close>, \<^verbatim>\<open>xClose\<close> and the registration functions of \<^verbatim>\<open>sqlite_objs_vfs.c\<close>. \<^verbatim>\<open>sqliteObjsOpen\<close> is split along
  its branches and labels: the set-up of the record, the reuse of a persistent cache (ETag hit,
  incremental diff), the temporary cache file, the label \<^verbatim>\<open>cache_download\<close> with its lazy and its full
  download, the creation of a new blob, the journal and the WAL. On a failure \<^verbatim>\<open>pMethod\<close> stays \<^verbatim>\<open>NULL\<close> (\<^term>\<open>False\<close>), which is how SQLite
  knows that it must not call \<^verbatim>\<open>xClose\<close>.

  The flags of \<^verbatim>\<open>xOpen\<close> are a record of the four bits the function looks at; on success \<^verbatim>\<open>pOutFlags\<close> is set to the flags given, and is
  not an output of the model. File positions are not modelled:
  the sequential \<^verbatim>\<open>write\<close> calls always start at offset 0, as they do in the code.
\<close>

record open_flags =
  of_main_db :: bool
  of_main_journal :: bool
  of_wal :: bool
  of_create :: bool

section \<open>Failure exits\<close>

text \<open>\<^term>\<open>Inl\<close> is a return from \<^verbatim>\<open>xOpen\<close>, with the result code and the file record it leaves; \<^term>\<open>Inr\<close> goes on.\<close>

type_synonym 'w open_result = "(sqlite_rc \<times> 'w sqliteObjsFile \<times> 'w env) + ('w sqliteObjsFile \<times> 'w env)"

definition free_name :: "'w sqliteObjsFile \<Rightarrow> 'w sqliteObjsFile" where
  "free_name p = p\<lparr>zBlobName := None\<rparr>"

definition discard_cache :: "sqlite_rc \<Rightarrow> 'w sqliteObjsFile \<Rightarrow> 'w env \<Rightarrow> 'w open_result" where
  "discard_cache rc p e =
     Inl (rc, free_name (p\<lparr>cacheFd := None, zCachePath := None\<rparr>),
          case zCachePath p of None \<Rightarrow> e | Some path \<Rightarrow> sys_unlink path e)"

section \<open>Set-up\<close>

definition open_client ::
  "'w host \<Rightarrow> string \<Rightarrow> 'w sqliteObjsFile \<Rightarrow> 'w env \<Rightarrow> sqlite_rc \<times> 'w sqliteObjsFile" where
  "open_client h z p e =
     (case sqlite_objs_parse_uri_config h z of
        Some uriCfg \<Rightarrow>
          (case client_create h uriCfg of (arc, aerr, az) \<Rightarrow>
           if arc \<noteq> AZURE_OK then (SQLITE_CANTOPEN, free_name (p\<lparr>ownClient := None\<rparr>))
           else (SQLITE_OK, p\<lparr>ownClient := Some uriCfg, ops := Some az\<rparr>))
      | None \<Rightarrow>
          if vd_ops (vfs_data e) = None then (SQLITE_CANTOPEN, free_name p)
          else (SQLITE_OK, p\<lparr>ops := vd_ops (vfs_data e)\<rparr>))"

definition open_init :: "'w host \<Rightarrow> string \<Rightarrow> open_flags \<Rightarrow> 'w sqliteObjsFile \<Rightarrow> 'w sqliteObjsFile" where
  "open_init h z fl p =
     p\<lparr>eFileType := (if of_wal fl then WAL else if of_main_journal fl then MAIN_JOURNAL else MAIN_DB),
       eLock := SQLITE_LOCK_NONE, leaseId := [], leaseDuration := SQLITE_OBJS_LEASE_DURATION,
       lastSyncDirtyCount := 0, etag := [], pageSize := SQLITE_OBJS_DEFAULT_PAGE_SIZE,
       cacheFd := None, zCachePath := None, cacheReuse := False,
       prefetchMode := (case uri_parameter h z ''prefetch'' of
                          None \<Rightarrow> SQLITE_OBJS_PREFETCH_ALL
                        | Some v \<Rightarrow> if stricmp_eq v ''none'' then SQLITE_OBJS_PREFETCH_NONE
                                     else SQLITE_OBJS_PREFETCH_ALL)\<rparr>"

definition uri_cache_path :: "'w host \<Rightarrow> string \<Rightarrow> 'w env \<Rightarrow> string option \<times> 'w env" where
  "uri_cache_path h z e =
     buildCachePath (uri_parameter h z ''cache_dir'') (uri_parameter h z ''azure_account'')
       (uri_parameter h z ''azure_container'') z e"

section \<open>Choosing the cache file of an existing blob\<close>

datatype cache_choice = Cache_ready | Cache_download | Cache_fail sqlite_rc

definition detect_header :: "'w sqliteObjsFile \<Rightarrow> 'w env \<Rightarrow> 'w sqliteObjsFile \<times> 'w env" where
  "detect_header p e =
     (case pread_fd (cacheFd p) 100 0 e of (nRead, header, e) \<Rightarrow>
        (if nRead = 100
         then let detected = detectPageSize header 100
              in if detected > 0 then p\<lparr>pageSize := detected\<rparr> else p
         else p, e))"

definition count_valid :: "bitmap \<Rightarrow> int \<Rightarrow> int" where
  "count_valid bm nPg = int (length (filter (bitmapTestBit bm) [0..nPg - 1]))"

text \<open>The lazy part of an ETag hit: the valid bitmap of the \<^verbatim>\<open>.state\<close> file, or an empty one.\<close>

definition open_load_state :: "string \<Rightarrow> 'w sqliteObjsFile \<Rightarrow> 'w env \<Rightarrow> 'w sqliteObjsFile \<times> 'w env" where
  "open_load_state cachePath p e =
     (case readStateFile (Some cachePath) e of (st, e) \<Rightarrow>
      case st of
        Some (savedValid, savedValidSize, savedPageSize, savedFileSize) \<Rightarrow>
          if savedPageSize = pageSize p \<and> savedFileSize = nData p
          then
            let nPg = c_int (c_div (nData p + pageSize p - 1) (pageSize p));
                bm = (bitmapFree (valid p))\<lparr>bm_data := Some savedValid, bm_nAlloc := savedValidSize, bm_nSet := 0\<rparr>
            in (p\<lparr>valid := bm\<lparr>bm_nSet := count_valid bm nPg\<rparr>\<rparr>, e)
          else (case bitmapEnsureCapacity (valid p) (nData p) (pageSize p) e of (_, bm, e) \<Rightarrow>
                  (p\<lparr>valid := bitmapClearAll bm\<rparr>, e))
      | None \<Rightarrow> (case bitmapEnsureCapacity (valid p) (nData p) (pageSize p) e of (_, bm, e) \<Rightarrow>
                  (p\<lparr>valid := bitmapClearAll bm\<rparr>, e)))"

definition open_hit :: "string \<Rightarrow> int \<Rightarrow> 'w sqliteObjsFile \<Rightarrow> 'w env \<Rightarrow> 'w sqliteObjsFile \<times> 'w env" where
  "open_hit cachePath blobSize p e =
     (let p = p\<lparr>cacheFd := Some cachePath, zCachePath := Some cachePath, cacheReuse := True, nData := blobSize\<rparr> in
      case detect_header p e of (p, e) \<Rightarrow>
      case bitmapsEnsureCapacity p e of (_, p, e) \<Rightarrow>
      let p = p\<lparr>lastSyncedSize := nData p\<rparr> in
      case readSnapshotFile (Some cachePath) 128 e of ((r, snap), e) \<Rightarrow>
      let p = (if r = 0 then p\<lparr>snapshot := snap\<rparr> else p) in
      if prefetchMode p = SQLITE_OBJS_PREFETCH_NONE then open_load_state cachePath p e
      else (p, e))"

text \<open>After a miss: the incremental diff from a stored snapshot, or a fresh file.\<close>

definition open_miss ::
  "string \<Rightarrow> int \<Rightarrow> 'w sqliteObjsFile \<Rightarrow> 'w env \<Rightarrow> cache_choice \<times> 'w sqliteObjsFile \<times> 'w env" where
  "open_miss cachePath blobSize p e =
     (case readSnapshotFile (Some cachePath) 128 e of ((r, storedSnapshot), e) \<Rightarrow>
      case (if r = 0 \<and> storedSnapshot \<noteq> [] then sys_open cachePath e else (None, e)) of
        (Some fd, e) \<Rightarrow>
          (case sys_lseek_end fd e of (cachedSize, e) \<Rightarrow>
           let p = p\<lparr>cacheFd := Some fd, zCachePath := Some cachePath, cacheReuse := True,
                     nData := cachedSize, snapshot := storedSnapshot\<rparr> in
           case bitmapsEnsureCapacity p e of (_, p, e) \<Rightarrow>
           let p = p\<lparr>lastSyncedSize := nData p\<rparr> in
           case applyIncrementalDiff p blobSize e of (ok, p, e) \<Rightarrow>
           if ok then (Cache_ready, p, e)
           else
             let e = snd (ftruncate_fd (cacheFd p) 0 e);
                 e = snd (sys_lseek_start fd e)
             in (Cache_download, p\<lparr>nData := 0, snapshot := []\<rparr>, e))
      | (None, e) \<Rightarrow>
          (case sys_open_trunc cachePath e of
             (None, e) \<Rightarrow> (Cache_fail SQLITE_CANTOPEN, free_name (p\<lparr>cacheFd := None\<rparr>), e)
           | (Some fd, e) \<Rightarrow>
               (Cache_download, p\<lparr>cacheFd := Some fd, zCachePath := Some cachePath, cacheReuse := True\<rparr>, e)))"

definition open_reuse ::
  "string \<Rightarrow> int \<Rightarrow> 'w sqliteObjsFile \<Rightarrow> 'w env \<Rightarrow> cache_choice \<times> 'w sqliteObjsFile \<times> 'w env" where
  "open_reuse cachePath blobSize p e =
     (case buildEtagPath (Some cachePath) e of (etagPath, e) \<Rightarrow>
      case readEtagFile etagPath 128 e of ((r, storedEtag), e) \<Rightarrow>
      if r = 0 \<and> etag p \<noteq> [] \<and> storedEtag = etag p
      then (case sys_open cachePath e of
              (None, e) \<Rightarrow> open_miss cachePath blobSize p e
            | (Some fd, e) \<Rightarrow>
                (case sys_lseek_end fd e of (cachedSize, e) \<Rightarrow>
                 if cachedSize = blobSize
                 then case open_hit cachePath blobSize p e of (p, e) \<Rightarrow> (Cache_ready, p, e)
                 else open_miss cachePath blobSize p e))
      else open_miss cachePath blobSize p e)"

definition open_mkstemp ::
  "'w host \<Rightarrow> string \<Rightarrow> 'w sqliteObjsFile \<Rightarrow> 'w env \<Rightarrow> cache_choice \<times> 'w sqliteObjsFile \<times> 'w env" where
  "open_mkstemp h z p e =
     (case buildCacheTemplate (uri_parameter h z ''cache_dir'') e of
        (None, e) \<Rightarrow> (Cache_fail SQLITE_NOMEM, free_name p, e)
      | (Some tmpl, e) \<Rightarrow>
          (case sys_mkstemp tmpl e of
             (None, e) \<Rightarrow> (Cache_fail SQLITE_CANTOPEN, free_name (p\<lparr>cacheFd := None\<rparr>), e)
           | (Some path, e) \<Rightarrow> (Cache_download, p\<lparr>cacheFd := Some path, zCachePath := Some path\<rparr>, e)))"

text \<open>A persistent cache file if the URI asks for one and there is something to cache, a temporary one otherwise.\<close>

definition open_choose ::
  "'w host \<Rightarrow> string \<Rightarrow> int \<Rightarrow> 'w sqliteObjsFile \<Rightarrow> 'w env \<Rightarrow> cache_choice \<times> 'w sqliteObjsFile \<times> 'w env" where
  "open_choose h z blobSize p e =
     (if uri_boolean h z ''cache_reuse'' False \<and> blobSize > 0
      then case uri_cache_path h z e of
             (Some cachePath, e) \<Rightarrow> open_reuse cachePath blobSize p e
           | (None, e) \<Rightarrow> open_mkstemp h z p e
      else open_mkstemp h z p e)"

section \<open>Filling the cache file\<close>

definition download_lazy :: "string \<Rightarrow> int \<Rightarrow> 'w sqliteObjsFile \<Rightarrow> 'w env \<Rightarrow> 'w open_result" where
  "download_lazy z blobSize p e =
     (case ftruncate_fd (cacheFd p) blobSize e of (r, e) \<Rightarrow>
      if r \<noteq> 0 then discard_cache SQLITE_IOERR p e
      else
        let p = p\<lparr>nData := blobSize\<rparr>;
            bootstrapLen = (if blobSize < SQLITE_OBJS_PAGE1_BOOTSTRAP then blobSize
                            else SQLITE_OBJS_PAGE1_BOOTSTRAP) in
        case Option.bind (ops p) page_blob_read of
          None \<Rightarrow> Inl (UB_NULL_CALL, p, e)
        | Some rd \<Rightarrow>
            (case call_azure (rd z 0 bootstrapLen) e of (arc, bbuf, berr, e) \<Rightarrow>
             if arc \<noteq> AZURE_OK \<or> bbuf = []
             then discard_cache (azureErrToSqlite arc (Some SQLITE_CANTOPEN))
                    (if arc \<noteq> AZURE_OK then bump azure_errors_update 1 p else p) e
             else
               let writeLen = (if int (length bbuf) < bootstrapLen then int (length bbuf) else bootstrapLen);
                   p = bump blob_bytes_read_update writeLen (bump blob_reads_update 1 p) in
               case pwrite_fd (cacheFd p) (take (nat writeLen) bbuf) 0 e of (nw, e) \<Rightarrow>
               let p = (if 0 \<le> nw then bump disk_bytes_written_update nw (bump disk_writes_update 1 p) else p) in
               if nw < 0 \<or> nw \<noteq> writeLen then discard_cache SQLITE_IOERR p e
               else case detect_header p e of (p, e) \<Rightarrow>
               case bitmapsEnsureCapacity p e of (_, p, e) \<Rightarrow>
               let p = p\<lparr>valid := bitmapClearAll (valid p)\<rparr>;
                   p = validMarkRange p 0 writeLen
               in Inr (p\<lparr>lastSyncedSize := nData p\<rparr>, e)))"

definition free_dirty :: "'w sqliteObjsFile \<Rightarrow> 'w sqliteObjsFile" where
  "free_dirty p = p\<lparr>dirty := bitmapFree (dirty p)\<rparr>"

definition download_full :: "int \<Rightarrow> 'w sqliteObjsFile \<Rightarrow> 'w env \<Rightarrow> 'w open_result" where
  "download_full blobSize p e =
     (case sys_malloc blobSize e of
        (None, e) \<Rightarrow> discard_cache SQLITE_NOMEM p e
      | (Some tempBuf, e) \<Rightarrow>
      (case ops p of
         None \<Rightarrow> Inl (UB_NULL_CALL, p, e)
       | Some az \<Rightarrow>
      (case refresh_download az p blobSize tempBuf e of
         None \<Rightarrow> Inl (UB_NULL_CALL, p, e)
       | Some (arc, tempBuf, e) \<Rightarrow>
      if arc \<noteq> AZURE_OK
      then discard_cache (azureErrToSqlite arc (Some SQLITE_CANTOPEN)) (free_dirty (bump azure_errors_update 1 p)) e
      else
        let p = bump blob_bytes_read_update blobSize (bump blob_reads_update 1 p) in
        case (case cacheFd p of
                None \<Rightarrow> (SQLITE_IOERR, p, e)
              | Some fd \<Rightarrow> refresh_write_loop fd tempBuf blobSize 0 p e) of (rc, p, e) \<Rightarrow>
        if rc \<noteq> SQLITE_OK then discard_cache SQLITE_IOERR (free_dirty p) e
        else case fsync_fd (cacheFd p) e of (r, e) \<Rightarrow>
        if r \<noteq> 0 then discard_cache SQLITE_IOERR (free_dirty p) e
        else
          let p = p\<lparr>nData := blobSize\<rparr> in
          case detect_header p e of (p, e) \<Rightarrow>
          case bitmapsEnsureCapacity p e of (_, p, e) \<Rightarrow>
          case (if prefetchMode p = SQLITE_OBJS_PREFETCH_NONE
                then case bitmapEnsureCapacity (valid p) (nData p) (pageSize p) e of (_, bm, e) \<Rightarrow>
                       (validMarkAll (p\<lparr>valid := bm\<rparr>), e)
                else (p, e)) of (p, e) \<Rightarrow>
          Inr (p\<lparr>lastSyncedSize := nData p\<rparr>, e))))"

text \<open>The code from the label \<^verbatim>\<open>cache_download\<close> to the label \<^verbatim>\<open>cache_ready\<close>.\<close>

definition cache_download :: "string \<Rightarrow> int \<Rightarrow> 'w sqliteObjsFile \<Rightarrow> 'w env \<Rightarrow> 'w open_result" where
  "cache_download z blobSize p e =
     (let p = p\<lparr>nDownloads := nDownloads p + 1\<rparr> in
      if blobSize > 0 \<and> prefetchMode p = SQLITE_OBJS_PREFETCH_NONE then download_lazy z blobSize p e
      else if blobSize > 0 then download_full blobSize p e
      else Inr (p\<lparr>nData := 0\<rparr>, e))"

section \<open>Opening a database\<close>

definition open_existing ::
  "'w host \<Rightarrow> string \<Rightarrow> (string \<Rightarrow> ('w, int \<times> string \<times> string) azure_query) \<Rightarrow> 'w sqliteObjsFile \<Rightarrow> 'w env \<Rightarrow>
     'w open_result" where
  "open_existing h z props p e =
     (case call_azure (props z) e of (arc, (blobSize, leaseState, leaseStatus), aerr, e) \<Rightarrow>
      if arc \<noteq> AZURE_OK then Inl (azureErrToSqlite arc (Some SQLITE_CANTOPEN), free_name p, e)
      else
        let p = (if err_etag aerr \<noteq> [] then p\<lparr>etag := err_etag aerr\<rparr> else p) in
        case open_choose h z blobSize p e of (choice, p, e) \<Rightarrow>
        (case choice of
           Cache_ready \<Rightarrow> Inr (p, e)
         | Cache_fail rc \<Rightarrow> Inl (rc, p, e)
         | Cache_download \<Rightarrow> cache_download z blobSize p e))"

definition open_create :: "'w host \<Rightarrow> string \<Rightarrow> 'w sqliteObjsFile \<Rightarrow> 'w env \<Rightarrow> 'w open_result" where
  "open_create h z p e =
     (case (case Option.bind (ops p) page_blob_create of
              None \<Rightarrow> (AZURE_OK, e)
            | Some create \<Rightarrow> (case do_azure (create z 0) e of (arc, aerr, e) \<Rightarrow> (arc, e))) of (arc, e) \<Rightarrow>
      if arc \<noteq> AZURE_OK then Inl (azureErrToSqlite arc (Some SQLITE_CANTOPEN), free_name p, e)
      else
        case (if uri_boolean h z ''cache_reuse'' False
              then case uri_cache_path h z e of
                     (Some cachePath, e) \<Rightarrow>
                       (case sys_open_trunc cachePath e of
                          (None, e) \<Rightarrow> (Cache_fail SQLITE_CANTOPEN, free_name (p\<lparr>cacheFd := None\<rparr>), e)
                        | (Some fd, e) \<Rightarrow>
                            (Cache_ready,
                             p\<lparr>cacheFd := Some fd, zCachePath := Some cachePath, cacheReuse := True\<rparr>, e))
                   | (None, e) \<Rightarrow> open_mkstemp h z p e
              else open_mkstemp h z p e) of (choice, p, e) \<Rightarrow>
        (case choice of
           Cache_fail rc \<Rightarrow> Inl (rc, p, e)
         | _ \<Rightarrow> Inr (p\<lparr>nData := 0\<rparr>, e)))"

definition open_db :: "'w host \<Rightarrow> string \<Rightarrow> open_flags \<Rightarrow> 'w sqliteObjsFile \<Rightarrow> 'w env \<Rightarrow> 'w open_result" where
  "open_db h z fl p e =
     (case (case Option.bind (ops p) blob_exists of
              None \<Rightarrow> (AZURE_OK, False, e)
            | Some ex \<Rightarrow> (case call_azure (ex z) e of (arc, exists, aerr, e) \<Rightarrow> (arc, exists, e))) of
        (arc, blobExists, e) \<Rightarrow>
      if arc \<noteq> AZURE_OK \<and> arc \<noteq> AZURE_ERR_NOT_FOUND
      then Inl (azureErrToSqlite arc (Some SQLITE_CANTOPEN), free_name p, e)
      else
        case (case (blobExists, Option.bind (ops p) blob_get_properties) of
                (True, Some props) \<Rightarrow> open_existing h z props p e
              | (True, None) \<Rightarrow> Inr (p, e)
              | (False, _) \<Rightarrow> if of_create fl then open_create h z p e
                              else Inl (SQLITE_CANTOPEN, free_name p, e)) of
          Inl r \<Rightarrow> Inl r
        | Inr (p, e) \<Rightarrow> Inr (p\<lparr>dirty := bitmapClearAll (dirty p)\<rparr>, e))"

section \<open>Opening a journal or a WAL\<close>

definition open_journal ::
  "string \<Rightarrow> 'w sqliteObjsFile \<Rightarrow> 'w env \<Rightarrow> (sqlite_rc \<times> 'w sqliteObjsFile \<times> 'w env) option" where
  "open_journal z p e =
     (let p = p\<lparr>nJrnlData := 0, nJrnlAlloc := 0, aJrnlData := None\<rparr> in
      case journalCacheGetOrCreate (vfs_data e) z of (jce, vd) \<Rightarrow>
      let e = e\<lparr>vfs_data := vd\<rparr>;
          cached_state = (case jce of None \<Rightarrow> -1 | Some i \<Rightarrow> jc_state (journalCache vd ! i)) in
      case (if cached_state = 0 then (False, e)
            else case Option.bind (ops p) blob_exists of
                   None \<Rightarrow> (False, e)
                 | Some ex \<Rightarrow>
                     (case call_azure (ex z) e of (arc, exists, aerr, e) \<Rightarrow>
                      (exists,
                       case jce of
                         None \<Rightarrow> e
                       | Some i \<Rightarrow> e\<lparr>vfs_data := jc_set_state i (if exists then 1 else 0) (vfs_data e)\<rparr>))) of
        (exists, e) \<Rightarrow>
      case (exists, Option.bind (ops p) block_blob_download) of
        (True, Some download) \<Rightarrow>
          (case call_azure (download z) e of (arc, buf, aerr, e) \<Rightarrow>
           if arc = AZURE_OK \<and> buf \<noteq> []
           then (case jrnlBufferEnsure p (int (length buf)) e of
                   None \<Rightarrow> None
                 | Some (rc, p, e) \<Rightarrow>
                     if rc = SQLITE_OK
                     then Some (SQLITE_OK,
                                p\<lparr>aJrnlData := heap_write (aJrnlData p) 0 buf, nJrnlData := int (length buf)\<rparr>, e)
                     else Some (rc, free_name p, e))
           else Some (SQLITE_OK, p, e))
      | _ \<Rightarrow> Some (SQLITE_OK, p, e))"

definition open_wal ::
  "string \<Rightarrow> 'w sqliteObjsFile \<Rightarrow> 'w env \<Rightarrow> (sqlite_rc \<times> 'w sqliteObjsFile \<times> 'w env) option" where
  "open_wal z p e =
     (case (Option.bind (ops p) block_blob_upload, Option.bind (ops p) block_blob_download) of
        (Some _, Some download) \<Rightarrow>
          (case (case Option.bind (ops p) blob_exists of
                   None \<Rightarrow> (AZURE_OK, False, e)
                 | Some ex \<Rightarrow> (case call_azure (ex z) e of (arc, exists, aerr, e) \<Rightarrow> (arc, exists, e))) of
             (arc, walExists, e) \<Rightarrow>
           if arc \<noteq> AZURE_OK \<and> arc \<noteq> AZURE_ERR_NOT_FOUND
           then Some (azureErrToSqlite arc (Some SQLITE_CANTOPEN), free_name p, e)
           else if \<not> walExists then Some (SQLITE_OK, p, e)
           else
             case call_azure (download z) e of (arc, buf, aerr, e) \<Rightarrow>
             if arc = AZURE_OK \<and> buf \<noteq> []
             then (case walBufferEnsure p (int (length buf)) e of
                     None \<Rightarrow> None
                   | Some (rc, p, e) \<Rightarrow>
                       if rc = SQLITE_OK
                       then Some (SQLITE_OK,
                                  p\<lparr>aWalData := heap_write (aWalData p) 0 buf, nWalData := int (length buf)\<rparr>, e)
                       else Some (rc, free_name (p\<lparr>aWalData := None\<rparr>), e))
             else if arc \<noteq> AZURE_OK then Some (azureErrToSqlite arc (Some SQLITE_CANTOPEN), free_name p, e)
             else Some (SQLITE_OK, p, e))
      | _ \<Rightarrow> Some (SQLITE_CANTOPEN, free_name p, e))"

section \<open>xOpen\<close>

definition sqliteObjsOpen ::
  "'w host \<Rightarrow> string option \<Rightarrow> open_flags \<Rightarrow> 'w env \<Rightarrow>
     (sqlite_rc \<times> 'w sqliteObjsFile \<times> 'w env) option routed" where
  "sqliteObjsOpen h zName fl e =
     (let p = file_zero in
      if \<not> of_main_db fl \<and> \<not> of_main_journal fl \<and> \<not> of_wal fl then Delegated
      else Azure (case zName of
        None \<Rightarrow> Some (SQLITE_CANTOPEN, p, e)
      | Some z \<Rightarrow>
          if z = [] then Some (SQLITE_CANTOPEN, p, e)
          else case sys_malloc (int (length z) + 1) e of
            (None, e) \<Rightarrow> Some (SQLITE_NOMEM, p, e)
          | (Some _, e) \<Rightarrow>
          (let p = p\<lparr>zBlobName := Some z\<rparr> in
           case open_client h z p e of (rc, p) \<Rightarrow>
           if rc \<noteq> SQLITE_OK then Some (rc, p, e)
           else
             let p = open_init h z fl p in
             if of_main_db fl
             then Some (case open_db h z fl p e of
                          Inl r \<Rightarrow> r
                        | Inr (p, e) \<Rightarrow> (SQLITE_OK, p\<lparr>pMethod := True\<rparr>, e))
             else case (if of_main_journal fl then open_journal z p e else open_wal z p e) of
               None \<Rightarrow> None
             | Some (rc, p, e) \<Rightarrow>
                 if rc \<noteq> SQLITE_OK then Some (rc, p, e)
                 else Some (SQLITE_OK, p\<lparr>pMethod := True\<rparr>, e))))"

section \<open>xClose\<close>

definition close_flush :: "'w sqliteObjsFile \<Rightarrow> 'w env \<Rightarrow> sqlite_rc \<times> 'w sqliteObjsFile \<times> 'w env" where
  "close_flush p e =
     (if bm_nSet (dirty p) > 0 \<and> Option.bind (ops p) page_blob_write \<noteq> None then sqliteObjsSync p e
      else if eFileType p = WAL \<and> nWalData p > 0 \<and> ops p \<noteq> None then sqliteObjsSync p e
      else (SQLITE_OK, p, e))"

definition close_refresh_etag :: "sqlite_rc \<Rightarrow> 'w sqliteObjsFile \<Rightarrow> 'w env \<Rightarrow> 'w sqliteObjsFile \<times> 'w env" where
  "close_refresh_etag rc p e =
     (case Option.bind (ops p) blob_get_properties of
        None \<Rightarrow> (p, e)
      | Some props \<Rightarrow>
          if cacheReuse p \<and> zBlobName p \<noteq> None \<and> rc = SQLITE_OK
          then case call_azure (props (blob p)) e of (arc, _, aerr, e) \<Rightarrow>
               (if arc = AZURE_OK \<and> err_etag aerr \<noteq> [] then p\<lparr>etag := err_etag aerr\<rparr> else p, e)
          else (p, e))"

definition close_release :: "'w sqliteObjsFile \<Rightarrow> 'w env \<Rightarrow> 'w sqliteObjsFile \<times> 'w env" where
  "close_release p e =
     (if hasLease p \<and> Option.bind (ops p) lease_release \<noteq> None
      then (p\<lparr>leaseId := []\<rparr>, release_call p e)
      else (p, e))"

definition close_cache :: "'w sqliteObjsFile \<Rightarrow> 'w env \<Rightarrow> 'w sqliteObjsFile \<times> 'w env" where
  "close_cache p e =
     (let e = (if cacheFd p \<noteq> None then snd (fsync_fd (cacheFd p) e) else e);
          p = p\<lparr>cacheFd := None\<rparr> in
      case zCachePath p of
        None \<Rightarrow> (p, e)
      | Some path \<Rightarrow>
          let e = (if cacheReuse p \<and> etag p \<noteq> [] \<and> \<not> bitmapHasAny (dirty p)
                   then
                     let e = (if bm_data (valid p) \<noteq> None \<and> bm_nAlloc (valid p) > 0
                              then snd (writeStateFile (Some path) (pageSize p) (nData p) (bm_data (valid p))
                                          (bm_nAlloc (valid p)) e)
                              else e);
                         e = snd (writeEtagFile (Some path) (etag p) e)
                     in if snapshot p \<noteq> [] then snd (writeSnapshotFile (Some path) (snapshot p) e) else e
                   else unlinkStateFile (Some path) (unlinkSnapshotFile (Some path)
                          (unlinkEtagFile (Some path) (sys_unlink path e))))
          in (p\<lparr>zCachePath := None\<rparr>, e))"

definition sqliteObjsClose :: "'w sqliteObjsFile \<Rightarrow> 'w env \<Rightarrow> sqlite_rc \<times> 'w sqliteObjsFile \<times> 'w env" where
  "sqliteObjsClose p e =
     (case close_flush p e of (rc, p, e) \<Rightarrow>
      case close_refresh_etag rc p e of (p, e) \<Rightarrow>
      case close_release p e of (p, e) \<Rightarrow>
      case close_cache p e of (p, e) \<Rightarrow>
      (rc,
       p\<lparr>dirty := bitmapFree (dirty p), valid := bitmapFree (valid p), aJrnlData := None, aWalData := None,
         zBlobName := None, ownClient := None, pMethod := False\<rparr>, e))"

section \<open>Registration\<close>

text \<open>\<^verbatim>\<open>sqlite_objs_config_t\<close>. The second component of a result is the
  structure size the VFS announces (\<^verbatim>\<open>szOsFile\<close>), given the sizes of both file structures.\<close>

record 'w sqlite_objs_config =
  oc_client :: azure_client_config
  oc_ops :: "'w azure_ops option"

definition sqlite_objs_vfs_register_with_config ::
  "'w host \<Rightarrow> int \<Rightarrow> 'w sqlite_objs_config \<Rightarrow> 'w env \<Rightarrow> sqlite_rc \<times> int option \<times> 'w env" where
  "sqlite_objs_vfs_register_with_config h ourSize config e =
     (case find_default_vfs h of
        None \<Rightarrow> (SQLITE_ERROR, None, e)
      | Some defaultSize \<Rightarrow>
          let vd = vfs_data_zero; szOsFile = (if defaultSize < ourSize then ourSize else defaultSize) in
          if \<not> mutex_init_ok h then (SQLITE_ERROR, None, e\<lparr>vfs_data := vd\<rparr>)
          else case oc_ops config of
            Some az \<Rightarrow> (vfs_register_rc h, Some szOsFile, e\<lparr>vfs_data := vd\<lparr>vd_ops := Some az\<rparr>\<rparr>)
          | None \<Rightarrow>
              (case client_create h (oc_client config) of (arc, aerr, az) \<Rightarrow>
               if arc \<noteq> AZURE_OK
               then (SQLITE_ERROR, None,
                     e\<lparr>vfs_data := vd\<lparr>vd_lastError :=
                         take 255 (''Failed to create Azure client: '' @ err_error_message aerr)\<rparr>\<rparr>)
               else (vfs_register_rc h, Some szOsFile,
                     e\<lparr>vfs_data := vd\<lparr>vd_client := Some (oc_client config), vd_ops := Some az\<rparr>\<rparr>)))"

definition sqlite_objs_vfs_register :: "'w host \<Rightarrow> int \<Rightarrow> 'w env \<Rightarrow> sqlite_rc \<times> int option \<times> 'w env" where
  "sqlite_objs_vfs_register h ourSize e =
     (let account = getenv h ''AZURE_STORAGE_ACCOUNT''; container = getenv h ''AZURE_STORAGE_CONTAINER'';
          sas = getenv h ''AZURE_STORAGE_SAS''; key = getenv h ''AZURE_STORAGE_KEY'' in
      if account = None \<or> container = None then (SQLITE_ERROR, None, e)
      else if sas = None \<and> key = None then (SQLITE_ERROR, None, e)
      else sqlite_objs_vfs_register_with_config h ourSize
             \<lparr>oc_client = \<lparr>cfg_account = account, cfg_container = container, cfg_sas_token = sas,
                          cfg_account_key = key, cfg_endpoint = None\<rparr>, oc_ops = None\<rparr> e)"

definition no_client :: azure_client_config where
  "no_client = \<lparr>cfg_account = None, cfg_container = None, cfg_sas_token = None, cfg_account_key = None,
                cfg_endpoint = None\<rparr>"

definition sqlite_objs_vfs_register_with_ops ::
  "'w host \<Rightarrow> int \<Rightarrow> 'w azure_ops option \<Rightarrow> 'w env \<Rightarrow> sqlite_rc \<times> int option \<times> 'w env" where
  "sqlite_objs_vfs_register_with_ops h ourSize az e =
     sqlite_objs_vfs_register_with_config h ourSize \<lparr>oc_client = no_client, oc_ops = az\<rparr> e"

definition sqlite_objs_vfs_register_uri :: "'w host \<Rightarrow> int \<Rightarrow> 'w env \<Rightarrow> sqlite_rc \<times> int option \<times> 'w env" where
  "sqlite_objs_vfs_register_uri h ourSize e =
     (case find_default_vfs h of
        None \<Rightarrow> (SQLITE_ERROR, None, e)
      | Some defaultSize \<Rightarrow>
          if \<not> mutex_init_ok h then (SQLITE_ERROR, None, e\<lparr>vfs_data := vfs_data_zero\<rparr>)
          else (vfs_register_rc h, Some (if defaultSize < ourSize then ourSize else defaultSize),
                e\<lparr>vfs_data := vfs_data_zero\<rparr>))"

end
