(* ===== verification/Recovery.thy ===== *)
theory Recovery
  imports Vfs_Open Mock_Azure
begin

text \<open>
  Journals across processes: a rollback journal that one process uploaded by \<^verbatim>\<open>xSync\<close> and another
  one opens by \<^verbatim>\<open>xOpen\<close>. The locale \<open>journal_store\<close> states what both methods rely on of the
  container, and the mock backend is its interpretation. The theory holds no model of code of its own.
\<close>

section \<open>Journals as blobs\<close>

lemma bufferEnsure_fresh:
  assumes "no_faults e" and "0 < n" and "n < 4611686018427387904"
  shows "\<exists>a. bufferEnsure None 0 n e = Some (SQLITE_OK, Some (replicate (nat a) 0), a, e) \<and> n \<le> a \<and> a < 9223372036854775808"
proof -
  obtain a where "alloc_loop SQLITE_OBJS_INITIAL_ALLOC n = Some (Some a)" "n \<le> a" "a < 9223372036854775808"
    using alloc_loop_total [of SQLITE_OBJS_INITIAL_ALLOC n] assms(3) by auto
  then show ?thesis using assms by (auto simp: bufferEnsure_def malloc_ok Let_def)
qed

text \<open>The interface a journal relies on: what was uploaded under a name is found and downloaded again.\<close>

locale journal_store =
  fixes store :: "'w azure_ops" and stored :: "'w \<Rightarrow> string \<Rightarrow> bytes option" and calm :: "'w \<Rightarrow> bool" and fits :: "string \<Rightarrow> bool"
  assumes upload_law: "\<exists>up. block_blob_upload store = Some up \<and>
      (\<forall>z d w err w'. fits z \<longrightarrow> up z d w = (AZURE_OK, err, w') \<longrightarrow> stored w' z = Some d)"
    and probe_law: "stored w z = Some d \<Longrightarrow> calm w \<Longrightarrow>
      \<exists>ex err w'. blob_exists store = Some ex \<and> ex z w = (AZURE_OK, True, err, w') \<and> stored w' z = Some d \<and> calm w'"
    and download_law: "stored w z = Some d \<Longrightarrow> calm w \<Longrightarrow>
      \<exists>dl err w'. block_blob_download store = Some dl \<and> dl z w = (AZURE_OK, d, err, w')"
begin

lemma sync_stores:
  assumes "sqliteObjsSync p e = (SQLITE_OK, p', e')" and "jrnl_inv p e" and "ops p = Some store" and "0 < nJrnlData p" and "fits (blob p)"
  shows "stored (remote e') (blob p) = Some (jrnl_view p e)"
proof -
  obtain up where up: "block_blob_upload store = Some up"
      "\<And>z d w err w'. fits z \<Longrightarrow> up z d w = (AZURE_OK, err, w') \<Longrightarrow> stored w' z = Some d"
    using upload_law by blast
  define d where "d = heap_prefix (aJrnlData p) (nJrnlData p)"
  have d: "d = jrnl_view p e" by (simp add: d_def heap_prefix_def jrnl_view_def heap_view_def buf_bytes_def split: option.splits)
  obtain arc err w where c: "up (blob p) d (remote e) = (arc, err, w)" by (rule prod_cases3)
  have "arc = AZURE_OK" "remote e' = w"
    using assms(1-4) up(1) c by (auto simp: sqliteObjsSync_def jrnl_inv_def sync_journal_def do_azure_def d_def [symmetric] Let_def split: if_splits)
  with up(2) [OF assms(5)] c d show ?thesis by simp
qed

lemma open_recovers:
  assumes "stored (remote e) z = Some d" and "calm (remote e)" and "no_faults e" and "d \<noteq> []" and "int (length d) < 4611686018427387904"
    and "journalCache (vfs_data e) = []" and "ops q = Some store"
  shows "\<exists>q' e'. open_journal z q e = Some (SQLITE_OK, q', e') \<and> heap_view (aJrnlData q') (nJrnlData q') = d \<and>
    heap_file (aJrnlData q') (nJrnlData q') (nJrnlAlloc q') \<and> eFileType q' = eFileType q"
proof -
  define q0 where "q0 = q\<lparr>nJrnlData := 0, nJrnlAlloc := 0, aJrnlData := None\<rparr>"
  obtain jce vd where g: "journalCacheGetOrCreate (vfs_data e) z = (jce, vd)" by (cases "journalCacheGetOrCreate (vfs_data e) z")
  have st: "(case jce of None \<Rightarrow> -1 | Some i \<Rightarrow> jc_state (journalCache vd ! i)) = -1"
    using g assms(6) by (auto simp: journalCacheGetOrCreate_def journalCacheFind_def split: if_splits)
  obtain ex err w1 where ex: "blob_exists store = Some ex" "ex z (remote e) = (AZURE_OK, True, err, w1)" "stored w1 z = Some d" "calm w1"
    using probe_law [OF assms(1,2)] by blast
  obtain dl err2 w2 where dl: "block_blob_download store = Some dl" "dl z w1 = (AZURE_OK, d, err2, w2)" using download_law [OF ex(3,4)] by blast
  define e1 where "e1 = (case jce of None \<Rightarrow> e\<lparr>vfs_data := vd, remote := w1\<rparr>
      | Some i \<Rightarrow> e\<lparr>vfs_data := jc_set_state i 1 vd, remote := w1\<rparr>)"
  define e2 where "e2 = e1\<lparr>remote := w2\<rparr>"
  have nf: "no_faults e2" using assms(3) by (simp add: e2_def e1_def no_faults_def split: option.splits)
  obtain a where a: "bufferEnsure None 0 (int (length d)) e2 = Some (SQLITE_OK, Some (replicate (nat a) 0), a, e2)" "int (length d) \<le> a" "a < 9223372036854775808"
    using bufferEnsure_fresh [OF nf, of "int (length d)"] assms(4,5) by auto
  define q' where "q' = q0\<lparr>aJrnlData := heap_write (Some (replicate (nat a) 0)) 0 d, nJrnlAlloc := a, nJrnlData := int (length d)\<rparr>"
  have "open_journal z q e = Some (SQLITE_OK, q', e2)"
    using st ex(1,2) dl assms(4,7) a(1) unfolding open_journal_def Let_def g prod.case
    by (cases jce) (simp_all add: call_azure_def jrnlBufferEnsure_def e1_def e2_def q'_def q0_def)
  moreover have "heap_view (aJrnlData q') (nJrnlData q') = d" "heap_file (aJrnlData q') (nJrnlData q') (nJrnlAlloc q')"
  proof -
    have w: "aJrnlData q' = Some (put (replicate (nat a) 0) 0 d)" "nJrnlData q' = int (length d)" "nJrnlAlloc q' = a"
      by (simp_all add: q'_def heap_write_def)
    show "heap_view (aJrnlData q') (nJrnlData q') = d" by (simp add: w heap_view_def buf_bytes_def put_def)
    have "byte_at (put (replicate (nat a) 0) 0 d) i = 0" if "length d \<le> i" for i using that by (simp add: byte_at_put)
    then show "heap_file (aJrnlData q') (nJrnlData q') (nJrnlAlloc q')"
      using a(2,3) by (simp add: w heap_file_def buf_wf_def buf_bytes_def)
  qed
  moreover have "eFileType q' = eFileType q" by (simp add: q'_def q0_def)
  ultimately show ?thesis by blast
qed

end

definition mock_journal :: "mock \<Rightarrow> string \<Rightarrow> bytes option" where
  "mock_journal ctx name =
     (case find_blob ctx name of
        None \<Rightarrow> None
      | Some i \<Rightarrow> if mb_type (blob_at ctx i) = BLOB_TYPE_BLOCK
                   then Some (take (nat (mb_size (blob_at ctx i))) (mb_data (blob_at ctx i))) else None)"

lemma find_from_append: "find_from k bs n = None \<Longrightarrow> mb_name b = n \<Longrightarrow> find_from k (bs @ [b]) n = Some (k + length bs)"
  by (induction k bs n rule: find_from.induct) (auto split: if_splits)

lemma mock_upload_stores:
  assumes "mock_upload oper z d w = (AZURE_OK, err, w')" and "length z \<le> 255"
  shows "mock_journal w' z = Some d"
proof -
  obtain rc e1 w1 where 1: "pre_call oper w = (rc, e1, w1)" by (rule prod_cases3)
  obtain i w2 where i: "find_blob w2 z = Some i" and w': "\<exists>er b. set_etag e1 (bump_etag ((blob_at w2 i)\<lparr>mb_data := d, mb_size := int (length d),
      mb_type := BLOB_TYPE_BLOCK\<rparr>)) = (er, b) \<and> w' = put_blob i b w2"
  proof (cases "find_blob w1 z")
    case (Some i)
    then show thesis using assms(1) 1 that [of w1 i] by (auto simp: mock_upload_def split: if_splits prod.splits)
  next
    case None
    then have "find_from 0 (mk_blobs w1 @ [new_blob z BLOB_TYPE_BLOCK]) z = Some (length (mk_blobs w1))"
      using find_from_append [of 0 "mk_blobs w1" z "new_blob z BLOB_TYPE_BLOCK"] assms(2) by (simp add: find_blob_def new_blob_def)
    then have "find_blob (w1\<lparr>mk_blobs := mk_blobs w1 @ [new_blob z BLOB_TYPE_BLOCK]\<rparr>) z = Some (length (mk_blobs w1))"
      by (simp add: find_blob_def)
    from that [OF this] show thesis using assms(1) 1 None
      by (auto simp: mock_upload_def create_blob_def split: if_splits prod.splits)
  qed
  then obtain er b where b: "set_etag e1 (bump_etag ((blob_at w2 i)\<lparr>mb_data := d, mb_size := int (length d), mb_type := BLOB_TYPE_BLOCK\<rparr>)) = (er, b)"
    "w' = put_blob i b w2" by blast
  note bf = set_etag_fields [OF b(1)]
  have "find_blob w' z = Some i" using find_put_blob [OF i, of b z] bf(1) i b(2) by simp
  moreover have "blob_at w' i = b" using blob_at_put [OF find_blob_index [OF i]] b(2) by simp
  ultimately show ?thesis using bf by (simp add: mock_journal_def)
qed

interpretation mock_journals: journal_store mock_ops mock_journal "\<lambda>w. mk_fail_rules w = []" "\<lambda>z. length z \<le> 255"
proof
  show "\<exists>up. block_blob_upload mock_ops = Some up \<and>
      (\<forall>z d w err w'. length z \<le> 255 \<longrightarrow> up z d w = (AZURE_OK, err, w') \<longrightarrow> mock_journal w' z = Some d)"
    using mock_upload_stores by (auto simp: mock_ops_def mock_block_blob_upload_def)
next
  fix w :: mock and z d assume s: "mock_journal w z = Some d" and c: "mk_fail_rules w = []"
  obtain rc e1 w1 where 1: "pre_call OP_BLOB_EXISTS w = (rc, e1, w1)" by (rule prod_cases3)
  note fr = pre_call_frame [OF 1]
  have "find_blob w z \<noteq> None" using s by (auto simp: mock_journal_def split: option.splits)
  then have "mock_blob_exists z w = (AZURE_OK, True, e1, w1)" using 1 fr(3,7) c by (auto simp: mock_blob_exists_def)
  moreover have "mock_journal w1 z = Some d" using s unfolding mock_journal_def fr(3,4) .
  moreover have "mk_fail_rules w1 = []" using fr(7) c by simp
  ultimately show "\<exists>ex err w'. blob_exists mock_ops = Some ex \<and> ex z w = (AZURE_OK, True, err, w') \<and> mock_journal w' z = Some d \<and>
      mk_fail_rules w' = []" by (simp add: mock_ops_def)
next
  fix w :: mock and z d assume s: "mock_journal w z = Some d" and c: "mk_fail_rules w = []"
  obtain rc e1 w1 where 1: "pre_call OP_BLOCK_BLOB_DOWNLOAD w = (rc, e1, w1)" by (rule prod_cases3)
  note fr = pre_call_frame [OF 1]
  have "mock_block_blob_download z w = (AZURE_OK, d, e1, w1)"
    using 1 fr(3,4,7) c s by (auto simp: mock_block_blob_download_def mock_journal_def Let_def split: option.splits if_splits)
  then show "\<exists>dl err w'. block_blob_download mock_ops = Some dl \<and> dl z w = (AZURE_OK, d, err, w')" by (simp add: mock_ops_def)
qed

section \<open>Crash recovery\<close>

text \<open>A process that opens the journal \<open>z\<close> through the client of the VFS.\<close>

definition opens_journal :: "'w host \<Rightarrow> string \<Rightarrow> open_flags \<Rightarrow> 'w azure_ops \<Rightarrow> 'w env \<Rightarrow> bool" where
  "opens_journal h z fl az e \<longleftrightarrow> z \<noteq> [] \<and> of_main_journal fl \<and> \<not> of_main_db fl \<and> \<not> of_wal fl \<and>
     sqlite_objs_parse_uri_config h z = None \<and> vd_ops (vfs_data e) = Some az \<and> journalCache (vfs_data e) = [] \<and> no_faults e"

lemma open_journal_file:
  assumes "opens_journal h z fl az e"
  shows "sqliteObjsOpen h (Some z) fl e =
    Azure (case open_journal z (open_init h z fl (file_zero\<lparr>zBlobName := Some z, ops := Some az\<rparr>)) e of
        None \<Rightarrow> None
      | Some (rc, p, e) \<Rightarrow> if rc \<noteq> SQLITE_OK then Some (rc, p, e) else Some (SQLITE_OK, p\<lparr>pMethod := True\<rparr>, e))"
  using assms by (simp add: opens_journal_def sqliteObjsOpen_def malloc_ok open_client_def Let_def)

text \<open>C9 A rollback journal survives a crash: after a successful sync of the journal, a new process that opens it gets
  a file with exactly the bytes the crashed process had written.\<close>

theorem synced_journal_is_recovered:
  assumes "sqliteObjsSync p e = (SQLITE_OK, p', e')" and "jrnl_inv p e" and "ops p = Some mock_ops" and "blob p = z" and "length z \<le> 255"
    and "0 < nJrnlData p" and "nJrnlData p < 4611686018427387904"
    and "opens_journal h z fl mock_ops e2" and "remote e2 = remote e'" and "mk_fail_rules (remote e') = []"
  shows "\<exists>q e3. sqliteObjsOpen h (Some z) fl e2 = Azure (Some (SQLITE_OK, q, e3)) \<and> pMethod q \<and> jrnl_inv q e3 \<and>
    jrnl_view q e3 = jrnl_view p e"
proof -
  have s: "mock_journal (remote e2) z = Some (jrnl_view p e)"
    using mock_journals.sync_stores [OF assms(1-3,6)] assms(4,5,9) by simp
  have "int (length (jrnl_view p e)) = nJrnlData p"
    using assms(2,6) by (auto simp: jrnl_inv_def heap_file_def jrnl_view_def heap_view_def buf_wf_def buf_bytes_def split: option.splits)
  then have len: "jrnl_view p e \<noteq> []" "int (length (jrnl_view p e)) < 4611686018427387904" using assms(6,7) by auto
  have o: "no_faults e2" "journalCache (vfs_data e2) = []" using assms(8) by (simp_all add: opens_journal_def)
  define q0 where "q0 = open_init h z fl (file_zero\<lparr>zBlobName := Some z, ops := Some mock_ops\<rparr>)"
  have q0: "ops q0 = Some mock_ops" by (simp add: q0_def open_init_def)
  obtain q e3 where r: "open_journal z q0 e2 = Some (SQLITE_OK, q, e3)" "heap_view (aJrnlData q) (nJrnlData q) = jrnl_view p e"
      "heap_file (aJrnlData q) (nJrnlData q) (nJrnlAlloc q)" "eFileType q = eFileType q0"
    using mock_journals.open_recovers [OF s _ o(1) len o(2) q0] assms(9,10) by auto
  have "eFileType q0 = MAIN_JOURNAL" using assms(8) by (simp add: q0_def open_init_def opens_journal_def)
  then show ?thesis using open_journal_file [OF assms(8)] r by (simp add: q0_def [symmetric] jrnl_inv_def jrnl_view_def)
qed

definition quiet_host :: "mock host" where
  "quiet_host = \<lparr>uri_parameter = (\<lambda>_ _. None), uri_boolean = (\<lambda>_ _ b. b), database_file_object = (\<lambda>_. None),
     client_create = (\<lambda>_. (AZURE_ERR_INVALID_ARG, azure_error_init, mock_ops)), find_default_vfs = None, mutex_init_ok = True, vfs_register_rc = SQLITE_OK,
     getenv = (\<lambda>_. None)\<rparr>"

definition journal_flags :: open_flags where
  "journal_flags = \<lparr>of_main_db = False, of_main_journal = True, of_wal = False, of_create = True\<rparr>"

definition crashed_journal :: "mock sqliteObjsFile" where
  "crashed_journal = file_zero\<lparr>pMethod := True, eFileType := MAIN_JOURNAL, ops := Some mock_ops, zBlobName := Some ''a-journal'',
     aJrnlData := Some [1, 2, 3], nJrnlData := 3, nJrnlAlloc := 3\<rparr>"

definition process_start :: "mock \<Rightarrow> mock env" where
  "process_start w = (env_start w)\<lparr>vfs_data := vfs_data_zero\<lparr>vd_ops := Some mock_ops\<rparr>\<rparr>"

lemma process_opens: "opens_journal quiet_host ''a-journal'' journal_flags mock_ops (process_start w)"
  by (simp add: opens_journal_def journal_flags_def quiet_host_def sqlite_objs_parse_uri_config_def process_start_def env_start_def
      vfs_data_zero_def no_faults_def)

theorem synced_journal_is_recovered_witness:
  "\<exists>p' e' q e3. sqliteObjsSync crashed_journal (process_start mock_azure_create) = (SQLITE_OK, p', e') \<and>
     sqliteObjsOpen quiet_host (Some ''a-journal'') journal_flags (process_start (remote e')) = Azure (Some (SQLITE_OK, q, e3)) \<and>
     jrnl_view q e3 = [1, 2, 3]"
proof -
  obtain rc p' e' where s: "sqliteObjsSync crashed_journal (process_start mock_azure_create) = (rc, p', e')" by (rule prod_cases3)
  have "fst (sqliteObjsSync crashed_journal (process_start mock_azure_create)) = SQLITE_OK"
      "mk_fail_rules (remote (snd (snd (sqliteObjsSync crashed_journal (process_start mock_azure_create))))) = []"
    by code_simp+
  then have o: "rc = SQLITE_OK" "mk_fail_rules (remote e') = []" by (simp_all add: s)
  have c: "jrnl_inv crashed_journal (process_start mock_azure_create)" "ops crashed_journal = Some mock_ops" "blob crashed_journal = ''a-journal''"
      "nJrnlData crashed_journal = 3" "jrnl_view crashed_journal (process_start mock_azure_create) = [1, 2, 3]"
    by (simp_all add: crashed_journal_def jrnl_inv_def heap_file_def buf_wf_def buf_bytes_def byte_at_def blob_def jrnl_view_def heap_view_def)
  show ?thesis
    using synced_journal_is_recovered [OF s [unfolded o(1)] c(1-3) _ _ _ process_opens, of "remote e'"] s o c(4,5)
    by (auto simp: process_start_def env_start_def)
qed

text \<open>C40 A failed existence check hides a hot journal: if the request of \<^verbatim>\<open>xOpen\<close> fails, the journal opens as an empty file
  without an error, the failure is cached as \<^emph>\<open>does not exist\<close>, and from then on \<^verbatim>\<open>xAccess\<close> denies the journal without
  asking again, whatever the container holds.\<close>

theorem failed_probe_hides_journal:
  assumes "opens_journal h z fl az e" and "hd z \<noteq> CHR ''/''" and "length z < 512"
    and "blob_exists az = Some ex" and "ex z (remote e) = (arc, False, err, w)" and "arc \<noteq> AZURE_OK"
  shows "\<exists>q e'. sqliteObjsOpen h (Some z) fl e = Azure (Some (SQLITE_OK, q, e')) \<and> nJrnlData q = 0 \<and> remote e' = w \<and>
    sqliteObjsAccess h (Some z) ACCESS_EXISTS e' = Azure (SQLITE_OK, 0, e')"
proof -
  have o: "z \<noteq> []" "vd_ops (vfs_data e) = Some az" "journalCache (vfs_data e) = []" using assms(1) by (simp_all add: opens_journal_def)
  define q0 where "q0 = open_init h z fl (file_zero\<lparr>zBlobName := Some z, ops := Some az\<rparr>)"
  have q0: "ops q0 = Some az" by (simp add: q0_def open_init_def)
  define e' where "e' = e\<lparr>vfs_data := (vfs_data e)\<lparr>journalCache := [\<lparr>jc_state = 0, jc_zBlobName = z\<rparr>]\<rparr>, remote := w\<rparr>"
  have g: "journalCacheGetOrCreate (vfs_data e) z = (Some 0, (vfs_data e)\<lparr>journalCache := [\<lparr>jc_state = -1, jc_zBlobName = z\<rparr>]\<rparr>)"
    using o(3) assms(3) by (simp add: journalCacheGetOrCreate_def journalCacheFind_def)
  have "open_journal z q0 e = Some (SQLITE_OK, q0\<lparr>nJrnlData := 0, nJrnlAlloc := 0, aJrnlData := None\<rparr>, e')"
    unfolding open_journal_def Let_def g prod.case
    using q0 assms(4,5) by (simp add: call_azure_def jc_set_state_def e'_def)
  moreover have "sqliteObjsAccess h (Some z) ACCESS_EXISTS e' = Azure (SQLITE_OK, 0, e')"
    using o assms(2,4)
    by (cases z) (simp_all add: sqliteObjsAccess_def sqliteObjsIsAzurePath_def resolveOps_def e'_def journal_state_def journalCacheFind_def
        access_result_def)
  ultimately show ?thesis using open_journal_file [OF assms(1)] by (simp add: q0_def [symmetric] e'_def)
qed

text \<open>A container that holds the journal and fails one existence check.\<close>

definition flaky_mock :: mock where
  "flaky_mock = mock_azure_create\<lparr>
     mk_blobs := [(new_blob ''a-journal'' BLOB_TYPE_BLOCK)\<lparr>mb_data := [1, 2, 3], mb_size := 3\<rparr>],
     mk_fail_rules := [\<lparr>fr_call_number = 0, fr_op_call_number = 1, fr_op = OP_BLOB_EXISTS, fr_error_code = AZURE_ERR_NETWORK, fr_active = True\<rparr>]\<rparr>"

theorem failed_probe_hides_journal_witness:
  "mock_journal flaky_mock ''a-journal'' = Some [1, 2, 3] \<and>
   (\<exists>q e'. sqliteObjsOpen quiet_host (Some ''a-journal'') journal_flags (process_start flaky_mock) = Azure (Some (SQLITE_OK, q, e')) \<and>
      nJrnlData q = 0 \<and> sqliteObjsAccess quiet_host (Some ''a-journal'') ACCESS_EXISTS e' = Azure (SQLITE_OK, 0, e'))"
proof -
  obtain arc b err w where c: "mock_blob_exists ''a-journal'' flaky_mock = (arc, b, err, w)" by (rule prod_cases4)
  have "fst (mock_blob_exists ''a-journal'' flaky_mock) = AZURE_ERR_NETWORK" "\<not> fst (snd (mock_blob_exists ''a-journal'' flaky_mock))"
      "mock_journal flaky_mock ''a-journal'' = Some [1, 2, 3]"
    by code_simp+
  then have "arc = AZURE_ERR_NETWORK" "\<not> b" "mock_journal flaky_mock ''a-journal'' = Some [1, 2, 3]" by (simp_all add: c)
  then show ?thesis
    using failed_probe_hides_journal [OF process_opens, of mock_blob_exists flaky_mock arc err w] c
    by (auto simp: mock_ops_def process_start_def env_start_def)
qed

end
