(* ===== verification/Mock_Control.thy ===== *)
theory Mock_Control
  imports Mock_Azure
begin

text \<open>
  The interface of \<^verbatim>\<open>test/mock_azure_ops.c\<close> to the tests: resetting the mock, injecting failures by call number or by operation,
  the call counters, the inspection of blobs and leases, the records of writes, and the simulated clock. A context is never
  \<^verbatim>\<open>NULL\<close> here. The inspection of a lease drops it when it has expired, so it returns the context too. A pointer to the data of a
  blob is the contents of its buffer.
\<close>

section \<open>Operation names\<close>

definition op_names :: "(string \<times> mock_op) list" where
  "op_names =
     [(''page_blob_create'', OP_PAGE_BLOB_CREATE), (''page_blob_write'', OP_PAGE_BLOB_WRITE), (''page_blob_read'', OP_PAGE_BLOB_READ),
      (''page_blob_resize'', OP_PAGE_BLOB_RESIZE), (''block_blob_upload'', OP_BLOCK_BLOB_UPLOAD),
      (''block_blob_download'', OP_BLOCK_BLOB_DOWNLOAD), (''blob_get_properties'', OP_BLOB_GET_PROPERTIES),
      (''blob_delete'', OP_BLOB_DELETE), (''blob_exists'', OP_BLOB_EXISTS), (''lease_acquire'', OP_LEASE_ACQUIRE),
      (''lease_renew'', OP_LEASE_RENEW), (''lease_release'', OP_LEASE_RELEASE), (''lease_break'', OP_LEASE_BREAK),
      (''append_blob_create'', OP_APPEND_BLOB_CREATE), (''append_blob_append'', OP_APPEND_BLOB_APPEND),
      (''append_blob_delete'', OP_APPEND_BLOB_DELETE), (''block_blob_upload_parallel'', OP_BLOCK_BLOB_UPLOAD_PARALLEL)]"

definition op_name_to_index :: "string \<Rightarrow> mock_op" where
  "op_name_to_index name = (case map_of op_names name of None \<Rightarrow> OP_COUNT | Some oper \<Rightarrow> oper)"

section \<open>Reset and failure injection\<close>

definition mock_reset :: "mock \<Rightarrow> mock" where
  "mock_reset ctx =
     ctx\<lparr>mk_blobs := [], mk_call_counts := (\<lambda>_. 0), mk_total_calls := 0, mk_fail_rules := [], mk_next_lease_num := 0,
         mk_write_records := [], mk_append_records := [], mk_time_offset := 0\<rparr>"

definition add_rule :: "fail_rule \<Rightarrow> mock \<Rightarrow> mock" where
  "add_rule r ctx = ctx\<lparr>mk_fail_rules := mk_fail_rules ctx @ [r]\<rparr>"

definition mock_set_fail_at :: "int \<Rightarrow> azure_err \<Rightarrow> mock \<Rightarrow> mock" where
  "mock_set_fail_at call_number error_code ctx =
     (if 32 \<le> length (mk_fail_rules ctx) then ctx
      else add_rule \<lparr>fr_call_number = call_number, fr_op_call_number = 0, fr_op = OP_COUNT, fr_error_code = error_code,
                     fr_active = True\<rparr> ctx)"

definition mock_set_fail_operation :: "string \<Rightarrow> azure_err \<Rightarrow> mock \<Rightarrow> mock" where
  "mock_set_fail_operation op_name error_code ctx =
     (if 32 \<le> length (mk_fail_rules ctx) then ctx
      else
        let idx = op_name_to_index op_name in
        if idx = OP_COUNT then ctx
        else add_rule \<lparr>fr_call_number = 0, fr_op_call_number = 0, fr_op = idx, fr_error_code = error_code, fr_active = True\<rparr> ctx)"

definition mock_set_fail_operation_at :: "string \<Rightarrow> int \<Rightarrow> azure_err \<Rightarrow> mock \<Rightarrow> mock" where
  "mock_set_fail_operation_at op_name op_call_number error_code ctx =
     (if 32 \<le> length (mk_fail_rules ctx) then ctx
      else
        let idx = op_name_to_index op_name in
        if idx = OP_COUNT then ctx
        else add_rule \<lparr>fr_call_number = 0, fr_op_call_number = op_call_number, fr_op = idx, fr_error_code = error_code,
                       fr_active = True\<rparr> ctx)"

definition mock_clear_failures :: "mock \<Rightarrow> mock" where
  "mock_clear_failures ctx = ctx\<lparr>mk_fail_rules := []\<rparr>"

section \<open>Counters and records\<close>

definition mock_get_call_count :: "mock \<Rightarrow> string \<Rightarrow> int" where
  "mock_get_call_count ctx op_name =
     (let idx = op_name_to_index op_name in if idx = OP_COUNT then 0 else mk_call_counts ctx idx)"

definition mock_get_total_call_count :: "mock \<Rightarrow> int" where
  "mock_get_total_call_count ctx = mk_total_calls ctx"

definition mock_reset_call_counts :: "mock \<Rightarrow> mock" where
  "mock_reset_call_counts ctx = ctx\<lparr>mk_call_counts := (\<lambda>_. 0), mk_total_calls := 0\<rparr>"

definition mock_get_write_record_count :: "mock \<Rightarrow> int" where
  "mock_get_write_record_count ctx = int (length (mk_write_records ctx))"

definition mock_get_write_record :: "mock \<Rightarrow> int \<Rightarrow> int \<times> int" where
  "mock_get_write_record ctx idx =
     (if idx < 0 \<or> int (length (mk_write_records ctx)) \<le> idx then (0, 0) else mk_write_records ctx ! nat idx)"

definition mock_clear_write_records :: "mock \<Rightarrow> mock" where
  "mock_clear_write_records ctx = ctx\<lparr>mk_write_records := []\<rparr>"

definition mock_get_append_record_count :: "mock \<Rightarrow> int" where
  "mock_get_append_record_count ctx = int (length (mk_append_records ctx))"

definition mock_get_append_record :: "mock \<Rightarrow> int \<Rightarrow> int" where
  "mock_get_append_record ctx idx =
     (if idx < 0 \<or> int (length (mk_append_records ctx)) \<le> idx then 0 else mk_append_records ctx ! nat idx)"

definition mock_clear_append_records :: "mock \<Rightarrow> mock" where
  "mock_clear_append_records ctx = ctx\<lparr>mk_append_records := []\<rparr>"

section \<open>Inspection\<close>

text \<open>The blob of a name, if it has the expected type.\<close>

definition typed_blob :: "blob_type \<Rightarrow> mock \<Rightarrow> string \<Rightarrow> mock_blob option" where
  "typed_blob ty ctx name =
     (case find_blob ctx name of
        None \<Rightarrow> None
      | Some i \<Rightarrow> if mb_type (blob_at ctx i) \<noteq> ty then None else Some (blob_at ctx i))"

definition mock_get_page_blob_data :: "mock \<Rightarrow> string \<Rightarrow> bytes option" where
  "mock_get_page_blob_data ctx name = map_option mb_data (typed_blob BLOB_TYPE_PAGE ctx name)"

definition mock_get_page_blob_size :: "mock \<Rightarrow> string \<Rightarrow> int" where
  "mock_get_page_blob_size ctx name = (case typed_blob BLOB_TYPE_PAGE ctx name of None \<Rightarrow> -1 | Some b \<Rightarrow> mb_size b)"

definition mock_get_block_blob_data :: "mock \<Rightarrow> string \<Rightarrow> bytes option" where
  "mock_get_block_blob_data ctx name = map_option mb_data (typed_blob BLOB_TYPE_BLOCK ctx name)"

definition mock_get_block_blob_size :: "mock \<Rightarrow> string \<Rightarrow> int" where
  "mock_get_block_blob_size ctx name = (case typed_blob BLOB_TYPE_BLOCK ctx name of None \<Rightarrow> -1 | Some b \<Rightarrow> mb_size b)"

definition mock_get_append_data :: "mock \<Rightarrow> string \<Rightarrow> bytes option" where
  "mock_get_append_data ctx name = map_option mb_data (typed_blob BLOB_TYPE_APPEND ctx name)"

definition mock_get_append_size :: "mock \<Rightarrow> string \<Rightarrow> int" where
  "mock_get_append_size ctx name = (case typed_blob BLOB_TYPE_APPEND ctx name of None \<Rightarrow> -1 | Some b \<Rightarrow> mb_size b)"

definition mock_reset_append_data :: "string \<Rightarrow> mock \<Rightarrow> mock" where
  "mock_reset_append_data name ctx =
     (case find_blob ctx name of
        None \<Rightarrow> ctx
      | Some i \<Rightarrow> if mb_type (blob_at ctx i) \<noteq> BLOB_TYPE_APPEND then ctx else put_blob i ((blob_at ctx i)\<lparr>mb_size := 0\<rparr>) ctx)"

text \<open>The function the tests call \<^verbatim>\<open>mock_blob_exists\<close>; the entry of the vtable has that name here.\<close>

definition mock_blob_present :: "mock \<Rightarrow> string \<Rightarrow> bool" where
  "mock_blob_present ctx name \<longleftrightarrow> find_blob ctx name \<noteq> None"

definition drop_expired :: "nat \<Rightarrow> mock \<Rightarrow> mock" where
  "drop_expired i ctx = (if mock_lease_expired ctx (blob_at ctx i) then put_blob i (mock_clear_lease (blob_at ctx i)) ctx else ctx)"

definition mock_is_leased :: "string \<Rightarrow> mock \<Rightarrow> bool \<times> mock" where
  "mock_is_leased name ctx =
     (case find_blob ctx name of
        None \<Rightarrow> (False, ctx)
      | Some i \<Rightarrow> let ctx = drop_expired i ctx in (mb_lease_state (blob_at ctx i) = LEASE_LEASED, ctx))"

definition mock_get_lease_state :: "string \<Rightarrow> mock \<Rightarrow> mock_lease_state \<times> mock" where
  "mock_get_lease_state name ctx =
     (case find_blob ctx name of
        None \<Rightarrow> (LEASE_AVAILABLE, ctx)
      | Some i \<Rightarrow> let ctx = drop_expired i ctx in (mb_lease_state (blob_at ctx i), ctx))"

definition mock_get_lease_id :: "string \<Rightarrow> mock \<Rightarrow> string option \<times> mock" where
  "mock_get_lease_id name ctx =
     (case find_blob ctx name of
        None \<Rightarrow> (None, ctx)
      | Some i \<Rightarrow>
          let ctx = drop_expired i ctx in
          (if mb_lease_state (blob_at ctx i) \<noteq> LEASE_LEASED then None else Some (mb_lease_id (blob_at ctx i)), ctx))"

section \<open>Chaos injection\<close>

definition mock_chaos_clear_etag :: "string \<Rightarrow> mock \<Rightarrow> int \<times> mock" where
  "mock_chaos_clear_etag name ctx =
     (case find_blob ctx name of
        None \<Rightarrow> (-1, ctx)
      | Some i \<Rightarrow> (0, put_blob i ((blob_at ctx i)\<lparr>mb_omit_next_etag := True\<rparr>) ctx))"

definition mock_chaos_advance_time :: "int \<Rightarrow> mock \<Rightarrow> mock" where
  "mock_chaos_advance_time seconds ctx = ctx\<lparr>mk_time_offset := c_int (mk_time_offset ctx + seconds)\<rparr>"

definition mock_chaos_get_time_offset :: "mock \<Rightarrow> int" where
  "mock_chaos_get_time_offset ctx = mk_time_offset ctx"

definition mock_chaos_reset_time :: "mock \<Rightarrow> mock" where
  "mock_chaos_reset_time ctx = ctx\<lparr>mk_time_offset := 0\<rparr>"

section \<open>What the injection does\<close>

text \<open>A rule by overall call number hits exactly that call, whatever the operation, and once.\<close>

lemma fail_at_hits_once:
  assumes "mk_fail_rules ctx = []" and "0 < k" and "pre_call oper (mock_set_fail_at k ec ctx) = (rc, err, ctx')"
  shows "rc = (if mk_total_calls ctx + 1 = k then ec else AZURE_OK)"
    and "mk_total_calls ctx + 1 = k \<Longrightarrow> pre_call oper' ctx' = (rc', err', ctx'') \<Longrightarrow> rc' = AZURE_OK"
  using assms by (auto simp: mock_set_fail_at_def add_rule_def pre_call_def Let_def split: if_splits prod.splits)

text \<open>A rule by operation fails all of its calls and no other call.\<close>

lemma fail_operation_hits:
  assumes "mk_fail_rules ctx = []" and "op_name_to_index name = o1" and "o1 \<noteq> OP_COUNT"
    and "pre_call oper (mock_set_fail_operation name ec ctx) = (rc, err, ctx')"
  shows "rc = (if oper = o1 then ec else AZURE_OK) \<and> mk_fail_rules ctx' = mk_fail_rules (mock_set_fail_operation name ec ctx)"
  using assms by (auto simp: mock_set_fail_operation_def add_rule_def pre_call_def Let_def split: if_splits prod.splits)

text \<open>The inspection of a lease tells whether the next request for a lease will be refused because of it.\<close>

lemma is_leased_iff_acquire_refused:
  assumes "mk_fail_rules ctx = []" and "mock_is_leased name ctx = (b, ctx1)" and "mock_lease_acquire name n ctx = (rc, lid, err, ctx2)"
    and "find_blob ctx name = Some i" and "mb_lease_state (blob_at ctx i) \<noteq> LEASE_BREAKING"
  shows "b \<longleftrightarrow> rc = AZURE_ERR_CONFLICT" "\<not> b \<longleftrightarrow> rc = AZURE_OK \<and> lid \<noteq> None"
proof -
  obtain rc1 e1 w1 where 1: "pre_call OP_LEASE_ACQUIRE ctx = (rc1, e1, w1)" by (rule prod_cases3)
  note fr = pre_call_frame [OF 1]
  have rc1: "rc1 = AZURE_OK" using fr(7) assms(1) by simp
  have b: "b \<longleftrightarrow> mb_lease_state (blob_at ctx i) = LEASE_LEASED \<and> \<not> mock_lease_expired ctx (blob_at ctx i)"
    using assms(2,4) blob_at_put [OF find_blob_index [OF assms(4)]]
    by (auto simp: mock_is_leased_def drop_expired_def mock_clear_lease_def Let_def split: if_splits)
  show "b \<longleftrightarrow> rc = AZURE_ERR_CONFLICT" "\<not> b \<longleftrightarrow> rc = AZURE_OK \<and> lid \<noteq> None"
    using assms(3-5) 1 rc1 fr(3,4,8) unfolding b
    by (auto simp: mock_lease_acquire_def mock_clear_lease_def Let_def split: if_splits prod.splits)
qed

end
