(* ===== verification/Session.thy ===== *)
theory Session
  imports Durability Coherence Recovery Mock_Control
begin

text \<open>
  Whole sessions of a database file, from \<^verbatim>\<open>xOpen\<close> to \<^verbatim>\<open>xClose\<close>, over the mock backend: the composition of \<^verbatim>\<open>Vfs_Open\<close>,
  \<^verbatim>\<open>Locking\<close>, \<^verbatim>\<open>Main_Io\<close>, \<^verbatim>\<open>Sync\<close> and \<^verbatim>\<open>Mock_Azure\<close>. The state an open database starts in is \<open>opened\<close>; the locks lead from
  it to \<open>durable_ready\<close>, writes and sync to the committed contents, unlock and close back to a blob that nobody has leased, so
  that sessions of different processes compose.
\<close>

section \<open>Opening a database\<close>

text \<open>A page size that is read from a database header, and the default.\<close>

definition good_page_size :: "int \<Rightarrow> bool" where
  "good_page_size ps \<longleftrightarrow> 0 < ps \<and> 512 dvd ps \<and> ps dvd 4194304"

lemma and_pred_power:
  assumes "0 < n" and "n AND (n - 1) = (0 :: int)"
  shows "\<exists>k. n = 2 ^ k"
  using assms
proof (induction "nat n" arbitrary: n rule: less_induct)
  case less
  have r: "n AND (n - 1) = of_bool (odd n \<and> odd (n - 1)) + 2 * (n div 2 AND (n - 1) div 2)" by (rule and_int_rec)
  show ?case
  proof (cases "even n")
    case True
    then have d: "(n - 1) div 2 = n div 2 - 1" by presburger
    have "n div 2 AND (n div 2 - 1) = 0" using r less.prems(2) True by (simp add: d)
    moreover have n2: "0 < n div 2" "n div 2 < n" using True less.prems(1) by presburger+
    moreover have "nat (n div 2) < nat n" using n2 by linarith
    ultimately obtain k where "n div 2 = 2 ^ k" using less.hyps by blast
    then have "n = 2 ^ Suc k" using True by (metis dvd_mult_div_cancel power_Suc)
    then show ?thesis by blast
  next
    case False
    then have "(n - 1) div 2 = n div 2" by presburger
    then have "n div 2 = 0" using r less.prems(2) False by simp
    then have "n = 1" using False less.prems(1) by presburger
    then have "n = 2 ^ 0" by simp
    then show ?thesis by blast
  qed
qed

lemma pow2_page_size:
  assumes "512 \<le> ps" and "ps \<le> 65536" and "ps AND (ps - 1) = 0"
  shows "good_page_size ps"
proof -
  obtain k where k: "ps = 2 ^ k" using and_pred_power [of ps] assms by auto
  have "(2 :: int) ^ 9 \<le> 2 ^ k" "(2 :: int) ^ k \<le> 2 ^ 16" using assms(1,2) k by simp_all
  then have "9 \<le> k" "k \<le> 16" using power_increasing_iff [of "2 :: int" 9 k] power_increasing_iff [of "2 :: int" k 16] by simp_all
  then have "(2 :: int) ^ 9 dvd ps" "ps dvd 2 ^ 22" unfolding k by (intro le_imp_power_dvd; simp)+
  then show ?thesis using assms(1) by (simp add: good_page_size_def)
qed

lemma detectPageSize_good: "0 < detectPageSize d n \<Longrightarrow> good_page_size (detectPageSize d n)"
  by (auto simp: detectPageSize_def Let_def split: if_splits intro: pow2_page_size)

lemma detect_header_good:
  assumes "detect_header p e = (p', e')" and "no_faults e" and "good_page_size (pageSize p)"
  shows "\<exists>ps. p' = p\<lparr>pageSize := ps\<rparr> \<and> good_page_size ps \<and> e' = e"
proof -
  obtain nr h where r: "pread_fd (cacheFd p) 100 0 e = (nr, h, e)"
    using assms(2) by (cases "cacheFd p") (auto simp: pread_fd_def pread_ok)
  have "p' = (if nr = 100 \<and> 0 < detectPageSize h 100 then p\<lparr>pageSize := detectPageSize h 100\<rparr> else p)" "e' = e"
    using assms(1) r by (auto simp: detect_header_def Let_def)
  then show ?thesis using detectPageSize_good assms(3)
    by (intro exI [of _ "if nr = 100 \<and> 0 < detectPageSize h 100 then detectPageSize h 100 else pageSize p"]) auto
qed


text \<open>A process in which nothing fails locally: the next name for a temporary file is free, and the environment of the
  VFS points to the mock. The database is opened under the name \<open>z\<close> without options.\<close>

definition quiet_process :: "mock host \<Rightarrow> string \<Rightarrow> open_flags \<Rightarrow> mock env \<Rightarrow> bool" where
  "quiet_process h z fl e \<longleftrightarrow> z \<noteq> [] \<and> of_main_db fl \<and> \<not> of_main_journal fl \<and> \<not> of_wal fl \<and>
     sqlite_objs_parse_uri_config h z = None \<and> uri_parameter h z ''prefetch'' = None \<and> \<not> uri_boolean h z ''cache_reuse'' False \<and>
     vd_ops (vfs_data e) = Some mock_ops \<and> no_faults e \<and> ticks e = [] \<and>
     (\<exists>x xs. tmp_suffixes e = x # xs \<and> (\<forall>dir. fs e (dir @ ''/sqlite-objs-'' @ x) = None))"

text \<open>The largest file whose pages, of the smallest page size, still have a number in the bitmap.\<close>

definition db_limit :: int where
  "db_limit = 2147483639 * 512"

text \<open>The container holds the page blob \<open>z\<close> with the bytes \<open>c\<close>, and fails nothing.\<close>

definition serves_db :: "mock \<Rightarrow> string \<Rightarrow> bytes \<Rightarrow> bool" where
  "serves_db w z c \<longleftrightarrow> mock_content w z = Some c \<and> mock_ok w \<and> mk_fail_rules w = [] \<and> tells_etag w z \<and>
     512 dvd int (length c) \<and> int (length c) \<le> db_limit"

lemma buildCacheTemplate_quiet:
  assumes "no_faults e"
  shows "\<exists>dir. buildCacheTemplate d e = (Some (dir @ ''/sqlite-objs-XXXXXX''), e)"
proof (cases "case d of None \<Rightarrow> [] | Some d \<Rightarrow> d")
  case Nil
  then show ?thesis using assms by (intro exI [of _ "''/tmp''"]) (simp add: buildCacheTemplate_def malloc_ok)
qed (use assms in \<open>auto simp: buildCacheTemplate_def malloc_ok Let_def\<close>)

lemma open_mkstemp_quiet:
  assumes "no_faults e" and "tmp_suffixes e = x # xs" and "\<forall>dir. fs e (dir @ ''/sqlite-objs-'' @ x) = None"
  shows "\<exists>path. open_mkstemp h z p e =
    (Cache_download, p\<lparr>cacheFd := Some path, zCachePath := Some path\<rparr>, set_file path [] (e\<lparr>tmp_suffixes := xs\<rparr>))"
proof -
  obtain dir where t: "buildCacheTemplate (uri_parameter h z ''cache_dir'') e = (Some (dir @ ''/sqlite-objs-XXXXXX''), e)"
    using buildCacheTemplate_quiet [OF assms(1)] by blast
  have "sys_mkstemp (dir @ ''/sqlite-objs-XXXXXX'') e =
      (Some (dir @ ''/sqlite-objs-'' @ x), set_file (dir @ ''/sqlite-objs-'' @ x) [] (e\<lparr>tmp_suffixes := xs\<rparr>))"
    using assms by (simp add: sys_mkstemp_def next_io_no_faults Let_def)
  then show ?thesis by (auto simp: open_mkstemp_def t)
qed

text \<open>Nobody holds a lease on the blob.\<close>

definition lease_free :: "mock \<Rightarrow> string \<Rightarrow> bool" where
  "lease_free w z \<longleftrightarrow>
     (case find_blob w z of
        None \<Rightarrow> False
      | Some i \<Rightarrow> mb_lease_state (blob_at w i) = LEASE_AVAILABLE \<or> mock_lease_expired w (blob_at w i))"

text \<open>A call that leaves the blob as it is and does not lease it.\<close>

definition calm :: "string \<Rightarrow> mock \<Rightarrow> mock \<Rightarrow> bool" where
  "calm z w w' \<longleftrightarrow> same_blob z w w' \<and> mk_fail_rules w' = [] \<and> (lease_free w z \<longrightarrow> lease_free w' z)"

lemma calm_trans: "calm z w1 w2 \<Longrightarrow> calm z w2 w3 \<Longrightarrow> calm z w1 w3"
  by (auto simp: calm_def dest: same_blob_trans)

lemma calm_serves: "calm z w w' \<Longrightarrow> serves_db w z c \<Longrightarrow> serves_db w' z c"
  by (simp add: calm_def serves_db_def same_blob_def)

lemma calm_etag: "calm z w w' \<Longrightarrow> mock_etag w' z = mock_etag w z"
  by (simp add: calm_def same_blob_def)

lemma calm_pre:
  assumes "pre_call oper w = (rc, err, w')" and "mk_fail_rules w = []"
  shows "rc = AZURE_OK" "calm z w w'"
  using pre_call_frame [OF assms(1)] assms(2) by (simp_all add: calm_def same_blob_blobs lease_free_def split: option.split)

lemma serves_find:
  assumes "serves_db w z c"
  obtains i where "find_blob w z = Some i" "mb_type (blob_at w i) = BLOB_TYPE_PAGE" "mb_size (blob_at w i) = int (length c)"
    "c = take (nat (mb_size (blob_at w i))) (mb_data (blob_at w i))"
proof -
  obtain i where i: "find_blob w z = Some i" "mb_type (blob_at w i) = BLOB_TYPE_PAGE"
      "c = take (nat (mb_size (blob_at w i))) (mb_data (blob_at w i))"
    using assms by (auto simp: serves_db_def mock_content_def split: option.splits if_splits)
  moreover have "blob_sound (blob_at w i)" using mock_ok_at i(1) assms by (auto simp: serves_db_def)
  ultimately show ?thesis using that [OF i(1,2)] by (auto simp: blob_sound_def)
qed

text \<open>The queries of \<^verbatim>\<open>xOpen\<close> on such a blob always succeed, and are calm.\<close>

lemma mock_exists_calm:
  assumes "serves_db w z c"
  shows "\<exists>err w'. mock_blob_exists z w = (AZURE_OK, True, err, w') \<and> calm z w w'"
proof -
  obtain rc e1 w1 where 1: "pre_call OP_BLOB_EXISTS w = (rc, e1, w1)" by (rule prod_cases3)
  have "mk_fail_rules w = []" using assms by (simp add: serves_db_def)
  note c = calm_pre [OF 1 this]
  show ?thesis using 1 c pre_call_frame(3) [OF 1] by (rule_tac serves_find [OF assms]) (auto simp: mock_blob_exists_def)
qed

lemma mock_read_calm:
  assumes "serves_db w z c"
  shows "\<exists>err w'. mock_page_blob_read z 0 (int (length c)) w = (AZURE_OK, c, err, w') \<and> calm z w w'"
proof -
  obtain rc e1 w1 where 1: "pre_call OP_PAGE_BLOB_READ w = (rc, e1, w1)" by (rule prod_cases3)
  have "mk_fail_rules w = []" using assms by (simp add: serves_db_def)
  note c = calm_pre [OF 1 this]
  show ?thesis using 1 c pre_call_frame(3,4) [OF 1]
    by (rule_tac serves_find [OF assms]) (auto simp: mock_page_blob_read_def bslice_def Let_def)
qed

lemma mock_props_calm:
  assumes "serves_db w z c"
  shows "\<exists>st status err w'. mock_blob_get_properties z w = (AZURE_OK, (int (length c), st, status), err, w') \<and>
    err_etag err = mock_etag w z \<and> mock_etag w z \<noteq> [] \<and> calm z w w'"
proof -
  obtain rc e1 w1 where 1: "pre_call OP_BLOB_GET_PROPERTIES w = (rc, e1, w1)" by (rule prod_cases3)
  have w: "mk_fail_rules w = []" "mock_content w z = Some c" "mock_ok w" "tells_etag w z" using assms by (simp_all add: serves_db_def)
  note c = calm_pre [OF 1 w(1)] and fr = pre_call_frame [OF 1]
  obtain i where i: "find_blob w1 z = Some i" using serves_find [OF assms] fr(3) by metis
  define b where "b = (if mock_lease_expired w1 (blob_at w1 i) then mock_clear_lease (blob_at w1 i) else blob_at w1 i)"
  obtain err2 b2 where e: "set_etag e1 b = (err2, b2)" by (rule prod.exhaust)
  have b2: "mb_name b2 = mb_name (blob_at w1 i)" "mb_lease_state b2 = mb_lease_state b"
    using set_etag_fields [OF e] by (auto simp: b_def mock_clear_lease_def)
  obtain sz st status where run: "mock_blob_get_properties z w = (AZURE_OK, (sz, st, status), err2, put_blob i b2 w1)"
    using 1 c(1) i e by (auto simp: mock_blob_get_properties_def b_def [symmetric] Let_def)
  note pr = props_ok [OF run w(2-4)]
  have "lease_free w1 z \<Longrightarrow> lease_free (put_blob i b2 w1) z"
    using find_put_blob [OF i b2(1)] blob_at_put [OF find_blob_index [OF i]] i b2 e
    by (auto simp: lease_free_def b_def mock_clear_lease_def set_etag_def mock_lease_expired_def put_blob_def mock_time_now_def split: if_splits)
  then have "calm z w (put_blob i b2 w1)" using pr c(2) by (auto simp: calm_def)
  then show ?thesis using run pr by auto
qed

lemma good_page_size_bounds:
  assumes "good_page_size ps"
  shows "0 < ps" "512 \<le> ps" "n \<le> db_limit \<Longrightarrow> n < 2147483640 * ps"
proof -
  show p: "0 < ps" using assms by (simp add: good_page_size_def)
  show l: "512 \<le> ps" using assms p zdvd_imp_le [of 512 ps] by (simp add: good_page_size_def)
  show "n \<le> db_limit \<Longrightarrow> n < 2147483640 * ps" using l by (simp add: db_limit_def)
qed

lemma write_loop_quiet:
  assumes "no_faults e" and "d \<noteq> []" and "file_of e fd = []"
  shows "\<exists>m. refresh_write_loop fd d (int (length d)) 0 p e = (SQLITE_OK, p\<lparr>metrics := m\<rparr>, set_file fd d e)"
proof -
  have "sys_pwrite fd (bslice d 0 (length d)) 0 e = (int (length d), set_file fd d e)"
    using assms by (simp add: pwrite_ok bslice_def put_def zpad_def)
  then have "refresh_write_loop fd d (int (length d)) 0 p e =
      (SQLITE_OK, bump disk_bytes_written_update (int (length d)) (bump disk_writes_update 1 p), set_file fd d e)"
    using assms(2) by (subst refresh_write_loop.simps) (subst refresh_write_loop.simps, simp)
  then show ?thesis unfolding bump_def by auto
qed

lemma refresh_download_calm:
  assumes "serves_db (remote e) (blob p) c" and "c \<noteq> []" and "length buf = length c"
  shows "\<exists>w'. refresh_download mock_ops p (int (length c)) buf e = Some (AZURE_OK, c, e\<lparr>remote := w'\<rparr>) \<and>
    calm (blob p) (remote e) w'"
proof -
  obtain err w' where r: "mock_page_blob_read (blob p) 0 (int (length c)) (remote e) = (AZURE_OK, c, err, w')"
    "calm (blob p) (remote e) w'"
    using mock_read_calm [OF assms(1)] by blast
  then show ?thesis using assms(2,3)
    by (intro exI [of _ w']) (simp add: refresh_download_def mock_ops_def call_azure_def put_def zpad_def)
qed

text \<open>A full download that nothing disturbs: the cache file is a copy of the blob and its bitmap covers it.\<close>

lemma download_full_quiet:
  assumes "no_faults e" and "ops p = Some mock_ops" and "cacheFd p = Some fd" and "file_of e fd = []"
    and "serves_db (remote e) (blob p) c" and "c \<noteq> []" and "prefetchMode p = 0" and "good_page_size (pageSize p)"
    and "dirty p = bitmap_empty"
  shows "\<exists>w' m ps dm. download_full (int (length c)) p e =
      Inr (p\<lparr>metrics := m, nData := int (length c), pageSize := ps, dirty := dm, lastSyncedSize := int (length c)\<rparr>,
           set_file fd c (e\<lparr>remote := w'\<rparr>)) \<and>
    calm (blob p) (remote e) w' \<and> good_page_size ps \<and>
    bm_ok dm \<and> pages dm = {} \<and> int (length c) \<le> capacity dm * ps"
proof -
  let ?n = "int (length c)"
  obtain buf where m: "sys_malloc ?n e = (Some buf, e)" "length buf = length c"
    using assms(1) by (simp add: malloc_ok)
  obtain w' where d: "refresh_download mock_ops p ?n buf e = Some (AZURE_OK, c, e\<lparr>remote := w'\<rparr>)"
    "calm (blob p) (remote e) w'"
    using refresh_download_calm [OF assms(5,6) m(2)] by blast
  define e1 where "e1 = set_file fd c (e\<lparr>remote := w'\<rparr>)"
  have nf: "no_faults (e\<lparr>remote := w'\<rparr>)" "no_faults e1" using assms(1) by (simp_all add: e1_def no_faults_def set_file_def)
  define p1 where "p1 = bump blob_bytes_read_update ?n (bump blob_reads_update 1 p)"
  obtain k where l: "refresh_write_loop fd c ?n 0 p1 (e\<lparr>remote := w'\<rparr>) = (SQLITE_OK, p1\<lparr>metrics := k\<rparr>, e1)"
    using write_loop_quiet [OF nf(1) assms(6), of fd p1] assms(4) unfolding e1_def by (auto simp: file_of_def)
  define p2 where "p2 = p1\<lparr>metrics := k, nData := ?n\<rparr>"
  obtain ps where h: "detect_header p2 e1 = (p2\<lparr>pageSize := ps\<rparr>, e1)" "good_page_size ps"
    using detect_header_good [of p2 e1] nf(2) assms(8) by (cases "detect_header p2 e1") (auto simp: p2_def p1_def bump_def)
  obtain dm where b: "bitmapsEnsureCapacity (p2\<lparr>pageSize := ps\<rparr>) e1 = (SQLITE_OK, p2\<lparr>pageSize := ps, dirty := dm\<rparr>, e1)"
    "bitmapEnsureCapacity bitmap_empty ?n ps e1 = (SQLITE_OK, dm, e1)"
    using bitmapsEnsure_quiet [OF nf(2), of "p2\<lparr>pageSize := ps\<rparr>"] assms(7,9) by (auto simp: p2_def p1_def bump_def)
  have c: "bm_ok dm" "pages dm = {}" "?n \<le> capacity dm * ps"
    using ensureCapacity_covers [OF bm_ok_empty b(2)] good_page_size_bounds [OF h(2)] assms(5,6)
    by (auto simp: serves_db_def pages_no_data bitmap_empty_def)
  have "download_full ?n p e = Inr (p2\<lparr>pageSize := ps, dirty := dm, lastSyncedSize := ?n\<rparr>, e1)"
    using m(1) assms(2,3,7) d(1) l h(1) b(1) fsync_ok [OF nf(2)]
    unfolding download_full_def p1_def [symmetric] Let_def
    by (simp add: fsync_fd_def p1_def bump_def p2_def)
  moreover have "p2\<lparr>pageSize := ps, dirty := dm, lastSyncedSize := ?n\<rparr> =
      p\<lparr>metrics := k, nData := ?n, pageSize := ps, dirty := dm, lastSyncedSize := ?n\<rparr>"
    by (simp add: p2_def p1_def bump_def)
  ultimately show ?thesis using d c h(2) unfolding e1_def by metis
qed

text \<open>An open database without a lock: the cache file is a clean copy of the blob \<open>z\<close>, of the current ETag.\<close>

definition opened :: "mock sqliteObjsFile \<Rightarrow> mock env \<Rightarrow> string \<Rightarrow> bytes \<Rightarrow> bool" where
  "opened p e z c \<longleftrightarrow> db_inv p e \<and> db_cover p e \<and> ops p = Some mock_ops \<and> blob p = z \<and> zBlobName p \<noteq> None \<and>
     leaseId p = [] \<and> lastSyncDirtyCount p = 0 \<and> pages (dirty p) = {} \<and> good_page_size (pageSize p) \<and>
     db_file p e = c \<and> nData p = int (length c) \<and> lastSyncedSize p = int (length c) \<and> etag p = mock_etag (remote e) z \<and>
     cacheReuse p = False \<and> ticks e = [] \<and> serves_db (remote e) z c"

lemma cache_download_opened:
  assumes "no_faults e" and "ticks e = []" and "serves_db (remote e) z c" and "fs e fd = Some []"
    and p: "p = (open_init h z fl (file_zero\<lparr>zBlobName := Some z, ops := Some mock_ops\<rparr>))
      \<lparr>etag := mock_etag (remote e) z, cacheFd := Some fd, zCachePath := Some fd\<rparr>"
    and fl: "\<not> of_main_journal fl" "\<not> of_wal fl" "uri_parameter h z ''prefetch'' = None"
  shows "\<exists>p' e'. cache_download z (int (length c)) p e = Inr (p', e') \<and>
    opened (p'\<lparr>dirty := bitmapClearAll (dirty p'), pMethod := True\<rparr>) e' z c \<and>
    calm z (remote e) (remote e') \<and> eLock p' = 0"
proof (cases "c = []")
  case True
  have "cache_download z (int (length c)) p e = Inr (p\<lparr>nDownloads := nDownloads p + 1, nData := 0\<rparr>, e)"
    using True by (simp add: cache_download_def)
  moreover have "opened (p\<lparr>nDownloads := nDownloads p + 1, nData := 0, dirty := bitmapClearAll bitmap_empty, pMethod := True\<rparr>) e z c"
    using True assms pow2_page_size [of 4096]
    by (simp add: opened_def p open_init_def file_zero_def db_inv_def db_cover_def db_file_def file_of_def blob_def
        lease_quiet_def hasLease_def pages_clearAll bm_ok_clearAll bm_ok_shape clearAll_fields capacity_def)
       (simp add: bitmap_empty_def)
  moreover have "dirty p = bitmap_empty" by (simp add: p open_init_def file_zero_def)
  ultimately show ?thesis using assms(3)
    by (auto simp: serves_db_def calm_def same_blob_def p open_init_def)
next
  case False
  define q where "q = p\<lparr>nDownloads := nDownloads p + 1\<rparr>"
  have b: "blob q = z" by (simp add: q_def p open_init_def blob_def)
  have "file_of e fd = []" using assms(4) by (simp add: file_of_def)
  then obtain w' m ps dm where d: "download_full (int (length c)) q e =
      Inr (q\<lparr>metrics := m, nData := int (length c), pageSize := ps, dirty := dm, lastSyncedSize := int (length c)\<rparr>,
           set_file fd c (e\<lparr>remote := w'\<rparr>))"
    "calm z (remote e) w'" "good_page_size ps" "bm_ok dm" "pages dm = {}"
    "int (length c) \<le> capacity dm * ps"
    using download_full_quiet [OF assms(1), of q fd c] assms(3) False pow2_page_size [of 4096] fl(3) b
    by (auto simp: q_def p open_init_def file_zero_def)
  have "cache_download z (int (length c)) p e = download_full (int (length c)) q e"
    using False fl(3) by (simp add: cache_download_def q_def p open_init_def)
  moreover have "opened (q\<lparr>metrics := m, nData := int (length c), pageSize := ps,
        lastSyncedSize := int (length c), dirty := bitmapClearAll dm, pMethod := True\<rparr>) (set_file fd c (e\<lparr>remote := w'\<rparr>)) z c"
    using d(2-6) assms(1-3) fl calm_serves [OF d(2) assms(3)] calm_etag [OF d(2)] good_page_size_bounds(1) [OF d(3)]
    by (simp add: opened_def q_def p open_init_def file_zero_def db_inv_def db_cover_def db_file_def blob_def no_faults_def
        lease_quiet_def hasLease_def pages_clearAll bm_ok_clearAll bm_ok_shape clearAll_fields capacity_def byte_at_def)
  ultimately show ?thesis using d by (auto simp: q_def p open_init_def)
qed

text \<open>\<^verbatim>\<open>xOpen\<close> of an existing blob up to the choice of its cache file: both queries succeed, and what follows works on a record with
  the current ETag.\<close>

lemma open_existing_run:
  assumes "z \<noteq> []" and "of_main_db fl" and "sqlite_objs_parse_uri_config h z = None" and "vd_ops (vfs_data e) = Some mock_ops"
    and "no_faults e" and "serves_db (remote e) z c"
    and p1: "p1 = (open_init h z fl (file_zero\<lparr>zBlobName := Some z, ops := Some mock_ops\<rparr>))\<lparr>etag := mock_etag (remote e) z\<rparr>"
  obtains w where "calm z (remote e) w"
    "\<forall>choice p e' p' e''. open_choose h z (int (length c)) p1 (e\<lparr>remote := w\<rparr>) = (choice, p, e') \<longrightarrow>
      choice = Cache_ready \<and> p' = p \<and> e'' = e' \<or> choice = Cache_download \<and> cache_download z (int (length c)) p e' = Inr (p', e'') \<longrightarrow>
      sqliteObjsOpen h (Some z) fl e = Azure (Some (SQLITE_OK, p'\<lparr>dirty := bitmapClearAll (dirty p'), pMethod := True\<rparr>, e''))"
proof -
  define p0 where "p0 = open_init h z fl (file_zero\<lparr>zBlobName := Some z, ops := Some mock_ops\<rparr>)"
  have p0: "ops p0 = Some mock_ops" by (simp add: p0_def open_init_def)
  obtain err1 w1 where 1: "mock_blob_exists z (remote e) = (AZURE_OK, True, err1, w1)" "calm z (remote e) w1"
    using mock_exists_calm [OF assms(6)] by blast
  obtain st status err2 w2 where 2: "mock_blob_get_properties z w1 = (AZURE_OK, (int (length c), st, status), err2, w2)"
     "err_etag err2 = mock_etag w1 z" "mock_etag w1 z \<noteq> []" "calm z w1 w2"
    using mock_props_calm [OF calm_serves [OF 1(2) assms(6)]] by blast
  have et: "err_etag err2 = mock_etag (remote e) z" "mock_etag (remote e) z \<noteq> []" using 2(2,3) calm_etag [OF 1(2)] by simp_all
  show thesis
  proof (rule that [OF calm_trans [OF 1(2) 2(4)]], intro allI impI)
    fix choice p e' p' e''
    assume c: "open_choose h z (int (length c)) p1 (e\<lparr>remote := w2\<rparr>) = (choice, p, e')"
      and d: "choice = Cache_ready \<and> p' = p \<and> e'' = e' \<or> choice = Cache_download \<and> cache_download z (int (length c)) p e' = Inr (p', e'')"
    have "open_existing h z mock_blob_get_properties p0 (e\<lparr>remote := w1\<rparr>) = Inr (p', e'')"
      using 2(1) et c d by (auto simp: open_existing_def call_azure_def p1 p0_def Let_def)
    then have "open_db h z fl p0 e = Inr (p'\<lparr>dirty := bitmapClearAll (dirty p')\<rparr>, e'')"
      using 1(1) p0 by (simp add: open_db_def mock_ops_def call_azure_def)
    then show "sqliteObjsOpen h (Some z) fl e = Azure (Some (SQLITE_OK, p'\<lparr>dirty := bitmapClearAll (dirty p'), pMethod := True\<rparr>, e''))"
      using assms(1-5) by (simp add: sqliteObjsOpen_def open_client_def malloc_ok p0_def Let_def)
  qed
qed

text \<open>Opening: every step succeeds, and the file holds the bytes of the blob.\<close>

lemma open_quiet:
  assumes "quiet_process h z fl e" and "serves_db (remote e) z c"
  shows "\<exists>p' e'. sqliteObjsOpen h (Some z) fl e = Azure (Some (SQLITE_OK, p', e')) \<and> opened p' e' z c \<and>
    eLock p' = 0 \<and> calm z (remote e) (remote e')"
proof -
  obtain x xs where q: "z \<noteq> []" "of_main_db fl" "sqlite_objs_parse_uri_config h z = None" "vd_ops (vfs_data e) = Some mock_ops" "no_faults e"
     "\<not> of_main_journal fl" "\<not> of_wal fl" "uri_parameter h z ''prefetch'' = None" "\<not> uri_boolean h z ''cache_reuse'' False"
     "ticks e = []" "tmp_suffixes e = x # xs" "\<forall>dir. fs e (dir @ ''/sqlite-objs-'' @ x) = None"
    using assms(1) by (auto simp: quiet_process_def)
  define p1 where "p1 = (open_init h z fl (file_zero\<lparr>zBlobName := Some z, ops := Some mock_ops\<rparr>))\<lparr>etag := mock_etag (remote e) z\<rparr>"
  obtain w where w: "calm z (remote e) w"
    and run: "\<forall>choice p e' p' e''. open_choose h z (int (length c)) p1 (e\<lparr>remote := w\<rparr>) = (choice, p, e') \<longrightarrow>
      choice = Cache_ready \<and> p' = p \<and> e'' = e' \<or> choice = Cache_download \<and> cache_download z (int (length c)) p e' = Inr (p', e'') \<longrightarrow>
      sqliteObjsOpen h (Some z) fl e = Azure (Some (SQLITE_OK, p'\<lparr>dirty := bitmapClearAll (dirty p'), pMethod := True\<rparr>, e''))"
    using open_existing_run [OF q(1-5) assms(2) p1_def] by blast
  define e2 where "e2 = e\<lparr>remote := w\<rparr>"
  have nf: "no_faults e2" "tmp_suffixes e2 = x # xs" "\<forall>dir. fs e2 (dir @ ''/sqlite-objs-'' @ x) = None"
    using q(5,11,12) by (simp_all add: e2_def no_faults_def)
  obtain path where 3: "open_mkstemp h z p1 e2 =
      (Cache_download, p1\<lparr>cacheFd := Some path, zCachePath := Some path\<rparr>, set_file path [] (e2\<lparr>tmp_suffixes := xs\<rparr>))"
    using open_mkstemp_quiet [OF nf] by blast
  define e3 where "e3 = set_file path [] (e2\<lparr>tmp_suffixes := xs\<rparr>)"
  obtain p' e' where 4: "cache_download z (int (length c)) (p1\<lparr>cacheFd := Some path, zCachePath := Some path\<rparr>) e3 = Inr (p', e')"
     "opened (p'\<lparr>dirty := bitmapClearAll (dirty p'), pMethod := True\<rparr>) e' z c" "calm z w (remote e')" "eLock p' = 0"
    using cache_download_opened [of e3 z c path "p1\<lparr>cacheFd := Some path, zCachePath := Some path\<rparr>" h fl] q(5-8,10)
      calm_serves [OF w assms(2)] calm_etag [OF w] by (auto simp: e3_def e2_def p1_def no_faults_def)
  have "open_choose h z (int (length c)) p1 e2 = (Cache_download, p1\<lparr>cacheFd := Some path, zCachePath := Some path\<rparr>, e3)"
    using 3 q(9) by (simp add: open_choose_def e3_def)
  from run [rule_format, OF this [unfolded e2_def]] 4 calm_trans [OF w 4(3)] show ?thesis by auto
qed

section \<open>Locks and leases\<close>

lemma opened_touch:
  assumes "opened p e z c" and "calm z (remote e) w'"
  shows "opened (p\<lparr>readsSinceSharedLock := n, metrics := m, eLock := l\<rparr>) (e\<lparr>remote := w'\<rparr>) z c"
proof -
  have "db_file (p\<lparr>readsSinceSharedLock := n, metrics := m, eLock := l\<rparr>) (e\<lparr>remote := w'\<rparr>) = db_file p e"
    by (simp add: db_file_def file_of_def split: option.split)
  then show ?thesis using assms calm_serves [OF assms(2)] calm_etag [OF assms(2)]
    by (simp add: opened_def db_inv_def db_cover_def lease_quiet_def hasLease_def blob_def no_faults_def byte_at_out)
qed

text \<open>SHARED on a file whose ETag is current only counts a revalidation.\<close>

lemma shared_same_etag:
  assumes "eFileType p = MAIN_DB" and "cacheFd p \<noteq> None" and "ops p = Some mock_ops" and "blob p = z"
    and "etag p = mock_etag (remote e) z" and "serves_db (remote e) z c" and "eLock p < SQLITE_LOCK_SHARED"
  shows "\<exists>w'. sqliteObjsLock p SQLITE_LOCK_SHARED e =
      (SQLITE_OK, (bump revalidations_update 1 (p\<lparr>readsSinceSharedLock := 0\<rparr>))\<lparr>eLock := SQLITE_LOCK_SHARED\<rparr>, e\<lparr>remote := w'\<rparr>) \<and>
    calm z (remote e) w'"
proof -
  obtain st status err w' where 1: "mock_blob_get_properties z (remote e) = (AZURE_OK, (int (length c), st, status), err, w')"
    "err_etag err = mock_etag (remote e) z" "mock_etag (remote e) z \<noteq> []" "calm z (remote e) w'"
    using mock_props_calm [OF assms(6)] by blast
  define q where "q = bump revalidations_update 1 (p\<lparr>readsSinceSharedLock := 0\<rparr>)"
  have "blob (p\<lparr>readsSinceSharedLock := 0\<rparr>) = z" "Option.bind (ops p) blob_get_properties = Some mock_blob_get_properties"
    using assms(3,4) by (simp_all add: blob_def mock_ops_def)
  then have "revalidateBeforeRead (p\<lparr>readsSinceSharedLock := 0\<rparr>) e = (SQLITE_OK, q, e\<lparr>remote := w'\<rparr>)"
    using assms(1,2,5) 1 by (auto simp: revalidateBeforeRead_def q_def call_azure_def Let_def)
  then show ?thesis using assms(7) 1(4) by (intro exI [of _ w']) (simp add: sqliteObjsLock_def q_def)
qed

lemma shared_quiet:
  assumes "opened p e z c" and "eLock p < SQLITE_LOCK_SHARED"
  shows "\<exists>p' e'. sqliteObjsLock p SQLITE_LOCK_SHARED e = (SQLITE_OK, p', e') \<and> opened p' e' z c \<and> eLock p' = SQLITE_LOCK_SHARED \<and>
    calm z (remote e) (remote e')"
proof -
  have o: "eFileType p = MAIN_DB" "cacheFd p \<noteq> None" "ops p = Some mock_ops" "blob p = z" "etag p = mock_etag (remote e) z"
    "serves_db (remote e) z c" using assms(1) by (auto simp: opened_def db_inv_def)
  obtain w' where l: "sqliteObjsLock p SQLITE_LOCK_SHARED e =
      (SQLITE_OK, (bump revalidations_update 1 (p\<lparr>readsSinceSharedLock := 0\<rparr>))\<lparr>eLock := SQLITE_LOCK_SHARED\<rparr>, e\<lparr>remote := w'\<rparr>)"
    "calm z (remote e) w'" using shared_same_etag [OF o assms(2)] by blast
  have "opened ((bump revalidations_update 1 (p\<lparr>readsSinceSharedLock := 0\<rparr>))\<lparr>eLock := SQLITE_LOCK_SHARED\<rparr>) (e\<lparr>remote := w'\<rparr>) z c"
    using opened_touch [OF assms(1) l(2), of SQLITE_LOCK_SHARED "revalidations_update (\<lambda>x. x + 1) (metrics p)" 0]
    by (simp add: bump_def)
  then show ?thesis using l by simp
qed

text \<open>A free blob is leased, and the caller's identifier is the one the blob carries.\<close>

lemma acquire_free:
  assumes "serves_db w z c" and "lease_free w z" and "0 < n"
  shows "\<exists>l err w'. mock_lease_acquire z n w = (AZURE_OK, Some l, err, w') \<and> err_etag err = [] \<and> l \<noteq> [] \<and>
    same_blob z w w' \<and> mock_accepts w' z (Some l)"
proof -
  obtain rc e1 w1 where 1: "pre_call OP_LEASE_ACQUIRE w = (rc, e1, w1)" by (rule prod_cases3)
  have "mk_fail_rules w = []" using assms(1) by (simp add: serves_db_def)
  note c = calm_pre [OF 1 this] and fr = pre_call_frame [OF 1]
  obtain i where i: "find_blob w z = Some i" "mb_type (blob_at w i) = BLOB_TYPE_PAGE" by (rule serves_find [OF assms(1)])
  obtain lid w2 where g: "generate_lease_id w1 = (lid, w2)" by (rule prod.exhaust)
  have w2: "mk_blobs w2 = mk_blobs w1" "mk_fail_rules w2 = mk_fail_rules w1" "mock_time_now w2 = mock_time_now w1"
    using g by (auto simp: generate_lease_id_def mock_time_now_def)
  define b where "b = (if mock_lease_expired w1 (blob_at w1 i) then mock_clear_lease (blob_at w1 i) else blob_at w1 i)"
  define b' where "b' = b\<lparr>mb_lease_state := LEASE_LEASED, mb_lease_duration := n, mb_lease_acquired_at := mock_time_now w1,
    mb_lease_id := take 36 lid\<rparr>"
  have "mb_lease_state b = LEASE_AVAILABLE" using assms(2) i(1) fr(4,8) by (auto simp: lease_free_def b_def mock_clear_lease_def)
  then have run: "mock_lease_acquire z n w = (AZURE_OK, Some (take 36 lid), e1, put_blob i b' w2)"
    using 1 c(1) i(1) fr(3) g by (simp add: mock_lease_acquire_def b_def [symmetric] b'_def Let_def)
  have l: "take 36 lid \<noteq> []" by (rule lease_id_nonempty [OF g])
  have b': "mb_name b' = mb_name (blob_at w i)" "mb_type b' = BLOB_TYPE_PAGE"
    using i(2) fr(4) by (simp_all add: b'_def b_def mock_clear_lease_def)
  have mk: "mk_blobs (put_blob i b' w2) = mk_blobs (put_blob i b' w1)" using w2(1) by (simp add: put_blob_def)
  note rep = replace_blob [OF 1 [unfolded c(1)] i(1) b'(1) mk]
  have "\<not> mock_lease_expired (put_blob i b' w2) b'" using assms(3) w2(3) by (simp add: mock_lease_expired_def b'_def)
  then have "mock_accepts (put_blob i b' w2) z (Some (take 36 lid))"
    using rep(1,2) l b' w2(2) c(2) i(1) by (simp add: mock_accepts_def b'_def calm_def)
  with run acquire_same [OF run] l show ?thesis by blast
qed

text \<open>The queries keep what the holder of the lease needs.\<close>

lemma props_accepts:
  assumes "mock_blob_get_properties z w = (AZURE_OK, out, err, w')" and "mock_accepts w z (Some l)"
  shows "mock_accepts w' z (Some l)"
proof -
  obtain rc e1 w1 where 1: "pre_call OP_BLOB_GET_PROPERTIES w = (rc, e1, w1)" by (rule prod_cases3)
  obtain i where a: "mk_fail_rules w = []" "find_blob w z = Some i" "\<not> mock_lease_expired w (blob_at w i)"
    using assms(2) by (rule mock_acceptsD)
  note c = calm_pre [OF 1 a(1)] and fr = pre_call_frame [OF 1]
  obtain err2 b where e: "set_etag e1 (blob_at w i) = (err2, b)" by (rule prod.exhaust)
  have "w' = put_blob i b w1"
    using assms(1) 1 c(1) a(2,3) fr(3,4,8) e by (auto simp: mock_blob_get_properties_def Let_def)
  then show ?thesis
    by (intro accepts_replace [OF assms(2) a(2) 1 [unfolded c(1)], of b]) (simp_all add: set_etag_fields [OF e])
qed

lemma opened_agree: "opened p e z c \<Longrightarrow> clean_agree p (db_file p e) c"
  by (simp add: opened_def clean_agree_def serves_db_def align512_dvd byte_at_out)

lemma after_lease_same:
  assumes "eFileType q = MAIN_DB" and "cacheFd q = Some fd" and "ops q = Some mock_ops" and "blob q = z"
    and "call_azure (mock_blob_get_properties z) e = (AZURE_OK, (n, st, status), err, e')" and "err_etag err = etag q" "etag q \<noteq> []"
  shows "revalidateAfterLease q [] e = (SQLITE_OK, bump revalidations_update 1 q, e')"
proof -
  have "Option.bind (ops q) blob_get_properties = Some mock_blob_get_properties" using assms(3) by (simp add: mock_ops_def)
  with assms show ?thesis by (simp add: revalidateAfterLease_def)
qed

text \<open>RESERVED takes the lease, finds the ETag unchanged and leaves a file ready for durable writes.\<close>

lemma reserved_quiet:
  assumes "opened p e z c" and "lease_free (remote e) z" and "eLock p = SQLITE_LOCK_SHARED"
  shows "\<exists>p' e'. sqliteObjsLock p SQLITE_LOCK_RESERVED e = (SQLITE_OK, p', e') \<and> durable_ready p' e' c \<and>
    blob p' = z \<and> eLock p' = SQLITE_LOCK_RESERVED \<and> pages (dirty p') = {} \<and> good_page_size (pageSize p') \<and> db_view p' e' = c \<and>
    \<not> cacheReuse p' \<and> zBlobName p' \<noteq> None \<and> tells_etag (remote e') z"
proof -
  have o: "eFileType p = MAIN_DB" "cacheFd p \<noteq> None" "ops p = Some mock_ops" "blob p = z" "etag p = mock_etag (remote e) z"
    "serves_db (remote e) z c" "ticks e = []" "leaseId p = []" "lastSyncDirtyCount p = 0" "good_page_size (pageSize p)"
    "nData p = int (length c)" "db_file p e = c"
    using assms(1) by (auto simp: opened_def db_inv_def)
  obtain l err w1 where 1: "mock_lease_acquire z 30 (remote e) = (AZURE_OK, Some l, err, w1)" "err_etag err = []" "l \<noteq> []"
    "same_blob z (remote e) w1" "mock_accepts w1 z (Some l)"
    using acquire_free [OF o(6) assms(2), of 30] by auto
  have s1: "serves_db w1 z c" using o(6) 1(4,5) by (auto simp: serves_db_def same_blob_def mock_accepts_def)
  obtain st status err2 w2 where 2: "mock_blob_get_properties z w1 = (AZURE_OK, (int (length c), st, status), err2, w2)"
    "err_etag err2 = mock_etag w1 z" "mock_etag w1 z \<noteq> []" "calm z w1 w2"
    using mock_props_calm [OF s1] by blast
  note s2 = calm_serves [OF 2(4) s1] and acc = props_accepts [OF 2(1) 1(5)]
  define q where "q = (bump lease_acquires_update 1 (p\<lparr>leaseId := l\<rparr>))\<lparr>leaseAcquiredAt := clock e, leaseDuration := 30\<rparr>"
  have q: "blob q = z" "blob (p\<lparr>leaseId := l\<rparr>) = z" using o(4) by (simp_all add: q_def blob_def)
  obtain fd where qe: "eFileType q = MAIN_DB" "cacheFd q = Some fd" "ops q = Some mock_ops" "etag q = mock_etag w1 z"
    using o(1-3,5) 1(4) by (auto simp: q_def same_blob_def)
  let ?q' = "bump revalidations_update 1 q"
  have "call_azure (mock_blob_get_properties z) (e\<lparr>remote := w1\<rparr>) = (AZURE_OK, (int (length c), st, status), err2, e\<lparr>remote := w2\<rparr>)"
    using 2(1) by (simp add: call_azure_def)
  from after_lease_same [OF qe(1-3) q(1) this] have rv: "revalidateAfterLease q [] (e\<lparr>remote := w1\<rparr>) = (SQLITE_OK, ?q', e\<lparr>remote := w2\<rparr>)"
    using 2(2,3) qe(4) by simp
  have "lock_acquire mock_lease_acquire p e = (SQLITE_OK, ?q', e\<lparr>remote := w2\<rparr>)"
    using 1(1,2) rv o(4,7,9) by (simp add: lock_acquire_def call_azure_def sys_time_def q_def Let_def)
  then have run: "sqliteObjsLock p SQLITE_LOCK_RESERVED e = (SQLITE_OK, ?q'\<lparr>eLock := SQLITE_LOCK_RESERVED\<rparr>, e\<lparr>remote := w2\<rparr>)"
    using assms(3) o(3,8) by (simp add: sqliteObjsLock_def hasLease_def) (simp add: mock_ops_def)
  have f: "db_file (?q'\<lparr>eLock := SQLITE_LOCK_RESERVED\<rparr>) (e\<lparr>remote := w2\<rparr>) = c"
    using o(12) by (cases "cacheFd p") (simp_all add: db_file_def file_of_def q_def)
  have "durable_ready (?q'\<lparr>eLock := SQLITE_LOCK_RESERVED\<rparr>) (e\<lparr>remote := w2\<rparr>) c"
    using assms(1) f acc s2 1(3) q(1) opened_agree [OF assms(1)] good_page_size_bounds(3) [OF o(10), of "nData p"]
    unfolding durable_ready_def
    by (simp add: opened_def db_inv_def db_cover_def lease_quiet_def hasLease_def no_faults_def serves_db_def clean_agree_def
        good_page_size_def lease_arg_def blob_def q_def bump_def)
  then show ?thesis using run q(1) f s2 assms(1)
    by (auto simp: opened_def q_def db_view_def serves_db_def blob_def)
qed

text \<open>What every call of a file with the lease \<open>l\<close> keeps: nothing will fail, responses carry an ETag, and nobody else has
  leased the blob.\<close>

definition held_blob :: "string \<Rightarrow> mock_blob \<Rightarrow> bool" where
  "held_blob l b \<longleftrightarrow> mb_etag b \<noteq> [] \<and> \<not> mb_omit_next_etag b \<and> mb_lease_state b \<noteq> LEASE_BREAKING \<and>
     (mb_lease_state b = LEASE_LEASED \<longrightarrow> mb_lease_id b = l)"

definition holding :: "string \<Rightarrow> string \<Rightarrow> mock \<Rightarrow> bool" where
  "holding l z w \<longleftrightarrow> mk_fail_rules w = [] \<and> (case find_blob w z of None \<Rightarrow> False | Some i \<Rightarrow> held_blob l (blob_at w i))"

lemma held_upd:
  "held_blob l b \<Longrightarrow> held_blob l (mock_clear_lease b)" "held_blob l b \<Longrightarrow> held_blob l (written_blob b off d)"
  "held_blob l b \<Longrightarrow> held_blob l (resized_blob b n)" "held_blob l b \<Longrightarrow> held_blob l (bump_etag b)"
  by (simp_all add: held_blob_def mock_clear_lease_def bump_etag_def written_blob_def resized_blob_def ensure_capacity_def Let_def)

lemma held_set_etag: "set_etag err b = (err', b') \<Longrightarrow> held_blob l b \<Longrightarrow> held_blob l b'"
  by (auto simp: set_etag_def held_blob_def split: if_splits)

lemma holding_put:
  assumes "holding l z w" and "find_blob w z = Some i" and "held_blob l b" and "mb_name b = mb_name (blob_at w i)"
    and "mk_blobs w' = mk_blobs (put_blob i b w)" and "mk_fail_rules w' = mk_fail_rules w"
  shows "holding l z w'"
proof -
  have "find_blob w' z = Some i" "blob_at w' i = b"
    using find_put_blob [OF assms(2,4)] blob_at_put [OF find_blob_index [OF assms(2)]] assms(2,5)
    by (simp_all add: find_blob_def blob_at_def)
  then show ?thesis using assms(1,3,6) by (simp add: holding_def)
qed

lemma holding_pre:
  assumes "pre_call oper w = (rc, err, w')" and "holding l z w"
  shows "holding l z w'" "rc = AZURE_OK"
  using pre_call_frame [OF assms(1)] assms(2) by (auto simp: holding_def split: option.splits)

lemma holdingE:
  assumes "holding l z w"
  obtains i where "find_blob w z = Some i" "held_blob l (blob_at w i)"
  using assms by (auto simp: holding_def split: option.splits)

lemma holding_validate:
  assumes "validate_lease_id w (blob_at w i) lid = (rc, err, b)" and "holding l z w" and "find_blob w z = Some i"
  shows "held_blob l b \<and> mb_name b = mb_name (blob_at w i)"
proof -
  have "held_blob l (blob_at w i)" using assms(2,3) by (simp add: holding_def)
  moreover have "b = blob_at w i \<or> b = mock_clear_lease (blob_at w i)"
    using assms(1) by (auto simp: validate_lease_id_def split: if_splits)
  ultimately show ?thesis using held_upd(1) by (auto simp: mock_clear_lease_def)
qed

lemma holding_write:
  assumes "mock_page_blob_write z off d lid im w = (rc, err, w')" and "holding l z w"
  shows "holding l z w'"
proof -
  obtain rc1 e1 w1 where 1: "pre_call OP_PAGE_BLOB_WRITE w = (rc1, e1, w1)" by (rule prod_cases3)
  note h = holding_pre [OF 1 assms(2)]
  obtain i where i: "find_blob w1 z = Some i" "held_blob l (blob_at w1 i)" by (rule holdingE [OF h(1)])
  obtain rc2 e2 b2 where 2: "validate_lease_id w1 (blob_at w1 i) lid = (rc2, e2, b2)" by (rule prod_cases3)
  note v = holding_validate [OF 2 h(1) i(1)]
  obtain e3 b3 where 3: "set_etag e1 (bump_etag (written_blob b2 off d)) = (e3, b3)" by (rule prod.exhaust)
  have b3: "held_blob l b3" "mb_name b3 = mb_name (blob_at w1 i)"
    using held_set_etag [OF 3] held_upd v set_etag_fields [OF 3] by auto
  have "mk_fail_rules w' = mk_fail_rules w1 \<and> (mk_blobs w' = mk_blobs w1 \<or> mk_blobs w' = mk_blobs (put_blob i b2 w1) \<or>
      mk_blobs w' = mk_blobs (put_blob i b3 w1))"
    using assms(1) 1 h(2) i(1) 2 3
    by (auto simp: mock_page_blob_write_def written_blob_def Let_def split: if_splits)
  moreover have "mk_blobs w1 = mk_blobs (put_blob i (blob_at w1 i) w1)" by (simp add: put_blob_def blob_at_def)
  ultimately show ?thesis using holding_put [OF h(1) i(1)] i(2) v b3 by metis
qed

lemma holding_resize:
  assumes "mock_page_blob_resize z n lid w = (rc, err, w')" and "holding l z w"
  shows "holding l z w'"
proof -
  obtain rc1 e1 w1 where 1: "pre_call OP_PAGE_BLOB_RESIZE w = (rc1, e1, w1)" by (rule prod_cases3)
  note h = holding_pre [OF 1 assms(2)]
  obtain i where i: "find_blob w1 z = Some i" "held_blob l (blob_at w1 i)" by (rule holdingE [OF h(1)])
  obtain rc2 e2 b2 where 2: "validate_lease_id w1 (blob_at w1 i) lid = (rc2, e2, b2)" by (rule prod_cases3)
  note v = holding_validate [OF 2 h(1) i(1)]
  obtain e3 b3 where 3: "set_etag e1 (bump_etag (resized_blob b2 n)) = (e3, b3)" by (rule prod.exhaust)
  have b3: "held_blob l b3" "mb_name b3 = mb_name (blob_at w1 i)"
    using held_set_etag [OF 3] held_upd v set_etag_fields [OF 3] by auto
  have "mk_fail_rules w' = mk_fail_rules w1 \<and> (mk_blobs w' = mk_blobs w1 \<or> mk_blobs w' = mk_blobs (put_blob i b2 w1) \<or>
      mk_blobs w' = mk_blobs (put_blob i b3 w1))"
    using assms(1) 1 h(2) i(1) 2 3
    by (auto simp: mock_page_blob_resize_def resized_blob_def Let_def split: if_splits)
  moreover have "mk_blobs w1 = mk_blobs (put_blob i (blob_at w1 i) w1)" by (simp add: put_blob_def blob_at_def)
  ultimately show ?thesis using holding_put [OF h(1) i(1)] i(2) v b3 by metis
qed

lemma holding_read:
  assumes "mock_page_blob_read z off n w = (rc, buf, err, w')" and "holding l z w"
  shows "holding l z w'"
proof -
  obtain rc1 e1 w1 where 1: "pre_call OP_PAGE_BLOB_READ w = (rc1, e1, w1)" by (rule prod_cases3)
  then have "w' = w1" using assms(1) by (auto simp: mock_page_blob_read_def Let_def split: if_splits option.splits)
  then show ?thesis using holding_pre [OF 1 assms(2)] by simp
qed

lemma holding_props:
  assumes "mock_blob_get_properties z w = (rc, out, err, w')" and "holding l z w"
  shows "holding l z w'"
proof -
  obtain rc1 e1 w1 where 1: "pre_call OP_BLOB_GET_PROPERTIES w = (rc1, e1, w1)" by (rule prod_cases3)
  note h = holding_pre [OF 1 assms(2)]
  obtain i where i: "find_blob w1 z = Some i" "held_blob l (blob_at w1 i)" by (rule holdingE [OF h(1)])
  define b where "b = (if mock_lease_expired w1 (blob_at w1 i) then mock_clear_lease (blob_at w1 i) else blob_at w1 i)"
  obtain e2 b2 where 2: "set_etag e1 b = (e2, b2)" by (rule prod.exhaust)
  have "held_blob l b2" "mb_name b2 = mb_name (blob_at w1 i)"
    using held_set_etag [OF 2] held_upd(1) i(2) set_etag_fields [OF 2] by (auto simp: b_def mock_clear_lease_def)
  moreover have "w' = put_blob i b2 w1"
    using assms(1) 1 h(2) i(1) 2 by (auto simp: mock_blob_get_properties_def b_def [symmetric] Let_def)
  ultimately show ?thesis using holding_put [OF h(1) i(1)] by simp
qed

lemma holding_lease_op:
  assumes "mock_lease_op oper f z k w = (rc, err, w')" and "holding l z w"
    and "\<And>w b. held_blob l b \<Longrightarrow> held_blob l (f w b)" "\<And>w b. mb_name (f w b) = mb_name b"
  shows "holding l z w'"
proof -
  obtain rc1 e1 w1 where 1: "pre_call oper w = (rc1, e1, w1)" by (rule prod_cases3)
  note h = holding_pre [OF 1 assms(2)]
  obtain i where i: "find_blob w1 z = Some i" "held_blob l (blob_at w1 i)" by (rule holdingE [OF h(1)])
  have "w' = w1 \<or> w' = put_blob i (mock_clear_lease (blob_at w1 i)) w1 \<or> w' = put_blob i (f w1 (blob_at w1 i)) w1"
    using assms(1) 1 h(2) i(1) by (auto simp: mock_lease_op_def Let_def split: if_splits)
  moreover have "mb_name (mock_clear_lease b) = mb_name b" for b by (simp add: mock_clear_lease_def)
  ultimately show ?thesis
    using h(1) holding_put [OF h(1) i(1) held_upd(1) [OF i(2)]] holding_put [OF h(1) i(1) assms(3) [OF i(2)] assms(4)] by auto
qed

text \<open>The owner of the lease makes these calls only.\<close>

lemma holding_call:
  assumes "call_step (Some mock_ops) z l w w'" and "l \<noteq> []" and "holding l z w"
  shows "holding l z w'"
  using assms(1)
proof cases
  case (renew_call f rc err)
  then have "mock_lease_op OP_LEASE_RENEW (\<lambda>ctx b. b\<lparr>mb_lease_acquired_at := mock_time_now ctx\<rparr>) z l w = (rc, err, w')"
    by (simp add: mock_ops_def mock_lease_renew_def)
  then show ?thesis by (rule holding_lease_op [OF _ assms(3)]) (simp_all add: held_blob_def)
next
  case (release_call f rc err)
  then have "mock_lease_op OP_LEASE_RELEASE (\<lambda>ctx b. b\<lparr>mb_lease_state := LEASE_AVAILABLE, mb_lease_id := []\<rparr>) z l w = (rc, err, w')"
    by (simp add: mock_ops_def mock_lease_release_def)
  then show ?thesis by (rule holding_lease_op [OF _ assms(3)]) (simp_all add: held_blob_def)
qed (use assms holding_read holding_write holding_resize holding_props in \<open>auto simp: mock_ops_def\<close>)

lemma holding_acts:
  assumes "acts p e p' e'" and "ops p = Some mock_ops" and "hasLease p" and "holding (leaseId p) (blob p) (remote e)"
  shows "holding (leaseId p) (blob p) (remote e')"
proof -
  have "(call_step (Some mock_ops) (blob p) (leaseId p))\<^sup>*\<^sup>* (remote e) (remote e')" using assms(1,2) by (simp add: acts_def calls_def)
  then show ?thesis using assms(3,4) by (induction rule: rtranclp_induct) (auto simp: hasLease_def intro: holding_call)
qed

text \<open>The release leaves a free blob with the same contents.\<close>

lemma holding_release:
  assumes "mock_lease_release z l w = (rc, err, w')" and "holding l z w"
  shows "same_blob z w w'" "lease_free w' z" "mk_fail_rules w' = []"
proof -
  obtain rc1 e1 w1 where 1: "pre_call OP_LEASE_RELEASE w = (rc1, e1, w1)" by (rule prod_cases3)
  note h = holding_pre [OF 1 assms(2)] and fr = pre_call_frame [OF 1]
  obtain i where i: "find_blob w1 z = Some i" "held_blob l (blob_at w1 i)" by (rule holdingE [OF h(1)])
  define b where "b = (if mock_lease_expired w1 (blob_at w1 i) then mock_clear_lease (blob_at w1 i)
    else if mb_lease_state (blob_at w1 i) = LEASE_LEASED then (blob_at w1 i)\<lparr>mb_lease_state := LEASE_AVAILABLE, mb_lease_id := []\<rparr>
    else blob_at w1 i)"
  have same: "put_blob i (blob_at w1 i) w1 = w1" by (simp add: put_blob_def blob_at_def)
  have w': "w' = put_blob i b w1"
    using assms(1) 1 h(2) i same by (auto simp: mock_lease_release_def mock_lease_op_def b_def held_blob_def Let_def)
  have b: "mb_lease_state b = LEASE_AVAILABLE" "mb_name b = mb_name (blob_at w1 i)" "mb_type b = mb_type (blob_at w1 i)"
    "mb_data b = mb_data (blob_at w1 i)" "mb_size b = mb_size (blob_at w1 i)" "mb_etag b = mb_etag (blob_at w1 i)"
    "mb_omit_next_etag b = mb_omit_next_etag (blob_at w1 i)"
    using i(2) by (auto simp: b_def mock_clear_lease_def held_blob_def intro: mock_lease_state.exhaust)
  have "same_blob z w1 w'" using b w' by (intro same_blob_put [OF i(1), of b]) simp_all
  then show "same_blob z w w'" using same_blob_blobs [OF fr(1)] same_blob_trans by blast
  show "lease_free w' z"
    using find_put_blob [OF i(1) b(2)] blob_at_put [OF find_blob_index [OF i(1)]] i(1) w' b(1) by (simp add: lease_free_def)
  show "mk_fail_rules w' = []" using w' h(1) by (simp add: holding_def)
qed

section \<open>A transaction\<close>

text \<open>The calls SQLite makes on the database file for one transaction in a new connection: open, the locks up to EXCLUSIVE,
  the page writes, the sync, the unlock and the close. \<^term>\<open>None\<close> unless all of them succeed.\<close>

definition transaction :: "mock host \<Rightarrow> string \<Rightarrow> open_flags \<Rightarrow> (int \<times> bytes) list \<Rightarrow> mock env \<Rightarrow> mock env option" where
  "transaction h z fl ws e =
     (case sqliteObjsOpen h (Some z) fl e of
        Azure (Some (SQLITE_OK, p, e)) \<Rightarrow>
          (case sqliteObjsLock p SQLITE_LOCK_SHARED e of
             (SQLITE_OK, p, e) \<Rightarrow>
               (case sqliteObjsLock p SQLITE_LOCK_RESERVED e of
                  (SQLITE_OK, p, e) \<Rightarrow>
                    (case sqliteObjsLock p SQLITE_LOCK_EXCLUSIVE e of
                       (SQLITE_OK, p, e) \<Rightarrow>
                         (case write_all sqliteObjsWrite ws p e of
                            Some (p, e) \<Rightarrow>
                              (case sqliteObjsSync p e of
                                 (SQLITE_OK, p, e) \<Rightarrow>
                                   (case sqliteObjsUnlock p SQLITE_LOCK_NONE e of
                                      (SQLITE_OK, p, e) \<Rightarrow>
                                        (case sqliteObjsClose p e of (SQLITE_OK, p, e) \<Rightarrow> Some e | _ \<Rightarrow> None)
                                    | _ \<Rightarrow> None)
                               | _ \<Rightarrow> None)
                          | None \<Rightarrow> None)
                     | _ \<Rightarrow> None)
                | _ \<Rightarrow> None)
           | _ \<Rightarrow> None)
      | _ \<Rightarrow> None)"

text \<open>What it does to the contents of the blob: the writes, padded to the next 512 bytes.\<close>

definition commit :: "(int \<times> bytes) list \<Rightarrow> bytes \<Rightarrow> bytes" where
  "commit ws c = zpad (nat (align512 (int (length (puts ws c))))) (puts ws c)"

definition session_write :: "int \<times> bytes \<Rightarrow> bool" where
  "session_write w \<longleftrightarrow> 0 \<le> fst w \<and> snd w \<noteq> [] \<and> fst w + int (length (snd w)) \<le> db_limit"

lemma session_write_page:
  assumes "good_page_size ps" and "list_all session_write ws"
  shows "list_all (page_write ps) ws"
  using assms(2) good_page_size_bounds(3) [OF assms(1)]
  by (auto simp: list_all_iff session_write_def page_write_def write_ok_def) (auto simp: db_limit_def)

lemma length_puts:
  "list_all session_write ws \<Longrightarrow> int (length c) \<le> db_limit \<Longrightarrow> int (length (puts ws c)) \<le> db_limit"
proof (induction ws arbitrary: c)
  case (Cons w ws)
  then show ?case using Cons.IH [of "put c (nat (fst w)) (snd w)"]
    by (cases w) (auto simp: puts_def session_write_def)
qed (simp add: puts_def)

lemma length_commit:
  assumes "int (length (puts ws c)) \<le> db_limit"
  shows "int (length (commit ws c)) = align512 (int (length (puts ws c)))" "512 dvd int (length (commit ws c))"
    "int (length (commit ws c)) \<le> db_limit"
proof -
  note b = align512_bounds [of "int (length (puts ws c))"]
  show l: "int (length (commit ws c)) = align512 (int (length (puts ws c)))"
    using b(1) by (simp add: commit_def zpad_def)
  show "512 dvd int (length (commit ws c))" unfolding l by (rule b(3))
  show "int (length (commit ws c)) \<le> db_limit"
    unfolding l using align512_mono [OF assms] align512_dvd [of db_limit] by (simp add: db_limit_def)
qed

lemma writes_act:
  "write_all sqliteObjsWrite ws p e = Some (p', e') \<Longrightarrow> eFileType p = MAIN_DB \<Longrightarrow> acts p e p' e'"
proof (induction ws arbitrary: p e)
  case (Cons w ws)
  obtain off d where w: "w = (off, d)" by (rule prod.exhaust)
  obtain p1 e1 where 1: "sqliteObjsWrite p d off e = Some (SQLITE_OK, p1, e1)" "write_all sqliteObjsWrite ws p1 e1 = Some (p', e')"
    using Cons.prems(1) w by (auto split: option.splits sqlite_rc.splits)
  have a: "acts p e p1 e1" by (rule write_acts [OF 1(1) Cons.prems(2)])
  then have "eFileType p1 = MAIN_DB" using Cons.prems(2) by (simp add: acts_def same_id_def)
  from acts_trans [OF a Cons.IH [OF 1(2) this]] show ?case .
qed (simp add: acts_refl)

lemma writeSnapshotFile_more: "posix.more (snd (writeSnapshotFile cp sn e)) = posix.more e"
  by (auto simp: writeSnapshotFile_def buildSnapshotPath_def split: if_splits option.splits prod.splits
      dest!: buildSidecarPath_frame open_trunc_frame pwrite_frame fsync_frame)

lemma unlinkSidecar_more: "posix.more (unlinkSidecarFile cp ext e) = posix.more e"
  by (auto simp: unlinkSidecarFile_def unlink_frame split: option.splits prod.splits dest!: buildSidecarPath_frame)

lemma fsync_fd_more: "posix.more (snd (fsync_fd fd e)) = posix.more e"
proof (cases fd)
  case (Some path)
  then show ?thesis using fsync_frame [of path e] by (cases "sys_fsync path e") (auto simp: fsync_fd_def)
qed (simp add: fsync_fd_def)

lemma close_cache_remote:
  fixes e :: "'w env"
  assumes "close_cache p e = (p', e')"
  shows "remote e' = remote e"
proof -
  have m: "remote (snd (writeSnapshotFile cp sn e)) = remote e" "remote (unlinkSidecarFile cp ext e) = remote e"
    "remote (snd (fsync_fd fd e)) = remote e" "remote (sys_unlink path e) = remote e"
    for cp sn ext fd path and e :: "'w env"
    using more_env [OF writeSnapshotFile_more] more_env [OF unlinkSidecar_more] more_env [OF fsync_fd_more]
      more_env unlink_frame by blast+
  show ?thesis using assms
    by (auto simp: close_cache_def Let_def m unlinkStateFile_def unlinkSnapshotFile_def unlinkEtagFile_def split: option.splits if_splits)
qed

text \<open>Closing a clean file without a lease only asks for the properties, if anything.\<close>

lemma close_calm:
  assumes "bm_nSet (dirty p) = 0" and "eFileType p = MAIN_DB" and "leaseId p = []" and "ops p = Some mock_ops"
    and "serves_db (remote e) (blob p) c"
  shows "\<exists>p' e'. sqliteObjsClose p e = (SQLITE_OK, p', e') \<and> calm (blob p) (remote e) (remote e')"
proof -
  have f: "close_flush p e = (SQLITE_OK, p, e)" using assms(1,2) by (simp add: close_flush_def)
  obtain st status err w' where 1: "mock_blob_get_properties (blob p) (remote e) = (AZURE_OK, (int (length c), st, status), err, w')"
    "calm (blob p) (remote e) w'" using mock_props_calm [OF assms(5)] by blast
  have rules: "mk_fail_rules (remote e) = []" using assms(5) by (simp add: serves_db_def)
  obtain p1 e1 where r: "close_refresh_etag SQLITE_OK p e = (p1, e1)" by (rule prod.exhaust)
  have b: "Option.bind (ops p) blob_get_properties = Some mock_blob_get_properties" using assms(4) by (simp add: mock_ops_def)
  have "calm (blob p) (remote e) (remote e1) \<and> leaseId p1 = []"
    using r 1 rules assms(3) unfolding close_refresh_etag_def b
    by (auto simp: call_azure_def calm_def same_blob_def split: if_splits)
  moreover obtain p2 e2 where c: "close_cache p1 e1 = (p2, e2)" by (rule prod.exhaust)
  moreover have "close_release p1 e1 = (p1, e1)" using calculation(1) by (simp add: close_release_def hasLease_def)
  ultimately show ?thesis using f r close_cache_remote [OF c] by (simp add: sqliteObjsClose_def)
qed

text \<open>Writes and sync of the holder of the lease.\<close>

lemma commit_published:
  assumes "db_inv p e" and "db_view p e = puts ws c" and "int (length c') = align512 (nData p)"
    and "\<forall>k. byte_at c' k = byte_at (db_file p e) k"
  shows "c' = commit ws c"
proof (rule bytes_eqI)
  have n: "int (length (puts ws c)) = nData p" using length_db_view [OF assms(1)] assms(2) by simp
  then have "int (length (commit ws c)) = align512 (nData p)" using align512_bounds(1) [of "nData p"] by (simp add: commit_def)
  then show "length c' = length (commit ws c)" using assms(3) by simp
  show "byte_at c' k = byte_at (commit ws c) k" for k
    using assms(1,4) by (auto simp: commit_def assms(2) [symmetric] db_view_def byte_at_take db_inv_def)
qed

lemma write_and_sync:
  assumes "durable_ready p e c" and "db_view p e = c" and "good_page_size (pageSize p)" and "ws \<noteq> []" and "list_all session_write ws"
    and "holding (leaseId p) (blob p) (remote e)"
  shows "\<exists>p1 e1 p2 e2. write_all sqliteObjsWrite ws p e = Some (p1, e1) \<and> sqliteObjsSync p1 e1 = (SQLITE_OK, p2, e2) \<and>
    same_id p p2 \<and> bm_nSet (dirty p2) = 0 \<and> mock_content (remote e2) (blob p) = Some (commit ws c) \<and> mock_ok (remote e2) \<and>
    holding (leaseId p) (blob p) (remote e2)"
proof -
  obtain p1 e1 where w: "write_all sqliteObjsWrite ws p e = Some (p1, e1)" "durable_ready p1 e1 c" "blob p1 = blob p"
    "db_view p1 e1 = puts ws c" "pages (dirty p1) \<noteq> {}"
    using writes_durable_ready [OF assms(1) session_write_page [OF assms(3,5)]] assms(2,4) by blast
  have d: "db_inv p1 e1" "ops p = Some mock_ops" "hasLease p" "eFileType p = MAIN_DB" "eFileType p1 = MAIN_DB" "bm_ok (dirty p1)"
    using w(2) assms(1) by (simp_all add: durable_ready_def db_inv_def db_cover_def)
  obtain off b ws' where ws: "ws = (off, b) # ws'" using assms(4) by (cases ws) auto
  have "0 < length b" using assms(5) ws by (simp add: session_write_def)
  then have "0 < length (puts ws c)"
    using puts_grow [of "put c (nat off) b" ws'] ws by (simp add: puts_def del: length_greater_0_conv)
  then have "0 < nData p1" using length_db_view [OF d(1)] unfolding w(4) by linarith
  then have "sync_ready mock_ops p1 e1" by (rule durable_sync_ready [OF w(2,5)])
  moreover have "blob_holds mock_content mock_ok e1 (blob p1) c" "mock_accepts (remote e1) (blob p1) (lease_arg p1)"
    "clean_agree p1 (db_file p1 e1) c" "nData p1 \<le> int (length (db_file p1 e1))"
    using w(2) by (simp_all add: durable_ready_def blob_holds_def db_inv_def)
  ultimately obtain p2 e2 c' where s: "sqliteObjsSync p1 e1 = (SQLITE_OK, p2, e2)" "blob_holds mock_content mock_ok e2 (blob p1) c'"
    "int (length c') = align512 (nData p1)" "\<forall>k. byte_at c' k = byte_at (db_file p1 e1) k"
    using mock_serving.sync_total [of p1 e1 c] by blast
  have c': "c' = commit ws c" by (rule commit_published [OF d(1) w(4) s(3,4)])
  have a: "acts p e p1 e1" "acts p1 e1 p2 e2" using writes_act [OF w(1) d(4)] sync_acts [OF s(1) d(5)] by simp_all
  note a2 = acts_trans [OF a]
  have "sync_db p1 e1 = (SQLITE_OK, p2, e2)" using s(1) d(5) by (simp add: sqliteObjsSync_def)
  then have "bm_nSet (dirty p2) = 0" using sync_db_dirty clearAll_fields(2) [OF bm_ok_shape [OF d(6)]] by fastforce
  then show ?thesis using w(1,3) s(1,2) c' a2 holding_acts [OF a2 d(2,3) assms(6)] by (auto simp: acts_def blob_holds_def)
qed

text \<open>Unlock and close of a clean file that holds the lease: the blob stays as it is and is free again.\<close>

lemma unlock_and_close:
  assumes "ops p = Some mock_ops" and "hasLease p" and "SQLITE_LOCK_NONE < eLock p" and "eFileType p = MAIN_DB"
    and "bm_nSet (dirty p) = 0" and "holding (leaseId p) (blob p) (remote e)"
    and "mock_content (remote e) (blob p) = Some c" and "mock_ok (remote e)" and "512 dvd int (length c)" and "int (length c) \<le> db_limit"
  shows "\<exists>p1 e1 p2 e2. sqliteObjsUnlock p SQLITE_LOCK_NONE e = (SQLITE_OK, p1, e1) \<and> sqliteObjsClose p1 e1 = (SQLITE_OK, p2, e2) \<and>
    serves_db (remote e2) (blob p) c \<and> lease_free (remote e2) (blob p)"
proof -
  define q where "q = (drop_lease (bump lease_releases_update 1 p))\<lparr>eLock := SQLITE_LOCK_NONE\<rparr>"
  obtain rc err w where r: "mock_lease_release (blob p) (leaseId p) (remote e) = (rc, err, w)" by (rule prod_cases3)
  have u: "sqliteObjsUnlock p SQLITE_LOCK_NONE e = (SQLITE_OK, q, e\<lparr>remote := w\<rparr>)"
    using assms(1-3) r by (simp add: sqliteObjsUnlock_def release_call_def mock_ops_def do_azure_def q_def Let_def)
  note rel = holding_release [OF r assms(6)]
  have "tells_etag (remote e) (blob p)" using assms(6) by (auto simp: holding_def held_blob_def tells_etag_def split: option.splits)
  then have s: "serves_db w (blob p) c" using rel(1,3) assms(7-10) by (simp add: serves_db_def same_blob_def)
  have "blob q = blob p" by (simp add: q_def drop_lease_def blob_def bump_def)
  then obtain p2 e2 where 2: "sqliteObjsClose q (e\<lparr>remote := w\<rparr>) = (SQLITE_OK, p2, e2)" "calm (blob p) w (remote e2)"
    using close_calm [of q "e\<lparr>remote := w\<rparr>" c] assms(1,4,5) s by (auto simp: q_def drop_lease_def)
  then show ?thesis using u calm_serves [OF 2(2) s] rel(2) by (auto simp: calm_def)
qed

lemma level_upd:
  "durable_ready (p\<lparr>eLock := l\<rparr>) e c = durable_ready p e c" "db_view (p\<lparr>eLock := l\<rparr>) e = db_view p e" "blob (p\<lparr>eLock := l\<rparr>) = blob p"
  by (simp_all add: durable_ready_def db_inv_def db_cover_def clean_agree_def db_file_def db_view_def hasLease_def lease_arg_def
      blob_def lease_quiet_def)

text \<open>RESERVED and EXCLUSIVE, from a SHARED lock.\<close>

lemma exclusive_quiet:
  assumes "opened p e z c" and "lease_free (remote e) z" and "eLock p = SQLITE_LOCK_SHARED"
  shows "\<exists>p1 e1 q. sqliteObjsLock p SQLITE_LOCK_RESERVED e = (SQLITE_OK, p1, e1) \<and>
    sqliteObjsLock p1 SQLITE_LOCK_EXCLUSIVE e1 = (SQLITE_OK, q, e1) \<and> durable_ready q e1 c \<and> db_view q e1 = c \<and> blob q = z \<and>
    good_page_size (pageSize q) \<and> eLock q = SQLITE_LOCK_EXCLUSIVE \<and> holding (leaseId q) z (remote e1)"
proof -
  obtain p1 e1 where 1: "sqliteObjsLock p SQLITE_LOCK_RESERVED e = (SQLITE_OK, p1, e1)" "durable_ready p1 e1 c"
    "blob p1 = z" "eLock p1 = SQLITE_LOCK_RESERVED" "good_page_size (pageSize p1)" "db_view p1 e1 = c" "tells_etag (remote e1) z"
    using reserved_quiet [OF assms] by blast
  define q where "q = p1\<lparr>eLock := SQLITE_LOCK_EXCLUSIVE\<rparr>"
  have l: "hasLease p1" using 1(2) by (simp add: durable_ready_def)
  then have a: "mock_accepts (remote e1) z (Some (leaseId p1))" using 1(2,3) by (simp add: durable_ready_def lease_arg_def)
  have 2: "sqliteObjsLock p1 SQLITE_LOCK_EXCLUSIVE e1 = (SQLITE_OK, q, e1)"
    using 1(4) l by (simp add: sqliteObjsLock_def q_def)
  have "durable_ready q e1 c" "db_view q e1 = c" "good_page_size (pageSize q)" "blob q = z" "leaseId q = leaseId p1"
      "eLock q = SQLITE_LOCK_EXCLUSIVE"
    using 1(2,3,5,6) by (simp_all add: q_def level_upd)
  moreover have "holding (leaseId p1) z (remote e1)"
    using a 1(7) by (auto simp: holding_def held_blob_def mock_accepts_def tells_etag_def split: option.splits)
  ultimately show ?thesis using 1(1) 2 by auto
qed

text \<open>A transaction in a quiet process on a free blob: every call succeeds, the blob holds the committed bytes and is free
  again.\<close>

lemma transaction_commits:
  assumes "quiet_process h z fl e" and "serves_db (remote e) z c" and "lease_free (remote e) z" and "ws \<noteq> []"
    and "list_all session_write ws"
  shows "\<exists>e'. transaction h z fl ws e = Some e' \<and> serves_db (remote e') z (commit ws c) \<and> lease_free (remote e') z"
proof -
  obtain p0 e0 where 0: "sqliteObjsOpen h (Some z) fl e = Azure (Some (SQLITE_OK, p0, e0))" "opened p0 e0 z c" "eLock p0 = 0"
    "calm z (remote e) (remote e0)" using open_quiet [OF assms(1,2)] by blast
  obtain p1 e1 where 1: "sqliteObjsLock p0 SQLITE_LOCK_SHARED e0 = (SQLITE_OK, p1, e1)" "opened p1 e1 z c"
    "eLock p1 = SQLITE_LOCK_SHARED" "calm z (remote e0) (remote e1)" using shared_quiet [OF 0(2)] 0(3) by auto
  have "lease_free (remote e1) z" using assms(3) 0(4) 1(4) by (simp add: calm_def)
  then obtain p2 e2 q where 2: "sqliteObjsLock p1 SQLITE_LOCK_RESERVED e1 = (SQLITE_OK, p2, e2)"
    "sqliteObjsLock p2 SQLITE_LOCK_EXCLUSIVE e2 = (SQLITE_OK, q, e2)" "durable_ready q e2 c" "db_view q e2 = c" "blob q = z"
    "good_page_size (pageSize q)" "eLock q = SQLITE_LOCK_EXCLUSIVE" "holding (leaseId q) z (remote e2)"
    using exclusive_quiet [OF 1(2) _ 1(3)] by blast
  obtain p3 e3 p4 e4 where
    4: "write_all sqliteObjsWrite ws q e2 = Some (p3, e3)" "sqliteObjsSync p3 e3 = (SQLITE_OK, p4, e4)" "same_id q p4"
    "bm_nSet (dirty p4) = 0" "mock_content (remote e4) z = Some (commit ws c)" "mock_ok (remote e4)" "holding (leaseId q) z (remote e4)"
    using write_and_sync [OF 2(3,4,6) assms(4,5)] 2(5,8) by auto
  have p4: "ops p4 = Some mock_ops" "blob p4 = z" "hasLease p4" "leaseId p4 = leaseId q" "SQLITE_LOCK_NONE < eLock p4" "eFileType p4 = MAIN_DB"
    using same_id_blob [OF 4(3)] 2 by (auto simp: durable_ready_def db_inv_def hasLease_def)
  have len: "int (length (puts ws c)) \<le> db_limit" using length_puts [OF assms(5)] assms(2) by (simp add: serves_db_def)
  obtain p5 e5 p6 e6 where 5: "sqliteObjsUnlock p4 SQLITE_LOCK_NONE e4 = (SQLITE_OK, p5, e5)" "sqliteObjsClose p5 e5 = (SQLITE_OK, p6, e6)"
    "serves_db (remote e6) z (commit ws c)" "lease_free (remote e6) z"
    using unlock_and_close [OF p4(1,3,5,6) 4(4) _ _ 4(6) length_commit(2,3) [OF len]] p4(2,4) 4(5,7) by auto
  have "transaction h z fl ws e = Some e6"
    unfolding transaction_def using 0(1) 1(1) 2(1,2) 4(1,2) 5(1,2) by simp
  then show ?thesis using 5(3,4) by blast
qed

section \<open>Transactions of several processes\<close>

text \<open>Processes with machines of their own, one after the other on the same container.\<close>

type_synonym session = "mock host \<times> open_flags \<times> mock env \<times> (int \<times> bytes) list"

fun transactions :: "string \<Rightarrow> session list \<Rightarrow> mock \<Rightarrow> mock option" where
  "transactions z [] w = Some w"
| "transactions z ((h, fl, e, ws) # ss) w =
     (case transaction h z fl ws (e\<lparr>remote := w\<rparr>) of None \<Rightarrow> None | Some e' \<Rightarrow> transactions z ss (remote e'))"

definition commits :: "session list \<Rightarrow> bytes \<Rightarrow> bytes" where
  "commits ss c = foldl (\<lambda>c (h, fl, e, ws). commit ws c) c ss"

definition quiet_session :: "string \<Rightarrow> session \<Rightarrow> bool" where
  "quiet_session z s = (case s of (h, fl, e, ws) \<Rightarrow> quiet_process h z fl e \<and> ws \<noteq> [] \<and> list_all session_write ws)"

lemma quiet_process_remote: "quiet_process h z fl (e\<lparr>remote := w\<rparr>) = quiet_process h z fl e"
  by (simp add: quiet_process_def no_faults_def)

lemma transactions_commit:
  assumes "serves_db w z c" and "lease_free w z" and "list_all (quiet_session z) ss"
  shows "\<exists>w'. transactions z ss w = Some w' \<and> serves_db w' z (commits ss c) \<and> lease_free w' z"
  using assms
proof (induction ss arbitrary: w c)
  case Nil
  then show ?case by (simp add: commits_def)
next
  case (Cons s ss)
  obtain h fl e ws where s: "s = (h, fl, e, ws)" by (rule prod_cases4)
  have "quiet_process h z fl (e\<lparr>remote := w\<rparr>)" "ws \<noteq> []" "list_all session_write ws"
    using Cons.prems(3) s by (simp_all add: quiet_session_def quiet_process_remote)
  from transaction_commits [OF this(1) _ _ this(2,3)] Cons.prems(1,2) obtain e' where
    "transaction h z fl ws (e\<lparr>remote := w\<rparr>) = Some e'" "serves_db (remote e') z (commit ws c)" "lease_free (remote e') z"
    by auto
  then show ?case using Cons.IH [of "remote e'" "commit ws c"] Cons.prems(3) s by (simp add: commits_def)
qed

text \<open>C1 Committed transactions reach every later process. Processes with machines of their own run transactions on the same
  database one after the other (open, SHARED, RESERVED, EXCLUSIVE, any sequence of page writes, sync, unlock, close), starting
  from a blob nobody has leased. When no call fails on their machines and in the container, all their calls succeed, and a
  process that opens the database afterwards and takes a SHARED lock reads, at every offset, exactly the bytes that all the
  writes leave in a byte array that each commit rounds up to 512 bytes; a read past its end is reported as short and filled with
  zeros.\<close>

theorem transactions_reach_next_process:
  assumes "serves_db w z c" and "lease_free w z" and "list_all (quiet_session z) ss" and "quiet_process h z fl e"
    and "0 \<le> off" and "0 < n" and "n < 2147483648"
  shows "\<exists>w' p1 e1 p2 e2 p3 e3. transactions z ss w = Some w' \<and>
    sqliteObjsOpen h (Some z) fl (e\<lparr>remote := w'\<rparr>) = Azure (Some (SQLITE_OK, p1, e1)) \<and>
    sqliteObjsLock p1 SQLITE_LOCK_SHARED e1 = (SQLITE_OK, p2, e2) \<and>
    sqliteObjsRead p2 n off e2 =
      (if nat off + nat n \<le> length (commits ss c) then SQLITE_OK else SQLITE_IOERR_SHORT_READ,
       zero_fill (nat n) (bslice (commits ss c) (nat off) (nat n)), p3, e3)"
proof -
  obtain w' where t: "transactions z ss w = Some w'" "serves_db w' z (commits ss c)"
    using transactions_commit [OF assms(1-3)] by blast
  have "quiet_process h z fl (e\<lparr>remote := w'\<rparr>)" using assms(4) by (simp add: quiet_process_remote)
  from open_quiet [OF this, of "commits ss c"] t(2) obtain p1 e1 where
    o: "sqliteObjsOpen h (Some z) fl (e\<lparr>remote := w'\<rparr>) = Azure (Some (SQLITE_OK, p1, e1))" "opened p1 e1 z (commits ss c)" "eLock p1 = 0"
    by auto
  obtain p2 e2 where l: "sqliteObjsLock p1 SQLITE_LOCK_SHARED e1 = (SQLITE_OK, p2, e2)" "opened p2 e2 z (commits ss c)"
    using shared_quiet [OF o(2)] o(3) by auto
  have "db_inv p2 e2" "db_view p2 e2 = commits ss c" using l(2) by (simp_all add: opened_def db_view_def)
  from db_read_view [OF this(1) assms(5-7)] this(2) t(1) o(1) l(1) show ?thesis by auto
qed

text \<open>A container with a free database of no bytes.\<close>

definition sample_container :: mock where
  "sample_container = mock_azure_create\<lparr>mk_blobs := [new_blob ''db'' BLOB_TYPE_PAGE]\<rparr>"

definition db_flags :: open_flags where
  "db_flags = \<lparr>of_main_db = True, of_main_journal = False, of_wal = False, of_create = False\<rparr>"

lemma sample_container_facts: "serves_db sample_container ''db'' []" "lease_free sample_container ''db''"
  by (simp_all add: sample_container_def serves_db_def lease_free_def db_limit_def mock_content_def mock_ok_def tells_etag_def
      find_blob_def blob_at_def new_blob_def mock_azure_create_def blob_sound_def bump_etag_def)

lemma process_quiet: "quiet_process quiet_host ''db'' db_flags (process_start w)"
  by (simp add: quiet_process_def process_start_def db_flags_def quiet_host_def env_start_def no_faults_def
      sqlite_objs_parse_uri_config_def Let_def)

text \<open>Two transactions that overlap, and a reader.\<close>

theorem transactions_reach_next_process_witness:
  "\<exists>w' p1 e1 p2 e2 p3 e3.
    transactions ''db'' [(quiet_host, db_flags, process_start mock_azure_create, [(0, [1, 2, 3])]),
      (quiet_host, db_flags, process_start mock_azure_create, [(4, [7, 8, 9]), (1, [4])])] sample_container = Some w' \<and>
    sqliteObjsOpen quiet_host (Some ''db'') db_flags ((process_start mock_azure_create)\<lparr>remote := w'\<rparr>) = Azure (Some (SQLITE_OK, p1, e1)) \<and>
    sqliteObjsLock p1 SQLITE_LOCK_SHARED e1 = (SQLITE_OK, p2, e2) \<and>
    sqliteObjsRead p2 8 0 e2 = (SQLITE_OK, [1, 4, 3, 0, 7, 8, 9, 0], p3, e3)"
proof -
  let ?ss = "[(quiet_host, db_flags, process_start mock_azure_create, [(0, [1, 2, 3])]),
      (quiet_host, db_flags, process_start mock_azure_create, [(4, [7, 8, 9]), (1, [4])])] :: session list"
  have c: "commits ?ss [] = [1, 4, 3, 0, 7, 8, 9] @ replicate 505 0"
    by (simp add: commits_def commit_def puts_def put_def zpad_def align512_mod numeral_eq_Suc)
  have "list_all (quiet_session ''db'') ?ss"
    using process_quiet by (simp add: quiet_session_def session_write_def db_limit_def)
  from transactions_reach_next_process [OF sample_container_facts this process_quiet, of 0 8] show ?thesis
    unfolding c by (simp add: zero_fill_def bslice_def numeral_eq_Suc)
qed

section \<open>A writer that crashed\<close>

text \<open>A write with a lease id is refused by a free blob, and changes nothing.\<close>

lemma late_write_refused:
  assumes "mock_page_blob_write z off d (Some l) im w = (rc, err, w')" and "lease_free w z" and "l \<noteq> []"
  shows "rc \<noteq> AZURE_OK \<and> mock_content w' z = mock_content w z"
proof -
  obtain rc1 e1 w1 where 1: "pre_call OP_PAGE_BLOB_WRITE w = (rc1, e1, w1)" by (rule prod_cases3)
  note fr = pre_call_frame [OF 1]
  obtain i where i: "find_blob w z = Some i" "mb_lease_state (blob_at w i) = LEASE_AVAILABLE \<or> mock_lease_expired w (blob_at w i)"
    using assms(2) by (auto simp: lease_free_def split: option.splits)
  define b where "b = (if mock_lease_expired w (blob_at w i) then mock_clear_lease (blob_at w i) else blob_at w i)"
  obtain rc2 e2 b2 where v: "validate_lease_id w (blob_at w i) (Some l) = (rc2, e2, b2)" by (rule prod_cases3)
  then have v2: "rc2 \<noteq> AZURE_OK" "b2 = b"
    using i(2) assms(3) by (auto simp: validate_lease_id_def no_id_def b_def split: if_splits)
  have "rc \<noteq> AZURE_OK \<and> (w' = w1 \<or> w' = put_blob i b w1)"
    using assms(1) 1 i(1) v v2 fr(3,4,9) by (auto simp: mock_page_blob_write_def Let_def split: if_splits)
  moreover have "same_blob z w1 (put_blob i b w1)"
    using i(1) fr(3,4) by (intro same_blob_put [of w1 z i b]) (simp_all add: b_def mock_clear_lease_def)
  ultimately show ?thesis using fr(6) by (auto simp: same_blob_def)
qed

lemma advance_frame:
  "mk_fail_rules (mock_chaos_advance_time n w) = mk_fail_rules w" "mk_blobs (mock_chaos_advance_time n w) = mk_blobs w"
  by (simp_all add: mock_chaos_advance_time_def)

lemma advance_serves: "serves_db w z c \<Longrightarrow> serves_db (mock_chaos_advance_time n w) z c"
  using same_blob_blobs [OF advance_frame(2) [of n w], of z] advance_frame(1) by (simp add: serves_db_def same_blob_def)

text \<open>C5 A crashed writer does not block the database, and cannot come back. When the client that holds the lease of the blob
  stops renewing it, then once the lease has run out a transaction of any other process succeeds; afterwards every page write
  that the first client still sends with its old lease is refused and leaves the committed contents as they are.\<close>

theorem expired_lease_is_taken_over:
  assumes "serves_db w z c" and "find_blob w z = Some i" and "mb_lease_state (blob_at w i) = LEASE_LEASED" and "l = mb_lease_id (blob_at w i)"
    and "l \<noteq> []" and "0 \<le> mb_lease_duration (blob_at w i)"
    and "mb_lease_acquired_at (blob_at w i) + mb_lease_duration (blob_at w i) \<le> mock_time_now w + secs"
    and "- 2147483648 \<le> mk_time_offset w + secs" and "mk_time_offset w + secs < 2147483648"
    and "quiet_process h z fl e" and "ws \<noteq> []" and "list_all session_write ws"
  shows "\<exists>e'. transaction h z fl ws (e\<lparr>remote := mock_chaos_advance_time secs w\<rparr>) = Some e' \<and>
    mock_content (remote e') z = Some (commit ws c) \<and>
    (\<forall>off d im rc err w'. mock_page_blob_write z off d (Some l) im (remote e') = (rc, err, w') \<longrightarrow>
       rc \<noteq> AZURE_OK \<and> mock_content w' z = Some (commit ws c))"
proof -
  let ?w = "mock_chaos_advance_time secs w"
  have "c_int (mk_time_offset w + secs) = mk_time_offset w + secs"
    using assms(8,9) by (simp add: c_int_def signed_take_bit_int_eq_self_iff)
  then have "mock_time_now ?w = mock_time_now w + secs" by (simp add: mock_time_now_def mock_chaos_advance_time_def)
  moreover have "find_blob ?w z = Some i" "blob_at ?w i = blob_at w i"
    using assms(2) advance_frame(2) by (simp_all add: find_blob_def blob_at_def)
  ultimately have "lease_free ?w z" using assms(3,6,7) by (simp add: lease_free_def mock_lease_expired_def)
  moreover have "quiet_process h z fl (e\<lparr>remote := ?w\<rparr>)" using assms(10) by (simp add: quiet_process_remote)
  ultimately obtain e' where "transaction h z fl ws (e\<lparr>remote := ?w\<rparr>) = Some e'" "serves_db (remote e') z (commit ws c)"
    "lease_free (remote e') z"
    using transaction_commits [of h z fl "e\<lparr>remote := ?w\<rparr>" c ws] advance_serves [OF assms(1)] assms(11,12) by auto
  then show ?thesis using late_write_refused assms(5) by (auto simp: serves_db_def)
qed

theorem expired_lease_is_taken_over_witness:
  "\<exists>e'. transaction quiet_host ''db'' db_flags [(0, [1, 2, 3])] ((process_start mock_azure_create)\<lparr>remote := mock_chaos_advance_time 30 sample_mock\<rparr>) = Some e' \<and>
    mock_content (remote e') ''db'' = Some ([1, 2, 3] @ replicate 509 0) \<and>
    (\<forall>rc err w'. mock_page_blob_write ''db'' 0 (replicate 512 9) (Some ''L'') None (remote e') = (rc, err, w') \<longrightarrow>
       rc \<noteq> AZURE_OK \<and> mock_content w' ''db'' = Some ([1, 2, 3] @ replicate 509 0))"
proof -
  have s: "serves_db sample_mock ''db'' []"
    using sample_mock_facts by (simp add: serves_db_def mock_accepts_def db_limit_def)
      (simp add: tells_etag_def sample_mock_def find_blob_def blob_at_def new_blob_def mock_azure_create_def bump_etag_def)
  have c: "commit [(0, [1, 2, 3])] [] = [1, 2, 3] @ replicate 509 0"
    by (simp add: commit_def puts_def put_def zpad_def align512_mod)
  have f: "find_blob sample_mock ''db'' = Some 0" "mb_lease_state (blob_at sample_mock 0) = LEASE_LEASED" "''L'' = mb_lease_id (blob_at sample_mock 0)"
    "mb_lease_duration (blob_at sample_mock 0) = 30" "mb_lease_acquired_at (blob_at sample_mock 0) = 0" "mock_time_now sample_mock = 0"
    "mk_time_offset sample_mock = 0"
    by (simp_all add: sample_mock_def find_blob_def blob_at_def new_blob_def mock_azure_create_def bump_etag_def mock_time_now_def)
  have "list_all session_write [(0, [1, 2, 3])]" by (simp add: session_write_def db_limit_def)
  from expired_lease_is_taken_over [OF s f(1-3) _ _ _ _ _ process_quiet [of mock_azure_create] _ this, of 30] f(4-7) show ?thesis
    unfolding c by fastforce
qed

end
