(* ===== verification/Cache_Reuse.thy ===== *)
theory Cache_Reuse
  imports Session
begin

text \<open>
  Cache files that outlive the process (\<^verbatim>\<open>cache_reuse\<close>): \<^verbatim>\<open>xClose\<close> leaves the cache file with its ETag beside it, and the next
  \<^verbatim>\<open>xOpen\<close> on the machine adopts it when that ETag is the blob's. The first theorem shows that the round trip saves the
  download, the second one that it can hand out stale data, because the ETag is asked for when the file is closed.
\<close>

section \<open>Cache files that outlive their process\<close>

text \<open>A process that opens \<open>z\<close> with \<^verbatim>\<open>cache_reuse\<close>, through the client of the VFS and with prefetching.\<close>

definition reuse_process :: "mock host \<Rightarrow> string \<Rightarrow> open_flags \<Rightarrow> mock env \<Rightarrow> bool" where
  "reuse_process h z fl e \<longleftrightarrow> z \<noteq> [] \<and> of_main_db fl \<and> \<not> of_main_journal fl \<and> \<not> of_wal fl \<and>
     sqlite_objs_parse_uri_config h z = None \<and> uri_parameter h z ''prefetch'' = None \<and> uri_boolean h z ''cache_reuse'' False \<and>
     vd_ops (vfs_data e) = Some mock_ops \<and> no_faults e \<and> ticks e = []"

text \<open>The path of its cache file.\<close>

definition reuse_path :: "mock host \<Rightarrow> string \<Rightarrow> string" where
  "reuse_path h z =
     (let dir = (case uri_parameter h z ''cache_dir'' of None \<Rightarrow> ''/tmp'' | Some d \<Rightarrow> if d = [] then ''/tmp'' else d);
          dir = (if dir \<noteq> [] \<and> last dir = CHR ''/'' then butlast dir else dir)
      in (dir @ ''/sqlite-objs-'' @
          hex16 (fnv1a_hash (cache_key (uri_parameter h z ''azure_account'') (uri_parameter h z ''azure_container'') z))) @ ''.cache'')"

lemma uri_cache_path_quiet: "no_faults e \<Longrightarrow> uri_cache_path h z e = (Some (reuse_path h z), e)"
  by (simp add: uri_cache_path_def buildCachePath_def reuse_path_def malloc_ok Let_def split: option.split)

lemma etag_path_other: "ends_with cp ''.cache'' \<Longrightarrow> sidecar_path cp ''.etag'' \<noteq> cp"
  by (auto simp: sidecar_path_def ends_with_cache dest: arg_cong [where f = length])

lemma reuse_path_ends: "ends_with (reuse_path h z) ''.cache''"
proof -
  have "\<exists>a. reuse_path h z = a @ ''.cache''" unfolding reuse_path_def Let_def by (rule exI, rule refl)
  then show ?thesis by (auto simp: ends_with_cache)
qed

text \<open>A clean database file on a cache file \<open>path\<close> with the bytes \<open>d\<close>, which is kept when the file is closed. It holds no lease.\<close>

definition clean_cache :: "mock sqliteObjsFile \<Rightarrow> mock env \<Rightarrow> string \<Rightarrow> bytes \<Rightarrow> bool" where
  "clean_cache p e path d \<longleftrightarrow> eFileType p = MAIN_DB \<and> ops p = Some mock_ops \<and> zBlobName p \<noteq> None \<and> cacheReuse p \<and>
     cacheFd p = Some path \<and> zCachePath p = Some path \<and> fs e path = Some d \<and> bm_ok (dirty p) \<and> pages (dirty p) = {} \<and>
     bm_data (valid p) = None \<and> leaseId p = [] \<and> snapshot p = [] \<and> no_faults e"

text \<open>Its close stores the ETag the blob has by then, and leaves the cache file.\<close>

lemma close_reuse:
  assumes "clean_cache p e path d" and "serves_db (remote e) (blob p) c" and "storable (mock_etag (remote e) (blob p))"
  shows "\<exists>p' w'. sqliteObjsClose p e = (SQLITE_OK, p',
      set_file (sidecar_path path ''.etag'') (bytes_of_string (mock_etag (remote e) (blob p))) (e\<lparr>remote := w'\<rparr>)) \<and>
    calm (blob p) (remote e) w'"
proof -
  let ?et = "mock_etag (remote e) (blob p)"
  have c: "bm_nSet (dirty p) = 0" "\<not> bitmapHasAny (dirty p)" using assms(1)
    by (simp_all add: clean_cache_def nSet_zero_iff hasAny_pages bm_ok_shape)
  have f: "close_flush p e = (SQLITE_OK, p, e)" using assms(1) c(1) by (simp add: close_flush_def clean_cache_def)
  obtain st status err w' where 1: "mock_blob_get_properties (blob p) (remote e) = (AZURE_OK, (int (length c), st, status), err, w')"
    "err_etag err = ?et" "calm (blob p) (remote e) w'" using mock_props_calm [OF assms(2)] by blast
  have "Option.bind (ops p) blob_get_properties = Some mock_blob_get_properties" using assms(1) by (simp add: clean_cache_def mock_ops_def)
  then have r: "close_refresh_etag SQLITE_OK p e = (p\<lparr>etag := ?et\<rparr>, e\<lparr>remote := w'\<rparr>)"
    using 1 assms(1,3) by (auto simp: close_refresh_etag_def call_azure_def clean_cache_def storable_def)
  have l: "close_release (p\<lparr>etag := ?et\<rparr>) (e\<lparr>remote := w'\<rparr>) = (p\<lparr>etag := ?et\<rparr>, e\<lparr>remote := w'\<rparr>)"
    using assms(1) by (simp add: close_release_def hasLease_def clean_cache_def)
  have nf: "no_faults (e\<lparr>remote := w'\<rparr>)" using assms(1) by (simp add: clean_cache_def no_faults_def)
  have "\<exists>q. close_cache (p\<lparr>etag := ?et\<rparr>) (e\<lparr>remote := w'\<rparr>) =
      (q, set_file (sidecar_path path ''.etag'') (bytes_of_string ?et) (e\<lparr>remote := w'\<rparr>))"
    using assms(1,3) c(2) write_etag_quiet [OF nf assms(3)] fsync_ok [OF nf]
    by (simp add: close_cache_def clean_cache_def storable_def fsync_fd_def Let_def)
  then show ?thesis using f r l 1(3) by (auto simp: sqliteObjsClose_def)
qed

text \<open>An open that finds a cache file of the right size beside the current ETag adopts it without a download.\<close>

lemma open_hit_quiet:
  assumes "no_faults e" and "fs e path = Some d" and "prefetchMode p = 0" and "good_page_size (pageSize p)"
    and "dirty p = bitmap_empty" and "d \<noteq> []" and "int (length d) \<le> db_limit"
  shows "\<exists>ps dm sn. open_hit path (int (length d)) p e =
      (p\<lparr>cacheFd := Some path, zCachePath := Some path, cacheReuse := True, nData := int (length d), pageSize := ps, dirty := dm,
         lastSyncedSize := int (length d), snapshot := sn\<rparr>, e) \<and> good_page_size ps \<and> bm_ok dm \<and> pages dm = {} \<and>
    int (length d) \<le> capacity dm * ps"
proof -
  let ?n = "int (length d)"
  define p1 where "p1 = p\<lparr>cacheFd := Some path, zCachePath := Some path, cacheReuse := True, nData := ?n\<rparr>"
  obtain ps where h: "detect_header p1 e = (p1\<lparr>pageSize := ps\<rparr>, e)" "good_page_size ps"
    using detect_header_good [of p1 e] assms(1,4) by (cases "detect_header p1 e") (auto simp: p1_def)
  obtain dm where b: "bitmapsEnsureCapacity (p1\<lparr>pageSize := ps\<rparr>) e = (SQLITE_OK, p1\<lparr>pageSize := ps, dirty := dm\<rparr>, e)"
    "bitmapEnsureCapacity bitmap_empty ?n ps e = (SQLITE_OK, dm, e)"
    using bitmapsEnsure_quiet [OF assms(1), of "p1\<lparr>pageSize := ps\<rparr>"] assms(3,5) by (auto simp: p1_def)
  have c: "bm_ok dm" "pages dm = {}" "?n \<le> capacity dm * ps"
    using ensureCapacity_covers [OF bm_ok_empty b(2)] good_page_size_bounds [OF h(2)] assms(6,7)
    by (auto simp: pages_no_data bitmap_empty_def)
  obtain r sn where s: "readSnapshotFile (Some path) 128 e = ((r, sn), e)" using read_snapshot_quiet [OF assms(1)] by fastforce
  have "open_hit path ?n p e = (p1\<lparr>pageSize := ps, dirty := dm, lastSyncedSize := ?n, snapshot := if r = 0 then sn else snapshot p\<rparr>, e)"
    using h(1) b(1) s assms(3) unfolding open_hit_def p1_def [symmetric] Let_def by (simp add: p1_def)
  then show ?thesis using h(2) c unfolding p1_def by (intro exI conjI) simp_all
qed

lemma open_reuse_hit:
  assumes "no_faults e" and "fs e path = Some d" and "storable (etag p)" and "fs e (sidecar_path path ''.etag'') = Some (bytes_of_string (etag p))"
    and "open_hit path (int (length d)) p e = (p', e)"
  shows "open_reuse path (int (length d)) p e = (Cache_ready, p', e)"
proof -
  have "buildEtagPath (Some path) e = (Some (sidecar_path path ''.etag''), e)"
    using assms(1) by (simp add: buildEtagPath_def posix_simps)
  then show ?thesis using read_etag_quiet [OF assms(1,3,4)] assms(1,2,3,5)
    by (simp add: open_reuse_def posix_simps file_of_def storable_def)
qed

text \<open>An open file whose cache holds \<open>d\<close> under the current ETag of its blob.\<close>

definition adopted :: "mock sqliteObjsFile \<Rightarrow> mock env \<Rightarrow> string \<Rightarrow> bytes \<Rightarrow> bool" where
  "adopted p e z d \<longleftrightarrow> db_inv p e \<and> db_cover p e \<and> ops p = Some mock_ops \<and> blob p = z \<and> pages (dirty p) = {} \<and>
     db_view p e = d \<and> etag p = mock_etag (remote e) z \<and> nDownloads p = 0 \<and> cacheReuse p \<and> leaseId p = []"

lemma open_adopts:
  assumes "reuse_process h z fl e" and "serves_db (remote e) z c" and "c \<noteq> []" and "fs e (reuse_path h z) = Some d"
    and "length d = length c" and "storable (mock_etag (remote e) z)"
    and "fs e (sidecar_path (reuse_path h z) ''.etag'') = Some (bytes_of_string (mock_etag (remote e) z))"
  shows "\<exists>p' w'. sqliteObjsOpen h (Some z) fl e = Azure (Some (SQLITE_OK, p', e\<lparr>remote := w'\<rparr>)) \<and> eLock p' = 0 \<and>
    adopted p' (e\<lparr>remote := w'\<rparr>) z d \<and> calm z (remote e) w'"
proof -
  let ?path = "reuse_path h z" and ?et = "mock_etag (remote e) z"
  have q: "z \<noteq> []" "of_main_db fl" "sqlite_objs_parse_uri_config h z = None" "vd_ops (vfs_data e) = Some mock_ops" "no_faults e"
     "\<not> of_main_journal fl" "\<not> of_wal fl" "uri_parameter h z ''prefetch'' = None" "uri_boolean h z ''cache_reuse'' False"
    using assms(1) by (simp_all add: reuse_process_def)
  define p1 where "p1 = (open_init h z fl (file_zero\<lparr>zBlobName := Some z, ops := Some mock_ops\<rparr>))\<lparr>etag := ?et\<rparr>"
  obtain w where w: "calm z (remote e) w"
    and run: "\<forall>choice p e' p' e''. open_choose h z (int (length c)) p1 (e\<lparr>remote := w\<rparr>) = (choice, p, e') \<longrightarrow>
      choice = Cache_ready \<and> p' = p \<and> e'' = e' \<or> choice = Cache_download \<and> cache_download z (int (length c)) p e' = Inr (p', e'') \<longrightarrow>
      sqliteObjsOpen h (Some z) fl e = Azure (Some (SQLITE_OK, p'\<lparr>dirty := bitmapClearAll (dirty p'), pMethod := True\<rparr>, e''))"
    using open_existing_run [OF q(1-5) assms(2) p1_def] by blast
  define e2 where "e2 = e\<lparr>remote := w\<rparr>"
  have e2: "no_faults e2" "fs e2 = fs e" "remote e2 = w" using q(5) by (simp_all add: e2_def no_faults_def)
  have p: "prefetchMode p1 = 0" "good_page_size (pageSize p1)" "dirty p1 = bitmap_empty" "etag p1 = ?et"
    using q(8) pow2_page_size [of 4096] by (simp_all add: p1_def open_init_def file_zero_def)
  have d: "d \<noteq> []" "int (length d) \<le> db_limit" using assms(2,3,5) by (auto simp: serves_db_def)
  obtain ps dm sn where 3: "open_hit ?path (int (length d)) p1 e2 =
      (p1\<lparr>cacheFd := Some ?path, zCachePath := Some ?path, cacheReuse := True, nData := int (length d), pageSize := ps, dirty := dm,
         lastSyncedSize := int (length d), snapshot := sn\<rparr>, e2)" "good_page_size ps" "bm_ok dm" "pages dm = {}"
      "int (length d) \<le> capacity dm * ps"
    using open_hit_quiet [OF e2(1) _ p(1-3) d, of ?path] assms(4) e2(2) by auto
  define p2 where "p2 = p1\<lparr>cacheFd := Some ?path, zCachePath := Some ?path, cacheReuse := True, nData := int (length d),
         pageSize := ps, dirty := dm, lastSyncedSize := int (length d), snapshot := sn\<rparr>"
  have "open_reuse ?path (int (length c)) p1 e2 = (Cache_ready, p2, e2)"
    using open_reuse_hit [OF e2(1), of ?path d p1 p2] assms(4-7) e2(2) p(4) 3(1) by (simp add: p2_def)
  then have "open_choose h z (int (length c)) p1 e2 = (Cache_ready, p2, e2)"
    using q(9) assms(3) uri_cache_path_quiet [OF e2(1)] by (simp add: open_choose_def)
  from run [rule_format, OF this [unfolded e2_def], of p2 e2]
  have "sqliteObjsOpen h (Some z) fl e = Azure (Some (SQLITE_OK, p2\<lparr>dirty := bitmapClearAll (dirty p2), pMethod := True\<rparr>, e2))" by (simp add: e2_def)
  moreover have "adopted (p2\<lparr>dirty := bitmapClearAll (dirty p2), pMethod := True\<rparr>) e2 z d"
    using 3(2-5) e2 q(6-8) assms(4) calm_etag [OF w] good_page_size_bounds(1) [OF 3(2)]
    by (simp add: adopted_def p2_def p1_def open_init_def file_zero_def db_inv_def db_cover_def db_file_def db_view_def blob_def
        file_of_def lease_quiet_def hasLease_def pages_clearAll bm_ok_clearAll bm_ok_shape clearAll_fields capacity_def byte_at_out)
  moreover have "eLock p2 = 0" by (simp add: p2_def p1_def open_init_def)
  ultimately show ?thesis using w unfolding e2_def
    by (intro exI [of _ "p2\<lparr>dirty := bitmapClearAll (dirty p2), pMethod := True\<rparr>"] exI [of _ w]) simp
qed

lemma adopted_shared:
  assumes "adopted p e z d" and "eLock p < SQLITE_LOCK_SHARED" and "serves_db (remote e) z c"
  shows "\<exists>p' e'. sqliteObjsLock p SQLITE_LOCK_SHARED e = (SQLITE_OK, p', e') \<and> adopted p' e' z d \<and> calm z (remote e) (remote e')"
proof -
  have o: "eFileType p = MAIN_DB" "cacheFd p \<noteq> None" "ops p = Some mock_ops" "blob p = z" "etag p = mock_etag (remote e) z"
    using assms(1) by (auto simp: adopted_def db_inv_def)
  obtain q w' where l: "sqliteObjsLock p SQLITE_LOCK_SHARED e = (SQLITE_OK, q\<lparr>eLock := SQLITE_LOCK_SHARED\<rparr>, e\<lparr>remote := w'\<rparr>)"
    "q = bump revalidations_update 1 (p\<lparr>readsSinceSharedLock := 0\<rparr>)" "calm z (remote e) w'"
    using shared_same_etag [OF o assms(3,2)] by blast
  have f: "db_file (q\<lparr>eLock := SQLITE_LOCK_SHARED\<rparr>) (e\<lparr>remote := w'\<rparr>) = db_file p e"
    by (simp add: l(2) db_file_def file_of_def split: option.split)
  have "adopted (q\<lparr>eLock := SQLITE_LOCK_SHARED\<rparr>) (e\<lparr>remote := w'\<rparr>) z d"
    using assms(1) f calm_etag [OF l(3)] l(2)
    by (simp add: adopted_def db_inv_def db_cover_def db_view_def lease_quiet_def hasLease_def blob_def no_faults_def)
  then show ?thesis using l(1,3) by auto
qed

text \<open>Close and open again on the same machine.\<close>

lemma close_then_open:
  assumes "clean_cache p e (reuse_path h (blob p)) d" and "serves_db (remote e) (blob p) c" and "c \<noteq> []" and "length d = length c"
    and "storable (mock_etag (remote e) (blob p))" and "reuse_process h (blob p) fl e"
  shows "\<exists>p1 e1 p2 e2 p3 e3. sqliteObjsClose p e = (SQLITE_OK, p1, e1) \<and>
    sqliteObjsOpen h (Some (blob p)) fl e1 = Azure (Some (SQLITE_OK, p2, e2)) \<and>
    sqliteObjsLock p2 SQLITE_LOCK_SHARED e2 = (SQLITE_OK, p3, e3) \<and> adopted p3 e3 (blob p) d \<and>
    mock_content (remote e3) (blob p) = Some c"
proof -
  let ?path = "reuse_path h (blob p)" and ?et = "mock_etag (remote e) (blob p)"
  obtain p1 w1 where 1: "sqliteObjsClose p e = (SQLITE_OK, p1, set_file (sidecar_path ?path ''.etag'') (bytes_of_string ?et) (e\<lparr>remote := w1\<rparr>))"
    "calm (blob p) (remote e) w1" using close_reuse [OF assms(1,2,5)] by blast
  define e1 where "e1 = set_file (sidecar_path ?path ''.etag'') (bytes_of_string ?et) (e\<lparr>remote := w1\<rparr>)"
  have e1: "remote e1 = w1" "fs e1 (sidecar_path ?path ''.etag'') = Some (bytes_of_string ?et)" "fs e1 ?path = Some d"
      "reuse_process h (blob p) fl e1"
    using assms(1,6) etag_path_other [OF reuse_path_ends, of h "blob p"]
    by (auto simp: e1_def clean_cache_def reuse_process_def no_faults_def set_file_def)
  have et: "mock_etag w1 (blob p) = ?et" by (rule calm_etag [OF 1(2)])
  have s1: "serves_db w1 (blob p) c" by (rule calm_serves [OF 1(2) assms(2)])
  obtain p2 w2 where 2: "sqliteObjsOpen h (Some (blob p)) fl e1 = Azure (Some (SQLITE_OK, p2, e1\<lparr>remote := w2\<rparr>))" "eLock p2 = 0"
    "adopted p2 (e1\<lparr>remote := w2\<rparr>) (blob p) d" "calm (blob p) w1 w2"
    using open_adopts [OF e1(4), of c d] assms(3-5) e1(1-3) et s1 by auto
  have s2: "serves_db w2 (blob p) c" by (rule calm_serves [OF 2(4) s1])
  obtain p3 e3 where 3: "sqliteObjsLock p2 SQLITE_LOCK_SHARED (e1\<lparr>remote := w2\<rparr>) = (SQLITE_OK, p3, e3)" "adopted p3 e3 (blob p) d"
    "calm (blob p) w2 (remote e3)"
    using adopted_shared [OF 2(3), of c] 2(2) s2 by auto
  have "mock_content (remote e3) (blob p) = Some c" using calm_serves [OF 3(3) s2] by (simp add: serves_db_def)
  then show ?thesis using 1(1) 2(1) 3 unfolding e1_def by blast
qed


text \<open>C32 The close of a reader can pair a stale cache with a fresh ETag. \<^verbatim>\<open>xClose\<close> stores the ETag the blob has at that moment
  beside the cache file, also when the file holds no lease and another client has written since. If the new contents have the same
  size, the next open adopts the old cache file, the SHARED lock finds the ETags equal, and the reader sees the old bytes while the
  blob holds the new ones.\<close>

theorem close_pairs_stale_cache:
  assumes "clean_cache p e (reuse_path h (blob p)) d" and "serves_db (remote e) (blob p) c" and "length d = length c" and "d \<noteq> c"
    and "storable (mock_etag (remote e) (blob p))" and "reuse_process h (blob p) fl e"
  shows "\<exists>p1 e1 p2 e2 p3 e3. sqliteObjsClose p e = (SQLITE_OK, p1, e1) \<and>
    sqliteObjsOpen h (Some (blob p)) fl e1 = Azure (Some (SQLITE_OK, p2, e2)) \<and>
    sqliteObjsLock p2 SQLITE_LOCK_SHARED e2 = (SQLITE_OK, p3, e3) \<and>
    mock_content (remote e3) (blob p) = Some c \<and> db_view p3 e3 = d \<and> db_view p3 e3 \<noteq> c"
proof -
  have "c \<noteq> []" using assms(3,4) by auto
  from close_then_open [OF assms(1,2) this assms(3,5,6)] show ?thesis using assms(4) by (auto simp: adopted_def)
qed

section \<open>A machine with a cache file\<close>

definition reuse_host :: "mock host" where
  "reuse_host = quiet_host\<lparr>uri_boolean := (\<lambda>_ k b. k = ''cache_reuse'' \<or> b)\<rparr>"

definition cached_file :: "mock sqliteObjsFile" where
  "cached_file = file_zero\<lparr>pMethod := True, ops := Some mock_ops, zBlobName := Some ''db'', cacheFd := Some (reuse_path reuse_host ''db''),
     zCachePath := Some (reuse_path reuse_host ''db''), nData := 512, pageSize := 4096, cacheReuse := True, etag := ''old''\<rparr>"

text \<open>The container holds 512 times the byte 7, the cache file 512 times \<open>b\<close>.\<close>

definition cached_env :: "byte \<Rightarrow> mock env" where
  "cached_env b = set_file (reuse_path reuse_host ''db'') (replicate 512 b)
     (process_start (mock_azure_create\<lparr>mk_blobs := [(new_blob ''db'' BLOB_TYPE_PAGE)\<lparr>mb_data := replicate 512 7, mb_size := 512\<rparr>]\<rparr>))"

lemma cached_facts:
  "clean_cache cached_file (cached_env b) (reuse_path reuse_host (blob cached_file)) (replicate 512 b)"
  "serves_db (remote (cached_env b)) (blob cached_file) (replicate 512 7)"
  "storable (mock_etag (remote (cached_env b)) (blob cached_file))"
  "reuse_process reuse_host (blob cached_file) db_flags (cached_env b)" "blob cached_file = ''db''"
proof -
  show n: "blob cached_file = ''db''" by (simp add: cached_file_def blob_def)
  show "clean_cache cached_file (cached_env b) (reuse_path reuse_host (blob cached_file)) (replicate 512 b)"
    unfolding n by (simp add: clean_cache_def cached_file_def cached_env_def process_start_def env_start_def no_faults_def file_zero_def)
      (simp add: pages_no_data bitmap_empty_def)
  show "serves_db (remote (cached_env b)) (blob cached_file) (replicate 512 7)"
    unfolding n by (simp add: serves_db_def cached_env_def process_start_def env_start_def db_limit_def mock_content_def mock_ok_def
        tells_etag_def find_blob_def blob_at_def new_blob_def mock_azure_create_def blob_sound_def bump_etag_def byte_at_out)
  have "mock_etag (remote (cached_env b)) ''db'' = CHR 0x22 # ''mock-etag-v0001'' @ [CHR 0x22]"
    by (simp add: cached_env_def process_start_def env_start_def mock_etag_def find_blob_def blob_at_def new_blob_def
        mock_azure_create_def bump_etag_def) code_simp
  then show "storable (mock_etag (remote (cached_env b)) (blob cached_file))" unfolding n by (simp add: storable_def is_trailing_space_def)
  show "reuse_process reuse_host (blob cached_file) db_flags (cached_env b)"
    unfolding n by (simp add: reuse_process_def reuse_host_def quiet_host_def db_flags_def cached_env_def process_start_def env_start_def
        no_faults_def sqlite_objs_parse_uri_config_def set_file_def)
qed


theorem close_pairs_stale_cache_witness:
  "\<exists>p1 e1 p2 e2 p3 e3. sqliteObjsClose cached_file (cached_env 1) = (SQLITE_OK, p1, e1) \<and>
    sqliteObjsOpen reuse_host (Some ''db'') db_flags e1 = Azure (Some (SQLITE_OK, p2, e2)) \<and>
    sqliteObjsLock p2 SQLITE_LOCK_SHARED e2 = (SQLITE_OK, p3, e3) \<and>
    mock_content (remote e3) ''db'' = Some (replicate 512 7) \<and> db_view p3 e3 = replicate 512 1"
  using close_pairs_stale_cache [OF cached_facts(1) [of 1] cached_facts(2) [of 1] _ _ cached_facts(3,4)] unfolding cached_facts(5) by auto

end
