(* ===== verification/Lazy_Cache.thy ===== *)
theory Lazy_Cache
  imports Mock_Azure
begin

text \<open>
  The database cache that is filled on demand (\<^verbatim>\<open>prefetch=none\<close>): \<open>xRead\<close> with its page loop, the fetch of a readahead window
  and the bitmap of valid pages. The interface to the backend is the locale \<open>range_reader\<close>, whose law is that ranged reads
  return the bytes of the blob; the mock backend is an interpretation of it.
\<close>

section \<open>A cache filled on demand\<close>

text \<open>The size limits of a page count, and which bytes a range of pages covers.\<close>

lemma page_count_bound:
  assumes "page_geometry p"
  shows "page_count p < 2147483641"
proof -
  have ps: "0 < pageSize p" "nData p < 2147483640 * pageSize p" using assms by (simp_all add: page_geometry_def)
  have "nData p + pageSize p - 1 < 2147483641 * pageSize p" using ps by (simp add: algebra_simps)
  moreover have "page_count p * pageSize p \<le> nData p + pageSize p - 1"
    using pos_mod_sign [OF ps(1), of "nData p + pageSize p - 1"] div_mult_mod_eq [of "nData p + pageSize p - 1" "pageSize p"]
    unfolding page_count_def by linarith
  ultimately have "page_count p * pageSize p < 2147483641 * pageSize p" by linarith
  then show ?thesis using ps(1) by simp
qed

lemma div_of_byte:
  assumes "0 < ps" and "int k < b" and "int k div ps < (b + ps - 1) div ps \<Longrightarrow> thesis"
  shows thesis
proof (rule assms(3))
  have "int k div ps + 1 = (int k + ps) div ps" using assms(1) div_add_self2 [of ps "int k"] by simp
  also have "\<dots> \<le> (b + ps - 1) div ps" using assms by (intro zdiv_mono1) auto
  finally show "int k div ps < (b + ps - 1) div ps" by simp
qed

lemma page_of_window:
  assumes "0 < ps" and "0 \<le> pg" and "pg \<le> i" and "i < (b + ps - 1) div ps" and "int k div ps = i" and "int k < n" and "b = min n w" and "ps dvd w"
  shows "pg * ps \<le> int k \<and> int k < b"
proof
  have "pg * ps \<le> i * ps" using assms(1,3) by simp
  also have "\<dots> \<le> int k" using assms(1,5) by (metis div_mult_mod_eq le_add_same_cancel1 pos_mod_sign)
  finally show "pg * ps \<le> int k" .
  show "int k < b"
  proof (cases "n \<le> w")
    case False
    then have "b = w" using assms(7) by simp
    moreover obtain m where "w = m * ps" using assms(8) by (metis dvdE mult.commute)
    ultimately have w: "w = m * ps" "b = w" by simp_all
    have "(w + ps - 1) div ps = m" using assms(1) by (simp add: w(1) add_diff_eq [symmetric])
    then have "i + 1 \<le> m" using assms(4) w(2) by simp
    then have "(i + 1) * ps \<le> w" using w(1) assms(1) by simp
    moreover have "int k < i * ps + ps"
      using pos_mod_bound [OF assms(1), of "int k"] div_mult_mod_eq [of "int k" ps] unfolding assms(5) by linarith
    then have "int k < (i + 1) * ps" by (simp add: algebra_simps)
    ultimately show ?thesis using w(2) by simp
  qed (use assms in simp)
qed

text \<open>The state of a database file that was opened without prefetching: its backend, its blob and its bitmap of valid pages.
  \<open>keep\<close> is what the client relies on of the remote side.\<close>

definition lazy_ok ::
  "'w azure_ops \<Rightarrow> string \<Rightarrow> ('w \<Rightarrow> bool) \<Rightarrow> bytes \<Rightarrow> 'w sqliteObjsFile \<Rightarrow> 'w env \<Rightarrow> bool" where
  "lazy_ok store name keep c p e \<longleftrightarrow> no_faults e \<and> eFileType p = MAIN_DB \<and> cacheFd p \<noteq> None \<and>
     prefetchMode p = SQLITE_OBJS_PREFETCH_NONE \<and> bm_ok (valid p) \<and> bm_data (valid p) \<noteq> None \<and> page_geometry p \<and>
     page_count p \<le> capacity (valid p) \<and> nData p \<le> int (length (db_file p e)) \<and> nData p \<le> int (length c) \<and>
     ops p = Some store \<and> blob p = name \<and> keep (remote e)"

text \<open>The bytes of the valid pages are those of the blob.\<close>

definition valid_bytes :: "'w sqliteObjsFile \<Rightarrow> 'w env \<Rightarrow> bytes \<Rightarrow> bool" where
  "valid_bytes p e c \<longleftrightarrow> (\<forall>k < nat (nData p). int k div pageSize p \<in> pages (valid p) \<longrightarrow> byte_at (db_file p e) k = byte_at c k)"

text \<open>The end of the window that a fetch of page \<open>pg\<close> covers.\<close>

definition window_end :: "'w sqliteObjsFile \<Rightarrow> int \<Rightarrow> int" where
  "window_end p pg = min (nData p) ((pg + SQLITE_OBJS_READAHEAD_PAGES) * pageSize p)"

lemma lazy_bump [simp]:
  "lazy_ok store name keep c (bump u n p) e = lazy_ok store name keep c p e" "valid_bytes (bump u n p) e c = valid_bytes p e c"
  by (simp_all add: lazy_ok_def valid_bytes_def page_geometry_def page_count_def db_file_def blob_def)

lemma db_file_count [simp]: "db_file p (e\<lparr>g_xread_count := j\<rparr>) = db_file p e"
  by (simp add: db_file_def file_of_def split: option.splits)

lemma lazy_frame [simp]:
  "lazy_ok store name keep c (p\<lparr>readsSinceSharedLock := m\<rparr>) e = lazy_ok store name keep c p e" "valid_bytes (p\<lparr>readsSinceSharedLock := m\<rparr>) e c = valid_bytes p e c"
  "lazy_ok store name keep c p (e\<lparr>g_xread_count := j\<rparr>) = lazy_ok store name keep c p e" "valid_bytes p (e\<lparr>g_xread_count := j\<rparr>) c = valid_bytes p e c"
  by (simp_all add: lazy_ok_def valid_bytes_def page_geometry_def page_count_def blob_def no_faults_def)
    (simp_all add: db_file_def)

text \<open>Storing the range \<open>a\<close> to \<open>b\<close> of the blob in the file, and the page in which it ends.\<close>

lemma byte_at_put_range:
  assumes "0 \<le> a" and "a \<le> b" and "b \<le> int (length c)"
  shows "byte_at (put f (nat a) (bslice c (nat a) (nat (b - a)))) k = (if a \<le> int k \<and> int k < b then byte_at c k else byte_at f k)"
proof -
  define d where "d = bslice c (nat a) (nat (b - a))"
  have d: "int (length d) = b - a" using assms by (simp add: d_def)
  have "(nat a \<le> k \<and> k < nat a + length d) = (a \<le> int k \<and> int k < b)" using d assms by linarith
  moreover have "d ! (k - nat a) = byte_at c k" if "a \<le> int k \<and> int k < b"
  proof -
    have "d ! (k - nat a) = byte_at d (k - nat a)" using that d assms by (intro nth_eq_byte_at) linarith
    moreover have "k - nat a < nat (b - a)" "nat a + (k - nat a) = k" using that assms by linarith+
    then have "byte_at d (k - nat a) = byte_at c k" by (simp add: d_def byte_at_bslice)
    ultimately show ?thesis by simp
  qed
  ultimately show ?thesis by (simp add: d_def [symmetric] byte_at_put)
qed

lemma last_page_bounds:
  assumes "0 < ps" and "pageSize p = ps" and "pg * ps < b" and "b \<le> nData p"
  shows "(b + ps - 1) div ps \<le> page_count p" "pg < (b + ps - 1) div ps"
proof -
  show "(b + ps - 1) div ps \<le> page_count p" unfolding page_count_def assms(2) using assms by (intro zdiv_mono1) auto
  have "(pg + 1) * ps \<le> b + ps - 1" using assms(3) by (simp add: algebra_simps)
  then have "(pg + 1) * ps div ps \<le> (b + ps - 1) div ps" using assms(1) by (rule zdiv_mono1)
  then show "pg < (b + ps - 1) div ps" using assms(1) by simp
qed

lemma single_page_end:
  assumes "0 < n" and "n \<le> ps"
  shows "(pg * ps + n + ps - 1) div ps = pg + (1 :: int)"
proof -
  have "(n - 1) div ps = 0" using assms by (simp add: div_pos_pos_trivial)
  moreover have "pg * ps + n + ps - 1 = (n - 1) + (pg + 1) * ps" by (simp add: algebra_simps)
  ultimately show ?thesis using assms div_mult_self1 [of ps "n - 1" "pg + 1"] by (simp only:)
qed

text \<open>A read inside a part of the file that equals the blob returns the blob's bytes.\<close>

lemma view_slice:
  assumes "0 \<le> off" and "0 < n" and "off + n \<le> nData p" and "nData p \<le> int (length c)"
    and "\<And>k. off \<le> int k \<Longrightarrow> int k < off + n \<Longrightarrow> byte_at (db_file p e) k = byte_at c k"
  shows "zero_fill (nat n) (bslice (db_view p e) (nat off) (nat n)) = bslice c (nat off) (nat n)"
proof (rule bytes_eqI)
  show "length (zero_fill (nat n) (bslice (db_view p e) (nat off) (nat n))) = length (bslice c (nat off) (nat n))"
    using assms(1-4) by simp
  show "byte_at (zero_fill (nat n) (bslice (db_view p e) (nat off) (nat n))) i = byte_at (bslice c (nat off) (nat n)) i" for i
  proof (cases "i < nat n")
    case True
    then have "off \<le> int (nat off + i)" "int (nat off + i) < off + n" "nat off + i < nat (nData p)" using assms(1,3) by simp_all
    then show ?thesis using True assms(5) by (simp add: byte_at_zero_fill byte_at_bslice db_view_def byte_at_take)
  qed (simp add: byte_at_zero_fill byte_at_bslice)
qed

text \<open>What the cache relies on: ranged reads return the bytes of the blob.\<close>

locale range_reader =
  fixes store :: "'w azure_ops" and name :: string and keep :: "'w \<Rightarrow> bool" and c :: bytes
  assumes offered: "page_blob_read store \<noteq> None"
    and read_range: "page_blob_read store = Some rd \<Longrightarrow> keep w \<Longrightarrow> 0 \<le> off \<Longrightarrow> 0 < n \<Longrightarrow> off + n \<le> int (length c) \<Longrightarrow>
      \<exists>err w'. rd name off n w = (AZURE_OK, bslice c (nat off) (nat n), err, w') \<and> keep w'"
begin

abbreviation lazy :: "'w sqliteObjsFile \<Rightarrow> 'w env \<Rightarrow> bool" where
  "lazy \<equiv> lazy_ok store name keep c"

lemma fetch_window:
  assumes "lazy p e" and "0 \<le> pg" and "pg * pageSize p < nData p"
  obtains p' e' where "fetchPagesFromAzure p pg e = (SQLITE_OK, p', e')" and "lazy p' e'"
    and "dirty p' = dirty p" and "nData p' = nData p" and "pageSize p' = pageSize p"
    and "pages (valid p') = pages (valid p) \<union> {pg..<(window_end p pg + pageSize p - 1) div pageSize p}"
    and "\<And>k. byte_at (db_file p' e') k =
      (if pg * pageSize p \<le> int k \<and> int k < window_end p pg then byte_at c k else byte_at (db_file p e) k)"
proof -
  define ps a b where "ps = pageSize p" and "a = pg * ps" and "b = window_end p pg"
  have ps: "0 < ps" "nData p < 2147483640 * ps" using assms(1) by (simp_all add: lazy_ok_def page_geometry_def ps_def)
  have ab: "0 \<le> a" "a < b" "b \<le> nData p" "a < nData p"
    using assms(2,3) ps(1) by (auto simp: a_def b_def window_end_def ps_def [symmetric] algebra_simps)
  obtain fd where fd: "cacheFd p = Some fd" and ok: "no_faults e" "bm_ok (valid p)" "page_count p \<le> capacity (valid p)" "nData p \<le> int (length c)"
      "nData p \<le> int (length (file_of e fd))"
    using assms(1) by (auto simp: lazy_ok_def db_file_def)
  have st: "ops p = Some store" "blob p = name" "keep (remote e)" using assms(1) by (simp_all add: lazy_ok_def)
  obtain rd where rd: "page_blob_read store = Some rd" using offered by blast
  obtain err w' where call: "rd (blob p) a (b - a) (remote e) = (AZURE_OK, bslice c (nat a) (nat (b - a)), err, w')" "keep w'"
    using read_range [OF rd st(3) ab(1), of "b - a"] ab ok(4) st(2) by auto
  define d where "d = bslice c (nat a) (nat (b - a))"
  have d: "int (length d) = b - a" using ab ok(4) by (simp add: d_def)
  then have dn: "d \<noteq> []" using ab by auto
  define ep where "ep = (b + ps - 1) div ps"
  have pc: "page_count p < 2147483641" using assms(1) by (simp add: lazy_ok_def page_count_bound)
  have ep: "ep \<le> page_count p" "pg < ep"
    using last_page_bounds [of "pageSize p" p pg b] ps(1) ab by (simp_all add: ep_def a_def ps_def)
  define q where "q = bump disk_bytes_written_update (b - a) (bump disk_writes_update 1
      (bump blob_bytes_read_update (int (length d)) (bump blob_reads_update 1 p)))"
  define p' e' where "p' = q\<lparr>valid := bitmapSetRange (valid p) pg ep\<rparr>"
    and "e' = set_file fd (put (file_of e fd) (nat a) d) (e\<lparr>remote := w'\<rparr>)"
  have ix: "c_int (c_div a ps) = pg" using assms(2) ps(1) ep pc by (simp add: a_def)
  have ix2: "c_int (c_div (b + ps - 1) ps) = ep" using ab ps(1) ep pc assms(2) by (simp add: ep_def [symmetric])
  have fl: "db_file p' e' = put (file_of e fd) (nat a) d" "db_file p e = file_of e fd"
    by (simp_all add: db_file_def p'_def q_def e'_def fd file_of_set_file)
  note sr = setRange [OF ok(2) assms(2), of ep]
  show thesis
  proof (rule that [of p' e'])
    have "fetch_range rd p a (b - a) e = (SQLITE_OK, p', e')"
      using call(1) ab ok(1) d dn ps ix ix2 fd
      by (simp add: fetch_range_def call_azure_def d_def [symmetric] pwrite_fd_def pwrite_ok Let_def validMarkRange_def q_def p'_def
          e'_def ps_def [symmetric] no_faults_def file_of_def)
    moreover have "(if nData p < a + SQLITE_OBJS_READAHEAD_PAGES * ps then nData p else a + SQLITE_OBJS_READAHEAD_PAGES * ps) = b"
      by (simp add: b_def window_end_def a_def ps_def [symmetric] algebra_simps min_def)
    ultimately show "fetchPagesFromAzure p pg e = (SQLITE_OK, p', e')"
      using rd st(1) ps fd ab unfolding fetchPagesFromAzure_def Let_def ps_def [symmetric] a_def [symmetric] by (simp split del: if_split)
    show "pages (valid p') = pages (valid p) \<union> {pg..<(window_end p pg + pageSize p - 1) div pageSize p}"
      using sr(3) ep(1) ok(3) assms(2) by (auto simp: p'_def ep_def b_def ps_def)
    show "byte_at (db_file p' e') k =
        (if pg * pageSize p \<le> int k \<and> int k < window_end p pg then byte_at c k else byte_at (db_file p e) k)" for k
      using byte_at_put_range [of a b c "file_of e fd" k] ab ok(4) unfolding fl d_def by (simp add: a_def b_def ps_def)
    have "length (db_file p' e') = length (db_file p e)" using d ab ok(5) by (simp add: fl)
    moreover have "bm_data (bitmapSetRange (valid p) pg ep) \<noteq> None"
      using sr(1,2) ep ok(3) assms(2) by (auto simp: bm_ok_def bm_shape_def capacity_def split: option.splits)
    ultimately show "lazy p' e'"
      using assms(1) sr fd call(2) unfolding lazy_ok_def
      by (simp add: page_geometry_def page_count_def p'_def q_def e'_def blob_def no_faults_def)
  qed (simp_all add: p'_def q_def)
qed

lemma fetch_valid_bytes:
  assumes "lazy p e" and "valid_bytes p e c" and "0 \<le> pg" and "pg * pageSize p < nData p"
  obtains p' e' where "fetchPagesFromAzure p pg e = (SQLITE_OK, p', e')" and "lazy p' e'" and "valid_bytes p' e' c"
    and "dirty p' = dirty p" and "nData p' = nData p" and "pageSize p' = pageSize p" and "insert pg (pages (valid p)) \<subseteq> pages (valid p')"
proof -
  have ps: "0 < pageSize p" using assms(1) by (simp add: lazy_ok_def page_geometry_def)
  from fetch_window [OF assms(1,3,4)] obtain p' e' where f: "fetchPagesFromAzure p pg e = (SQLITE_OK, p', e')" "lazy p' e'"
      "dirty p' = dirty p" "nData p' = nData p" "pageSize p' = pageSize p"
      and v: "pages (valid p') = pages (valid p) \<union> {pg..<(window_end p pg + pageSize p - 1) div pageSize p}"
      and bt: "\<And>k. byte_at (db_file p' e') k =
        (if pg * pageSize p \<le> int k \<and> int k < window_end p pg then byte_at c k else byte_at (db_file p e) k)"
    by metis
  have "byte_at (db_file p' e') k = byte_at c k" if k: "k < nat (nData p)" "int k div pageSize p \<in> pages (valid p')" for k
  proof (cases "int k div pageSize p \<in> pages (valid p)")
    case True
    then show ?thesis using bt assms(2) k(1) by (auto simp: valid_bytes_def)
  next
    case False
    then have "pg \<le> int k div pageSize p" "int k div pageSize p < (window_end p pg + pageSize p - 1) div pageSize p" using k(2) v by auto
    from page_of_window [OF ps assms(3) this refl _ window_end_def] show ?thesis using bt k(1) by simp
  qed
  then have "valid_bytes p' e' c" using f(4,5) by (simp add: valid_bytes_def)
  moreover have "pg * pageSize p < window_end p pg" using assms(4) ps by (simp add: window_end_def algebra_simps)
  moreover have "pg < (window_end p pg + pageSize p - 1) div pageSize p"
    using div_of_byte [OF ps, of "nat (pg * pageSize p)" "window_end p pg"] assms(3) ps calculation(2) by simp
  ultimately show thesis using that f v by auto
qed

lemma lazy_fetch_loop_valid:
  assumes "lazy p e" and "valid_bytes p e c" and "0 \<le> pg" and "endPage \<le> page_count p"
  shows "\<exists>miss p' e'. lazy_fetch_loop pg endPage hadMiss p e = (SQLITE_OK, miss, p', e') \<and> lazy p' e' \<and> valid_bytes p' e' c \<and>
    nData p' = nData p \<and> pageSize p' = pageSize p \<and> dirty p' = dirty p \<and> pages (valid p) \<union> {pg..<endPage} \<subseteq> pages (valid p')"
  using assms
proof (induction "nat (endPage - pg)" arbitrary: pg hadMiss p e rule: less_induct)
  case less
  have ps: "0 < pageSize p" using less.prems(1) by (simp add: lazy_ok_def page_geometry_def)
  consider (stop) "endPage \<le> pg" | (hit) "pg < endPage" "pg \<in> pages (valid p)" | (miss) "pg < endPage" "pg \<notin> pages (valid p)" by linarith
  then show ?case
  proof cases
    case stop
    then show ?thesis using less.prems by (auto simp: lazy_fetch_loop.simps [of pg])
  next
    case hit
    then have "lazy_fetch_loop pg endPage hadMiss p e = lazy_fetch_loop (pg + 1) endPage hadMiss p e"
      by (simp add: lazy_fetch_loop.simps [of pg] pages_def)
    moreover have "{pg..<endPage} = insert pg {pg + 1..<endPage}" using hit(1) by auto
    ultimately show ?thesis using less.hyps [of "pg + 1" p e hadMiss] less.prems hit by auto
  next
    case miss
    define q where "q = bump cache_miss_pages_update 1 (if hadMiss then p else bump cache_misses_update 1 p)"
    have q: "lazy q e" "valid_bytes q e c" "nData q = nData p" "pageSize q = pageSize p" "dirty q = dirty p" "valid q = valid p"
      using less.prems by (simp_all add: q_def)
    have "(pg + 1) * pageSize p \<le> page_count p * pageSize p" using miss less.prems(4) ps by (intro mult_right_mono) auto
    moreover have "page_count p * pageSize p \<le> nData p + pageSize p - 1"
      using pos_mod_sign [OF ps, of "nData p + pageSize p - 1"] div_mult_mod_eq [of "nData p + pageSize p - 1" "pageSize p"]
      unfolding page_count_def by linarith
    ultimately have "pg * pageSize q < nData q" using q by (simp add: algebra_simps)
    from fetch_valid_bytes [OF q(1,2) less.prems(3) this] obtain p1 e1 where
      f: "fetchPagesFromAzure q pg e = (SQLITE_OK, p1, e1)" "lazy p1 e1" "valid_bytes p1 e1 c"
        "dirty p1 = dirty q" "nData p1 = nData q" "pageSize p1 = pageSize q" "insert pg (pages (valid q)) \<subseteq> pages (valid p1)" by metis
    have u: "lazy_fetch_loop pg endPage hadMiss p e = lazy_fetch_loop (pg + 1) endPage True p1 e1"
      using miss less.prems(3) f(1) by (simp add: lazy_fetch_loop.simps [of pg] pages_def q_def [symmetric] Let_def)
    moreover have "{pg..<endPage} = insert pg {pg + 1..<endPage}" using miss(1) by auto
    moreover have "page_count p1 = page_count p" using f q by (simp add: page_count_def)
    moreover obtain m p' e' where l: "lazy_fetch_loop (pg + 1) endPage True p1 e1 = (SQLITE_OK, m, p', e')" "lazy p' e'"
        "valid_bytes p' e' c" "nData p' = nData p" "pageSize p' = pageSize p" "dirty p' = dirty p"
      and "pages (valid p1) \<subseteq> pages (valid p')" "{pg + 1..<endPage} \<subseteq> pages (valid p')"
      using less.hyps [of "pg + 1" p1 e1 True] less.prems miss f q calculation by auto
    moreover have "pages (valid p) \<subseteq> pages (valid p1)" "pg \<in> pages (valid p1)" using f(7) q(6) by auto
    ultimately have "pages (valid p) \<union> insert pg {pg + 1..<endPage} \<subseteq> pages (valid p')" by blast
    moreover have "{pg..<endPage} = insert pg {pg + 1..<endPage}" using miss(1) by auto
    ultimately have "pages (valid p) \<union> {pg..<endPage} \<subseteq> pages (valid p')" by (simp only:)
    with l u show ?thesis by simp
  qed
qed


lemma lazy_fetch_valid:
  assumes "lazy p e" and "valid_bytes p e c" and "0 \<le> off" and "off < nData p" and "0 < n"
  shows "\<exists>p' e'. lazy_fetch n off p e = (SQLITE_OK, p', e') \<and> lazy p' e' \<and> valid_bytes p' e' c \<and>
    nData p' = nData p \<and> pageSize p' = pageSize p \<and> dirty p' = dirty p \<and>
    {off div pageSize p..<(min (off + n) (nData p) + pageSize p - 1) div pageSize p} \<subseteq> pages (valid p')"
proof -
  define ps b where "ps = pageSize p" and "b = min (off + n) (nData p)"
  have g: "page_geometry p" "bm_data (valid p) \<noteq> None" "prefetchMode p = SQLITE_OBJS_PREFETCH_NONE"
    using assms(1) by (simp_all add: lazy_ok_def)
  have ps: "0 < ps" using g(1) by (simp add: page_geometry_def ps_def)
  have b: "off < b" "b \<le> nData p" using assms(4,5) by (simp_all add: b_def)
  have e: "(b + ps - 1) div ps \<le> page_count p"
    unfolding page_count_def ps_def [symmetric] using b ps by (intro zdiv_mono1) auto
  have "page_count p < 2147483641" using g(1) by (rule page_count_bound)
  moreover have "0 \<le> (b + ps - 1) div ps" using b ps assms(3) by (intro pos_imp_zdiv_nonneg_iff [THEN iffD2]) auto
  moreover have "off div ps \<le> (b + ps - 1) div ps" using b ps by (intro zdiv_mono1) auto
  moreover have "0 \<le> off div ps" using assms(3) ps by (simp add: pos_imp_zdiv_nonneg_iff)
  ultimately have ix: "c_int (c_div off ps) = off div ps" "c_int (c_div (b + ps - 1) ps) = (b + ps - 1) div ps" "0 \<le> off div ps"
    using e assms(3) ps b by auto
  obtain m p1 e1 where l: "lazy_fetch_loop (off div ps) ((b + ps - 1) div ps) False p e = (SQLITE_OK, m, p1, e1)" "lazy p1 e1"
      "valid_bytes p1 e1 c" "nData p1 = nData p" "pageSize p1 = pageSize p" "dirty p1 = dirty p"
      "{off div ps..<(b + ps - 1) div ps} \<subseteq> pages (valid p1)"
    using lazy_fetch_loop_valid [OF assms(1,2) ix(3) e, of False] by auto
  have "(if nData p < off + n then nData p else off + n) = b" by (simp add: b_def min_def)
  then have "lazy_fetch n off p e = (SQLITE_OK, if m then p1 else bump cache_hits_update 1 p1, e1)"
    using g ps ix l(1) unfolding lazy_fetch_def Let_def ps_def [symmetric] by (simp split del: if_split)
  then show ?thesis using l unfolding ps_def b_def by auto
qed

lemma lazy_read:
  assumes "lazy p e" and "valid_bytes p e c" and "0 \<le> off" and "off < nData p" and "0 < n" and "n < 2147483648"
  shows "\<exists>p' e'. sqliteObjsRead p n off e =
      (if off + n \<le> nData p then SQLITE_OK else SQLITE_IOERR_SHORT_READ,
       zero_fill (nat n) (bslice (take (nat (nData p)) c) (nat off) (nat n)), p', e') \<and> lazy p' e' \<and> valid_bytes p' e' c"
proof -
  define q where "q = (if SQLITE_LOCK_SHARED \<le> eLock p then p\<lparr>readsSinceSharedLock := readsSinceSharedLock p + 1\<rparr> else p)"
  define e0 where "e0 = e\<lparr>g_xread_count := g_xread_count e + 1\<rparr>"
  have q: "lazy q e0" "valid_bytes q e0 c" "nData q = nData p" "pageSize q = pageSize p" "cacheFd q \<noteq> None" "cacheFd q = cacheFd p"
    using assms(1,2) by (simp_all add: q_def e0_def) (simp add: lazy_ok_def)
  have t: "eFileType p = MAIN_DB" and ps: "0 < pageSize p" using assms(1) by (simp_all add: lazy_ok_def page_geometry_def)
  obtain f0 where fd0: "cacheFd p = Some f0" using q(5,6) by auto
  obtain p1 e1 where f: "lazy_fetch n off q e0 = (SQLITE_OK, p1, e1)" "lazy p1 e1" "valid_bytes p1 e1 c" "nData p1 = nData p"
      "pageSize p1 = pageSize p" "{off div pageSize p..<(min (off + n) (nData p) + pageSize p - 1) div pageSize p} \<subseteq> pages (valid p1)"
    using lazy_fetch_valid [OF q(1,2) assms(3) _ assms(5)] assms(4) q(3,4) by auto
  have p1: "no_faults e1" "cacheFd p1 \<noteq> None" "nData p1 \<le> int (length (db_file p1 e1))" using f(2) by (simp_all add: lazy_ok_def)
  then obtain fd where fd: "cacheFd p1 = Some fd" by blast
  from cache_read_quiet [OF p1(1) fd assms(3) _ p1(3) assms(5,6)] assms(4) f(4) obtain k where
    cr: "cache_read n off p1 e1 = (if nat off + nat n \<le> nat (nData p1) then SQLITE_OK else SQLITE_IOERR_SHORT_READ,
       zero_fill (nat n) (bslice (db_view p1 e1) (nat off) (nat n)), bump disk_bytes_read_update k (bump disk_reads_update 1 p1), e1)" by metis
  have "byte_at (db_file p1 e1) j = byte_at c j" if j: "nat off \<le> j" "j < nat off + nat n" "j < nat (nData p)" for j
  proof -
    have "off div pageSize p \<le> int j div pageSize p" using j ps by (intro zdiv_mono1) auto
    moreover have "int j < min (off + n) (nData p)" using j assms(3,5) by linarith
    ultimately have "int j div pageSize p \<in> pages (valid p1)" using f(6) div_of_byte [OF ps] by (metis atLeastLessThan_iff in_mono)
    then show ?thesis using f(3-5) j(3) by (simp add: valid_bytes_def)
  qed
  then have "zero_fill (nat n) (bslice (db_view p1 e1) (nat off) (nat n)) = zero_fill (nat n) (bslice (take (nat (nData p)) c) (nat off) (nat n))"
    by (intro bytes_eqI) (simp_all add: byte_at_zero_fill byte_at_bslice byte_at_take db_view_def f(4))
  moreover have "(nat off + nat n \<le> nat (nData p1)) = (off + n \<le> nData p)" using assms(3-5) f(4) by linarith
  ultimately have "sqliteObjsRead p n off e =
      (if off + n \<le> nData p then SQLITE_OK else SQLITE_IOERR_SHORT_READ,
       zero_fill (nat n) (bslice (take (nat (nData p)) c) (nat off) (nat n)), bump disk_bytes_read_update k (bump disk_reads_update 1 p1), e1)"
    using t q(3,6) fd0 assms(4) f(1) cr unfolding sqliteObjsRead_def Let_def q_def [symmetric] e0_def [symmetric] by simp
  then show ?thesis using f(2,3) by (intro exI [of _ "bump disk_bytes_read_update k (bump disk_reads_update 1 p1)"] exI [of _ e1]) simp
qed

text \<open>A read within one page that is not valid overwrites the whole window, whatever is dirty there.\<close>

lemma lazy_miss:
  assumes "lazy p e" and "0 \<le> pg" and "pg * pageSize p + n \<le> nData p" and "0 < n" and "n \<le> pageSize p" and "pg \<notin> pages (valid p)"
  shows "\<exists>p' e'. sqliteObjsRead p n (pg * pageSize p) e = (SQLITE_OK, bslice c (nat (pg * pageSize p)) (nat n), p', e') \<and>
    dirty p' = dirty p \<and> (\<forall>k. byte_at (db_file p' e') k =
      (if pg * pageSize p \<le> int k \<and> int k < window_end p pg then byte_at c k else byte_at (db_file p e) k))"
proof -
  define ps where "ps = pageSize p"
  define q where "q = (if SQLITE_LOCK_SHARED \<le> eLock p then p\<lparr>readsSinceSharedLock := readsSinceSharedLock p + 1\<rparr> else p)"
  define q1 where "q1 = bump cache_miss_pages_update 1 (bump cache_misses_update 1 q)"
  define e0 where "e0 = e\<lparr>g_xread_count := g_xread_count e + 1\<rparr>"
  have g: "page_geometry p" "bm_data (valid p) \<noteq> None" "prefetchMode p = SQLITE_OBJS_PREFETCH_NONE" "eFileType p = MAIN_DB"
      "cacheFd p \<noteq> None" "0 < ps"
    using assms(1) by (auto simp: lazy_ok_def page_geometry_def ps_def)
  have qf: "nData q = nData p" "pageSize q = ps" "cacheFd q = cacheFd p" "valid q = valid p" "prefetchMode q = prefetchMode p" "dirty q = dirty p"
    by (simp_all add: q_def ps_def)
  have q1: "lazy q1 e0" "pg * pageSize q1 < nData q1" using assms(1,3,4) by (simp_all add: q1_def q_def e0_def)
  from fetch_window [OF q1(1) assms(2) q1(2)] obtain p1 e1 where
    f: "fetchPagesFromAzure q1 pg e0 = (SQLITE_OK, p1, e1)" "lazy p1 e1" "dirty p1 = dirty q1" "nData p1 = nData q1"
      "\<And>k. byte_at (db_file p1 e1) k =
        (if pg * pageSize q1 \<le> int k \<and> int k < window_end q1 pg then byte_at c k else byte_at (db_file q1 e0) k)" by metis
  have we: "window_end q1 pg = window_end p pg" "db_file q1 e0 = db_file p e" "pageSize q1 = ps"
    using db_file_count by (simp_all add: window_end_def q1_def q_def e0_def ps_def) (simp add: db_file_def file_of_def)
  have en: "(pg * ps + n + ps - 1) div ps = pg + 1" using assms(4,5) by (intro single_page_end) (simp_all add: ps_def)
  have lim: "pg * ps < pg * ps + n" "pg * ps + n \<le> nData p" using assms(3,4) by (simp_all add: ps_def)
  have pgs: "pg < page_count p" "page_count p < 2147483641"
    using last_page_bounds(1) [OF g(6) ps_def [symmetric] lim] page_count_bound [OF g(1)] unfolding en by linarith+
  have ix: "c_int (c_div (pg * ps) ps) = pg" "c_int (c_div (pg * ps + n + ps - 1) ps) = pg + 1"
  proof -
    show "c_int (c_div (pg * ps) ps) = pg" using pgs assms(2) g(6) by simp
    have "0 \<le> pg * ps" using assms(2) g(6) by simp
    then have "0 \<le> pg * ps + n + ps - 1" using assms(4) g(6) by linarith
    then show "c_int (c_div (pg * ps + n + ps - 1) ps) = pg + 1" using en pgs assms(2) g(6) by simp
  qed
  have "lazy_fetch_loop pg (pg + 1) False q e0 = (SQLITE_OK, True, p1, e1)"
    using assms(2,6) f(1) qf(4)
    by (simp add: lazy_fetch_loop.simps [of pg] lazy_fetch_loop.simps [of "pg + 1"] pages_def q1_def [symmetric] Let_def)
  then have lf: "lazy_fetch n (pg * ps) q e0 = (SQLITE_OK, p1, e1)"
    using g qf ix assms(3) unfolding lazy_fetch_def Let_def by (simp add: ps_def)
  have p1: "no_faults e1" "cacheFd p1 \<noteq> None" "nData p1 \<le> int (length (db_file p1 e1))" using f(2) by (simp_all add: lazy_ok_def)
  then obtain fd where fd: "cacheFd p1 = Some fd" by blast
  have nd: "nData p1 = nData p" using f(4) by (simp add: q1_def qf)
  have off: "0 \<le> pg * ps" "pg * ps < nData p1" using assms(2-4) g(6) nd by (simp_all add: ps_def)
  have "ps \<le> 4194304" using g(1) by (intro zdvd_imp_le) (simp_all add: page_geometry_def ps_def)
  then have n31: "n < 2147483648" using assms(5) by (simp add: ps_def)
  from cache_read_quiet [OF p1(1) fd off p1(3) assms(4) n31] obtain k where
    cr: "cache_read n (pg * ps) p1 e1 = (if nat (pg * ps) + nat n \<le> nat (nData p1) then SQLITE_OK else SQLITE_IOERR_SHORT_READ,
       zero_fill (nat n) (bslice (db_view p1 e1) (nat (pg * ps)) (nat n)), bump disk_bytes_read_update k (bump disk_reads_update 1 p1), e1)" by metis
  have "pg * ps + n \<le> window_end p pg" using assms(3,5) g(6) by (simp add: window_end_def ps_def algebra_simps)
  then have "zero_fill (nat n) (bslice (db_view p1 e1) (nat (pg * ps)) (nat n)) = bslice c (nat (pg * ps)) (nat n)"
    using view_slice [of "pg * ps" n p1 c e1] assms(1,3,4) off nd f(5) we by (simp add: lazy_ok_def ps_def)
  moreover have "nat (pg * ps) + nat n \<le> nat (nData p1)" using assms(3,4) off nd by (simp add: ps_def nat_add_distrib [symmetric])
  ultimately have "sqliteObjsRead p n (pg * ps) e =
      (SQLITE_OK, bslice c (nat (pg * ps)) (nat n), bump disk_bytes_read_update k (bump disk_reads_update 1 p1), e1)"
    using g(4,5) qf(1,3) off(2) nd lf cr unfolding sqliteObjsRead_def Let_def q_def [symmetric] e0_def [symmetric] by simp
  then show ?thesis using f(3,5) we unfolding ps_def
    by (intro exI [of _ "bump disk_bytes_read_update k (bump disk_reads_update 1 p1)"] exI [of _ e1]) (simp add: q1_def q_def db_file_def)
qed

end

section \<open>The mock backend as the source of the pages\<close>

definition mock_serves :: "string \<Rightarrow> bytes \<Rightarrow> mock \<Rightarrow> bool" where
  "mock_serves name c w \<longleftrightarrow> mk_fail_rules w = [] \<and> mock_ok w \<and> mock_content w name = Some c"

lemma bslice_take: "k + m \<le> l \<Longrightarrow> bslice (take l d) k m = bslice d k m"
  by (simp add: bslice_def drop_take)

interpretation mock_reader: range_reader mock_ops name "mock_serves name c" c for name c
proof
  fix rd w and off n :: int
  assume "page_blob_read mock_ops = Some rd" and k: "mock_serves name c w" and r: "0 \<le> off" "0 < n" "off + n \<le> int (length c)"
  then have rd: "rd = mock_page_blob_read" by (simp add: mock_ops_def)
  obtain rc1 e1 w1 where 1: "pre_call OP_PAGE_BLOB_READ w = (rc1, e1, w1)" by (rule prod_cases3)
  note fr = pre_call_frame [OF 1]
  obtain i where i: "find_blob w name = Some i" "mb_type (blob_at w i) = BLOB_TYPE_PAGE"
    "c = take (nat (mb_size (blob_at w i))) (mb_data (blob_at w i))"
    using k by (auto simp: mock_serves_def mock_content_def split: option.splits if_splits)
  have "blob_sound (blob_at w i)" using k by (intro mock_ok_at [OF _ i(1)]) (simp add: mock_serves_def)
  then have sz: "mb_size (blob_at w i) = int (length c)" using i by (auto simp: blob_sound_def)
  have "rc1 = AZURE_OK" using fr(7) k by (simp add: mock_serves_def)
  moreover have "bslice (mb_data (blob_at w i)) (nat off) (nat n) = bslice c (nat off) (nat n)"
  proof -
    have tk: "take (length c) (mb_data (blob_at w i)) = c" by (metis i(3) sz nat_int)
    have "nat off + nat n \<le> length c" using r by linarith
    then show ?thesis using bslice_take [of "nat off" "nat n" "length c" "mb_data (blob_at w i)"] unfolding tk by simp
  qed
  ultimately have "rd name off n w = (AZURE_OK, bslice c (nat off) (nat n), e1, w1)"
    using 1 fr(3,4) i(1,2) sz r
    by (cases "n = int (length c) - off") (simp_all add: rd mock_page_blob_read_def Let_def)
  moreover have "mock_serves name c w1" using k fr(5-7) by (simp add: mock_serves_def)
  ultimately show "\<exists>err w'. rd name off n w = (AZURE_OK, bslice c (nat off) (nat n), err, w') \<and> mock_serves name c w'" by blast
qed (simp add: mock_ops_def)

text \<open>C10 A database that is opened without prefetching and has no local changes reads exactly as if it had been downloaded
  in full: \<^verbatim>\<open>xRead\<close> fetches the pages it misses and returns the bytes of the blob, zero-filled and reported as short past
  the end; the cached pages stay equal to the blob's.\<close>

theorem lazy_read_exact:
  assumes "lazy_ok mock_ops (blob p) (mock_serves (blob p) c) c p e" and "valid_bytes p e c"
    and "0 \<le> off" and "off < nData p" and "0 < n" and "n < 2147483648"
  shows "\<exists>p' e'. sqliteObjsRead p n off e =
      (if off + n \<le> nData p then SQLITE_OK else SQLITE_IOERR_SHORT_READ,
       zero_fill (nat n) (bslice (take (nat (nData p)) c) (nat off) (nat n)), p', e') \<and>
    lazy_ok mock_ops (blob p) (mock_serves (blob p) c) c p' e' \<and> valid_bytes p' e' c"
  using assms by (rule mock_reader.lazy_read)

text \<open>A blob of two pages and a cache that has none of them.\<close>

definition two_page_blob :: bytes where
  "two_page_blob = replicate 512 1 @ replicate 512 2"

definition lazy_mock :: mock where
  "lazy_mock = mock_azure_create\<lparr>mk_blobs :=
     [(new_blob ''db'' BLOB_TYPE_PAGE)\<lparr>mb_size := 1024, mb_data := two_page_blob\<rparr>]\<rparr>"

definition lazy_db :: "mock sqliteObjsFile" where
  "lazy_db = sample_mock_db\<lparr>nData := 1024, valid := \<lparr>bm_data = Some [0], bm_nSet = 0, bm_nAlloc = 1\<rparr>,
     prefetchMode := SQLITE_OBJS_PREFETCH_NONE, dirty := bitmapSetBit \<lparr>bm_data = Some [0], bm_nSet = 0, bm_nAlloc = 1\<rparr> 1\<rparr>"

definition lazy_env :: "mock env" where
  "lazy_env = set_file ''c'' (replicate 512 0 @ replicate 512 7) (env_start lazy_mock)"

lemma lazy_db_ok: "lazy_ok mock_ops (blob lazy_db) (mock_serves (blob lazy_db) two_page_blob) two_page_blob lazy_db lazy_env"
proof -
  have "mock_serves ''db'' two_page_blob lazy_mock"
    by (simp add: mock_serves_def lazy_mock_def mock_ok_def mock_content_def find_blob_def blob_at_def new_blob_def
        mock_azure_create_def blob_sound_def bump_etag_def two_page_blob_def byte_at_out)
  moreover have "pages \<lparr>bm_data = Some [0], bm_nSet = 0, bm_nAlloc = 1\<rparr> = {}"
    using bm_ok_byte by (simp add: bm_ok_def)
  moreover have "bm_ok \<lparr>bm_data = Some [0], bm_nSet = 0, bm_nAlloc = 1\<rparr>" by (rule bm_ok_byte)
  ultimately show ?thesis
    by (simp add: lazy_ok_def lazy_db_def lazy_env_def sample_mock_db_def file_zero_def env_start_def no_faults_def
        page_geometry_def page_count_def capacity_def db_file_def file_of_set_file blob_def two_page_blob_def)
qed

lemma lazy_db_empty: "pages (valid lazy_db) = {}" "nData lazy_db = 1024" "pageSize lazy_db = 512"
  using bm_ok_byte by (simp_all add: bm_ok_def lazy_db_def sample_mock_db_def)

theorem lazy_read_exact_witness:
  "\<exists>p' e'. sqliteObjsRead lazy_db 4 510 lazy_env = (SQLITE_OK, [1, 1, 2, 2], p', e')"
proof -
  have v: "valid_bytes lazy_db lazy_env two_page_blob" by (simp add: valid_bytes_def lazy_db_empty)
  have "zero_fill 4 (bslice (take 1024 two_page_blob) 510 4) = [1, 1, 2, 2]"
    by (simp add: two_page_blob_def bslice_def zero_fill_def numeral_eq_Suc)
  then show ?thesis using lazy_read_exact [OF lazy_db_ok v, of 510 4] by (auto simp: lazy_db_empty)
qed

text \<open>C39 A lazy read destroys unsynced writes: when \<^verbatim>\<open>xRead\<close> misses a page, the fetched window of 16 pages overwrites the
  cache file, so a page in it that was written and not yet synced holds the blob's old bytes again, while it stays marked
  dirty.\<close>

theorem lazy_read_overwrites_dirty:
  assumes "lazy_ok mock_ops (blob p) (mock_serves (blob p) c) c p e" and "0 \<le> pg" and "pg * pageSize p + n \<le> nData p" and "0 < n"
    and "n \<le> pageSize p" and "pg \<notin> pages (valid p)"
    and "i \<in> pages (dirty p)" and "pg \<le> i" and "i < pg + SQLITE_OBJS_READAHEAD_PAGES"
  shows "\<exists>buf p' e'. sqliteObjsRead p n (pg * pageSize p) e = (SQLITE_OK, buf, p', e') \<and> i \<in> pages (dirty p') \<and>
    (\<forall>k. int k div pageSize p = i \<and> int k < nData p \<longrightarrow> byte_at (db_file p' e') k = byte_at c k)"
proof -
  have ps: "0 < pageSize p" using assms(1) by (simp add: lazy_ok_def page_geometry_def)
  obtain p' e' where r: "sqliteObjsRead p n (pg * pageSize p) e = (SQLITE_OK, bslice c (nat (pg * pageSize p)) (nat n), p', e')"
      "dirty p' = dirty p" "\<And>k. byte_at (db_file p' e') k =
        (if pg * pageSize p \<le> int k \<and> int k < window_end p pg then byte_at c k else byte_at (db_file p e) k)"
    using mock_reader.lazy_miss [OF assms(1-6)] by blast
  have "pg * pageSize p \<le> int k \<and> int k < window_end p pg" if k: "int k div pageSize p = i" "int k < nData p" for k
  proof -
    have "pg * pageSize p \<le> i * pageSize p" using assms(8) ps by (intro mult_right_mono) auto
    moreover have "(i + 1) * pageSize p \<le> (pg + SQLITE_OBJS_READAHEAD_PAGES) * pageSize p"
      using assms(9) ps by (intro mult_right_mono) auto
    then have "i * pageSize p + pageSize p \<le> (pg + SQLITE_OBJS_READAHEAD_PAGES) * pageSize p" by (simp add: algebra_simps)
    moreover have "i * pageSize p \<le> int k" "int k < i * pageSize p + pageSize p"
      using pos_mod_bound [OF ps, of "int k"] pos_mod_sign [OF ps, of "int k"] div_mult_mod_eq [of "int k" "pageSize p"]
      unfolding k(1) by linarith+
    ultimately show ?thesis using k(2) unfolding window_end_def by linarith
  qed
  then show ?thesis using r assms(7) by auto
qed

text \<open>The same database after a write to its second page, which is dirty and cached.\<close>

definition written_db :: "mock sqliteObjsFile" where
  "written_db = lazy_db\<lparr>valid := dirty lazy_db\<rparr>"

lemma written_db_ok: "lazy_ok mock_ops (blob written_db) (mock_serves (blob written_db) two_page_blob) two_page_blob written_db lazy_env"
proof -
  let ?b = "\<lparr>bm_data = Some [0], bm_nSet = 0, bm_nAlloc = 1\<rparr> :: bitmap"
  have "bm_ok (bitmapSetBit ?b 1)" "capacity (bitmapSetBit ?b 1) = capacity ?b" "bm_data (bitmapSetBit ?b 1) \<noteq> None"
    using bm_ok_byte by (simp_all add: bm_ok_setBit)
  then show ?thesis using lazy_db_ok
    by (simp add: lazy_ok_def written_db_def lazy_db_def sample_mock_db_def blob_def db_file_def page_geometry_def page_count_def)
qed

theorem lazy_read_overwrites_dirty_witness:
  "byte_at (db_file written_db lazy_env) 700 = 7 \<and> (\<exists>buf p' e'. sqliteObjsRead written_db 512 0 lazy_env = (SQLITE_OK, buf, p', e') \<and>
     1 \<in> pages (dirty p') \<and> byte_at (db_file p' e') 700 = 2)"
proof -
  have d: "pages (dirty lazy_db) = {1}" using bm_ok_shape [OF bm_ok_byte] lazy_db_empty(1)
    by (simp add: lazy_db_def pages_setBit capacity_def)
  have "byte_at (db_file written_db lazy_env) 700 = 7" "byte_at two_page_blob 700 = 2"
    by (simp_all add: db_file_def written_db_def lazy_db_def lazy_env_def sample_mock_db_def file_of_set_file byte_at_append two_page_blob_def
        byte_at_nth)
  moreover have "nData written_db = 1024" "pageSize written_db = 512" "dirty written_db = dirty lazy_db" "valid written_db = dirty lazy_db"
    by (simp_all add: written_db_def lazy_db_empty)
  ultimately show ?thesis using lazy_read_overwrites_dirty [OF written_db_ok, of 0 512 1] d by auto
qed

end
