(* ===== verification/Azure_Auth.thy ===== *)
theory Azure_Auth
  imports Azure_Http Sidecar "HOL-Library.Char_ord" "HOL-Library.List_Lexorder" "HOL-Library.Multiset"
begin

text \<open>
  \<^verbatim>\<open>azure_auth.c\<close>: the string that is signed for the Shared Key scheme, and the authorization header. OpenSSL is a
  parameter: \<open>crypto\<close> holds its base64 coder and its keyed hash, each with the result \<^term>\<open>None\<close> where the library
  reports an error. \<^verbatim>\<open>qsort\<close> is a stable sort here; C leaves the order of entries that compare equal open.
\<close>

record crypto =
  cr_b64 :: "bytes \<Rightarrow> string option"
  cr_unb64 :: "string \<Rightarrow> bytes option"
  cr_hmac :: "bytes \<Rightarrow> bytes \<Rightarrow> bytes option"

definition azure_base64_encode :: "crypto \<Rightarrow> bytes \<Rightarrow> nat \<Rightarrow> string option" where
  "azure_base64_encode cr input output_size =
     (if output_size = 0 then None
      else case cr_b64 cr input of
        None \<Rightarrow> None
      | Some s \<Rightarrow> if output_size < length s + 1 then None else Some s)"

text \<open>\<^verbatim>\<open>BIO_read\<close> fills at most the output buffer.\<close>

definition azure_base64_decode :: "crypto \<Rightarrow> string \<Rightarrow> nat \<Rightarrow> bytes option" where
  "azure_base64_decode cr input output_size = map_option (take output_size) (cr_unb64 cr input)"

definition azure_hmac_sha256 :: "crypto \<Rightarrow> bytes \<Rightarrow> bytes \<Rightarrow> azure_err \<times> bytes" where
  "azure_hmac_sha256 cr key d =
     (case cr_hmac cr key d of None \<Rightarrow> (AZURE_ERR_AUTH, []) | Some out \<Rightarrow> (AZURE_OK, out))"

section \<open>Sorting\<close>

text \<open>The key \<^verbatim>\<open>strcasecmp\<close> compares by.\<close>

definition fold_case :: "string \<Rightarrow> string" where
  "fold_case s = map ascii_lower s"

definition sort_headers :: "string list \<Rightarrow> string list" where
  "sort_headers hs = sort_key fold_case hs"

section \<open>The string to sign\<close>

text \<open>\<^verbatim>\<open>snprintf\<close> into the rest of the 4096 bytes; \<^term>\<open>None\<close> when the text with its terminator does not fit.\<close>

definition sts_print :: "string \<Rightarrow> string \<Rightarrow> string option" where
  "sts_print p s = (if 4096 \<le> length p + length s then None else Some (p @ s))"

fun sts_lower :: "string \<Rightarrow> string \<Rightarrow> string option" where
  "sts_lower p [] = Some p"
| "sts_lower p (c # cs) = (if 4095 \<le> length p then None else sts_lower (p @ [ascii_lower c]) cs)"

fun sts_headers :: "string \<Rightarrow> string list \<Rightarrow> string option" where
  "sts_headers p [] = Some p"
| "sts_headers p (h # hs) =
     (if CHR '':'' \<notin> set h then sts_headers p hs
      else
        let name = takeWhile (\<lambda>c. c \<noteq> CHR '':'') h; val = dropWhile (\<lambda>c. c \<noteq> CHR '':'') h in
        case sts_lower p name of
          None \<Rightarrow> None
        | Some p \<Rightarrow> if 4096 \<le> length p + length val + 1 then None else sts_headers (p @ val @ [CHR 0x0A]) hs)"

text \<open>\<^verbatim>\<open>strtok_r\<close> with \<^verbatim>\<open>"&"\<close>: the non-empty pieces.\<close>

fun split_amp :: "string \<Rightarrow> string \<Rightarrow> string list" where
  "split_amp acc [] = (if acc = [] then [] else [acc])"
| "split_amp acc (c # cs) =
     (if c = CHR ''&'' then (if acc = [] then [] else [acc]) @ split_amp [] cs else split_amp (acc @ [c]) cs)"

definition query_pairs :: "string \<Rightarrow> string list" where
  "query_pairs query = sort_headers (take 32 (split_amp [] (take 1023 query)))"

definition query_line :: "string \<Rightarrow> string" where
  "query_line pr =
     (if CHR ''='' \<in> set pr
      then CHR 0x0A # takeWhile (\<lambda>c. c \<noteq> CHR ''='') pr @ '':'' @ tl (dropWhile (\<lambda>c. c \<noteq> CHR ''='') pr)
      else CHR 0x0A # pr @ '':'')"

fun sts_query :: "string \<Rightarrow> string list \<Rightarrow> string option" where
  "sts_query p [] = Some p"
| "sts_query p (pr # prs) =
     (case sts_print p (query_line pr) of None \<Rightarrow> None | Some p \<Rightarrow> sts_query p prs)"

definition opt_str :: "string option \<Rightarrow> string" where
  "opt_str s = (case s of None \<Rightarrow> [] | Some s \<Rightarrow> s)"

definition sts_verb :: "string \<Rightarrow> string \<Rightarrow> string \<Rightarrow> string option \<Rightarrow> string \<Rightarrow> string" where
  "sts_verb method content_length content_type if_match rng =
     (let nl = [CHR 0x0A] in
      method @ nl @ nl @ nl @ content_length @ nl @ nl @ content_type @ nl @ nl @ nl @ opt_str if_match @ nl @ nl @ nl @
      rng @ nl)"

definition string_to_sign ::
  "azure_client \<Rightarrow> string \<Rightarrow> string \<Rightarrow> string option \<Rightarrow> string \<Rightarrow> string \<Rightarrow> string \<Rightarrow> string option \<Rightarrow> string list \<Rightarrow> string option"
where
  "string_to_sign client method path query content_length content_type rng if_match x_ms_headers =
     (case sts_print [] (sts_verb method content_length content_type if_match rng) of
        None \<Rightarrow> None
      | Some p \<Rightarrow>
     (case sts_headers p (sort_headers x_ms_headers) of
        None \<Rightarrow> None
      | Some p \<Rightarrow>
     (case sts_print p (''/'' @ ac_account client @ path) of
        None \<Rightarrow> None
      | Some p \<Rightarrow> sts_query p (query_pairs (opt_str query)))))"

definition azure_auth_sign_request ::
  "crypto \<Rightarrow> azure_client \<Rightarrow> string \<Rightarrow> string \<Rightarrow> string option \<Rightarrow> string \<Rightarrow> string \<Rightarrow> string \<Rightarrow> string option \<Rightarrow> string list \<Rightarrow>
     nat \<Rightarrow> azure_err \<times> string" where
  "azure_auth_sign_request cr client method path query content_length content_type rng if_match x_ms_headers
       auth_header_size =
     (case string_to_sign client method path query content_length content_type rng if_match x_ms_headers of
        None \<Rightarrow> (AZURE_ERR_INVALID_ARG, [])
      | Some sts \<Rightarrow>
          (case azure_hmac_sha256 cr (ac_key_raw client) (bytes_of_string sts) of (rc, hmac_out) \<Rightarrow>
           if rc \<noteq> AZURE_OK then (rc, [])
           else case azure_base64_encode cr hmac_out 64 of
             None \<Rightarrow> (AZURE_ERR_AUTH, [])
           | Some sig_b64 \<Rightarrow>
               (AZURE_OK, take (auth_header_size - 1) (''SharedKey '' @ ac_account client @ '':'' @ sig_b64))))"

section \<open>What is signed\<close>

text \<open>The canonical form, without buffer limits.\<close>

definition canonical_header :: "string \<Rightarrow> string" where
  "canonical_header h =
     (if CHR '':'' \<in> set h
      then fold_case (takeWhile (\<lambda>c. c \<noteq> CHR '':'') h) @ dropWhile (\<lambda>c. c \<noteq> CHR '':'') h @ [CHR 0x0A] else [])"

definition canonical_string ::
  "azure_client \<Rightarrow> string \<Rightarrow> string \<Rightarrow> string option \<Rightarrow> string \<Rightarrow> string \<Rightarrow> string \<Rightarrow> string option \<Rightarrow> string list \<Rightarrow> string" where
  "canonical_string client method path query content_length content_type rng if_match x_ms_headers =
     sts_verb method content_length content_type if_match rng @
     concat (map canonical_header (sort_headers x_ms_headers)) @ ''/'' @ ac_account client @ path @
     concat (map query_line (query_pairs (opt_str query)))"

lemma sts_lower_spec: "sts_lower p s = (if s \<noteq> [] \<and> 4096 \<le> length p + length s then None else Some (p @ fold_case s))"
  by (induction p s rule: sts_lower.induct) (auto simp: fold_case_def)

lemma sts_headers_spec:
  "length p < 4096 \<Longrightarrow> sts_headers p hs =
     (if 4096 \<le> length p + length (concat (map canonical_header hs)) then None else Some (p @ concat (map canonical_header hs)))"
proof (induction p hs rule: sts_headers.induct)
  case (2 p h hs)
  define name val where "name = takeWhile (\<lambda>c. c \<noteq> CHR '':'') h" and "val = dropWhile (\<lambda>c. c \<noteq> CHR '':'') h"
  show ?case
  proof (cases "CHR '':'' \<in> set h")
    case False
    then show ?thesis using 2 by (simp add: canonical_header_def)
  next
    case True
    then have c: "canonical_header h = fold_case name @ val @ [CHR 0x0A]" by (simp add: canonical_header_def name_def val_def)
    show ?thesis
    proof (cases "4096 \<le> length p + length name + length val + 1")
      case big: True
      then show ?thesis using True c by (auto simp: sts_lower_spec name_def [symmetric] val_def [symmetric] fold_case_def Let_def)
    next
      case False
      then have "sts_headers (p @ fold_case name @ val @ [CHR 0x0A]) hs =
          (if 4096 \<le> length (p @ fold_case name @ val @ [CHR 0x0A]) + length (concat (map canonical_header hs)) then None
           else Some ((p @ fold_case name @ val @ [CHR 0x0A]) @ concat (map canonical_header hs)))"
        using "2.IH"(2) [OF _ name_def val_def, of "p @ fold_case name"] True
        by (simp add: sts_lower_spec fold_case_def)
      then show ?thesis using True False c
        by (auto simp: sts_lower_spec name_def [symmetric] val_def [symmetric] fold_case_def Let_def)
    qed
  qed
qed simp

lemma sts_query_spec:
  "length p < 4096 \<Longrightarrow> sts_query p prs =
     (if 4096 \<le> length p + length (concat (map query_line prs)) then None else Some (p @ concat (map query_line prs)))"
  by (induction p prs rule: sts_query.induct) (auto simp: sts_print_def)

lemma sort_headers_perm:
  assumes "mset hs = mset hs'" and "inj_on fold_case (set hs)"
  shows "sort_headers hs = sort_headers hs'"
proof -
  have s: "set hs = set hs'" using assms(1) by (rule mset_eq_setD)
  have "filter (\<lambda>y. k = fold_case y) hs = filter (\<lambda>y. k = fold_case y) (sort_key fold_case hs')" for k
  proof (cases "\<exists>x \<in> set hs. fold_case x = k")
    case True
    then obtain x where x: "x \<in> set hs" "fold_case x = k" by blast
    have eq: "filter (\<lambda>y. k = fold_case y) ys = replicate (count (mset ys) x) x" if "set ys = set hs" for ys
    proof -
      have "filter (\<lambda>y. k = fold_case y) ys = filter ((=) x) ys"
        using x assms(2) that by (intro filter_cong refl) (auto simp: inj_on_def)
      then show ?thesis by (simp add: replicate_count_mset_eq_filter_eq)
    qed
    show ?thesis using eq [of hs] eq [of "sort_key fold_case hs'"] s assms(1) by simp
  next
    case False
    then have "filter (\<lambda>y. k = fold_case y) ys = []" if "set ys = set hs" for ys using that by (auto simp: filter_empty_conv)
    from this [of hs] this [of "sort_key fold_case hs'"] show ?thesis using s by simp
  qed
  then show ?thesis
    unfolding sort_headers_def using assms(1)
    by (intro properties_for_sort_key) (auto simp: eq_commute)
qed


text \<open>C23 The signature does not depend on the order in which the headers of a request were collected, as long as no two of
  them agree up to case: the single-request and the batch code paths, which collect them differently, sign alike.\<close>

theorem signature_ignores_header_order:
  assumes "mset hs = mset hs'" and "inj_on fold_case (set hs)"
  shows "azure_auth_sign_request cr client method path query cl ct rng im hs n =
    azure_auth_sign_request cr client method path query cl ct rng im hs' n"
  unfolding azure_auth_sign_request_def string_to_sign_def sort_headers_perm [OF assms] by (rule refl)

definition sample_auth_client :: azure_client where
  "sample_auth_client = \<lparr>ac_account = ''acct'', ac_container = ''cont'', ac_endpoint = [], ac_key_b64 = ''k'', ac_key_raw = [1],
     ac_sas_token = [], ac_use_sas = False\<rparr>"

theorem signature_ignores_header_order_witness:
  "azure_auth_sign_request \<lparr>cr_b64 = Some \<circ> string_of_bytes, cr_unb64 = Some \<circ> bytes_of_string, cr_hmac = (\<lambda>k d. Some (k @ take 5 d))\<rparr> sample_auth_client
      ''PUT'' ''/cont/db'' (Some ''comp=page'') ''512'' [] [] None [''x-ms-date:d'', ''x-ms-version:v'', ''x-ms-range:r''] 512 =
   azure_auth_sign_request \<lparr>cr_b64 = Some \<circ> string_of_bytes, cr_unb64 = Some \<circ> bytes_of_string, cr_hmac = (\<lambda>k d. Some (k @ take 5 d))\<rparr> sample_auth_client
      ''PUT'' ''/cont/db'' (Some ''comp=page'') ''512'' [] [] None [''x-ms-date:d'', ''x-ms-range:r'', ''x-ms-version:v''] 512"
  by (rule signature_ignores_header_order) (simp_all add: inj_on_def fold_case_def ascii_lower_def)

end
