(* ===== verification/Azure_Client.thy ===== *)
theory Azure_Client
  imports Azure_Auth
begin

text \<open>
  The REST client of \<^verbatim>\<open>azure_client.c\<close>: one HTTP attempt (\<^verbatim>\<open>execute_single\<close>) and the operations built on the retry
  loop. libcurl, the clock, the allocator and the random source are the parameter \<open>http_lib\<close>: a transfer takes a request and
  yields the result code, the status line, the header lines and the pieces of the body it handed to the callbacks.

  The client's mutex is a flag of the state: a call that locks it while it is set never returns, which is the result
  \<^term>\<open>None\<close>. Debug timing and messages on stderr are left out.
\<close>

section \<open>The transport\<close>

datatype curlcode = CURLE_OK | CURLE_OPERATION_TIMEDOUT | CURLE_COULDNT_CONNECT | CURLE_WRITE_ERROR | CURLE_OTHER nat

record http_request =
  rq_method :: string
  rq_url :: string
  rq_headers :: "string list"
  rq_body :: bytes

record curl_reply =
  cr_code :: curlcode
  cr_status :: int
  cr_headers :: "string list"
  cr_body :: "bytes list"

text \<open>\<open>hl_multi\<close> runs the transfers of a multi handle until none is left running: the clock before, the clock at the end
  of each round of the event loop, and the completion messages in the order they are read, each with the index of its request.\<close>

record 'w http_lib =
  hl_crypto :: crypto
  hl_date :: "'w \<Rightarrow> string"
  hl_alloc :: "'w \<Rightarrow> bool \<times> 'w"
  hl_random :: "nat \<Rightarrow> 32 word option"
  hl_strerror :: "curlcode \<Rightarrow> string"
  hl_perform :: "http_request \<Rightarrow> 'w \<Rightarrow> curl_reply \<times> 'w"
  hl_multi :: "http_request list \<Rightarrow> 'w \<Rightarrow> int \<times> int list \<times> (nat \<times> curl_reply) list \<times> 'w"

record 'w client_state =
  cs_locked :: bool
  cs_multi :: bool
  cs_world :: 'w

definition c_alloc :: "'w http_lib \<Rightarrow> 'w client_state \<Rightarrow> bool \<times> 'w client_state" where
  "c_alloc lib s = (case hl_alloc lib (cs_world s) of (ok, w) \<Rightarrow> (ok, s\<lparr>cs_world := w\<rparr>))"

section \<open>Building a request\<close>

definition AZURE_API_VERSION :: string where "AZURE_API_VERSION = ''2024-08-04''"
definition AZURE_PAGE_SIZE :: int where [simp]: "AZURE_PAGE_SIZE = 512"
definition AZURE_MAX_PAGE_WRITE :: int where [simp]: "AZURE_MAX_PAGE_WRITE = 4 * 1024 * 1024"

text \<open>\<open>snp n s\<close>: the string \<^verbatim>\<open>snprintf\<close> leaves in a buffer of \<open>n\<close> bytes.\<close>

definition snp :: "nat \<Rightarrow> string \<Rightarrow> string" where
  "snp n s = take (n - 1) s"

text \<open>\<^verbatim>\<open>snprintf(url + url_len, sizeof(url) - url_len, ...)\<close> with the running \<^verbatim>\<open>url_len\<close>: after a truncation the position is behind
  the terminator, and nothing more becomes part of the string.\<close>

definition url_append :: "string \<times> nat \<Rightarrow> string \<Rightarrow> string \<times> nat" where
  "url_append u s = (case u of (url, n) \<Rightarrow> (if length url = n then snp 4096 (url @ s) else url, n + length s))"

definition request_url :: "azure_client \<Rightarrow> string \<Rightarrow> string \<Rightarrow> string" where
  "request_url client blob_name query =
     (let base = build_blob_url client blob_name 4096;
          u = (base, length base);
          u = (if query \<noteq> [] then url_append u (''?'' @ query) else u);
          u = (if ac_use_sas client then url_append u ((if query \<noteq> [] then ''&'' else ''?'') @ ac_sas_token client) else u)
      in fst u)"

definition sign_path :: "azure_client \<Rightarrow> string \<Rightarrow> string" where
  "sign_path client blob_name =
     snp 1024 (if ac_endpoint client \<noteq> []
               then ''/'' @ ac_account client @ ''/'' @ ac_container client @ ''/'' @ blob_name
               else ''/'' @ ac_container client @ ''/'' @ blob_name)"

text \<open>A header of the form \<^verbatim>\<open>name:value\<close> as it is sent.\<close>

definition extra_header :: "string \<Rightarrow> string" where
  "extra_header h =
     snp 512 (if CHR '':'' \<in> set h
              then takeWhile (\<lambda>c. c \<noteq> CHR '':'') h @ '': '' @ tl (dropWhile (\<lambda>c. c \<noteq> CHR '':'') h) else h)"

definition request_headers ::
  "string \<Rightarrow> string \<Rightarrow> string \<Rightarrow> string \<Rightarrow> nat \<Rightarrow> string \<Rightarrow> string list \<Rightarrow> string \<Rightarrow> string list" where
  "request_headers method date_buf auth_header content_type body_len range_header extra if_match =
     [snp 256 (''x-ms-date: '' @ date_buf), snp 128 (''x-ms-version: '' @ AZURE_API_VERSION)] @
     (if auth_header \<noteq> [] then [snp 600 (''Authorization: '' @ auth_header)] else []) @
     [if content_type \<noteq> [] then snp 256 (''Content-Type: '' @ content_type) else ''Content-Type:''] @
     (if 0 < body_len then [snp 64 (''Content-Length: '' @ dec_nat body_len)]
      else if method = ''PUT'' then [''Content-Length: 0''] else []) @
     (if range_header \<noteq> [] then [snp 256 (''x-ms-range: '' @ range_header)] else []) @
     map extra_header extra @
     (if if_match \<noteq> [] then [snp 512 (''If-Match: '' @ if_match)] else [])"

text \<open>The \<^verbatim>\<open>SLIST_APPEND\<close>s of a header list: whether all of them could allocate.\<close>

fun slist_append :: "'w http_lib \<Rightarrow> string list \<Rightarrow> 'w client_state \<Rightarrow> bool \<times> 'w client_state" where
  "slist_append lib [] s = (True, s)"
| "slist_append lib (h # hs) s = (case c_alloc lib s of (ok, s) \<Rightarrow> if ok then slist_append lib hs s else (False, s))"

section \<open>One attempt\<close>

definition clamp_http_status :: "int \<Rightarrow> int" where
  "clamp_http_status s = (if 2147483647 < s then 2147483647 else if s < -2147483648 then -2147483648 else s)"

fun receive_body :: "'w http_lib \<Rightarrow> bytes list \<Rightarrow> azure_buffer \<Rightarrow> 'w client_state \<Rightarrow> (bool \<times> azure_buffer \<times> 'w client_state) option"
where
  "receive_body lib [] buf s = Some (True, buf, s)"
| "receive_body lib (d # ds) buf s =
     (case c_alloc lib s of (ok, s) \<Rightarrow>
      case curl_write_cb d ok buf of
        None \<Rightarrow> None
      | Some (took, buf) \<Rightarrow> if took then receive_body lib ds buf s else Some (False, buf, s))"

text \<open>\<^verbatim>\<open>curl_easy_perform\<close>: the callbacks run on what arrives, and a piece that the write callback refuses ends the
  transfer with \<^verbatim>\<open>CURLE_WRITE_ERROR\<close>.\<close>

definition curl_easy_perform ::
  "'w http_lib \<Rightarrow> http_request \<Rightarrow> azure_buffer \<Rightarrow> azure_response_headers \<Rightarrow> 'w client_state \<Rightarrow>
     (curlcode \<times> int \<times> azure_buffer \<times> azure_response_headers \<times> 'w client_state) option" where
  "curl_easy_perform lib rq buf rh s =
     (case hl_perform lib rq (cs_world s) of (reply, w) \<Rightarrow>
      let s = s\<lparr>cs_world := w\<rparr>; rh = foldl (\<lambda>h l. curl_header_cb l h) rh (cr_headers reply) in
      case receive_body lib (cr_body reply) buf s of
        None \<Rightarrow> None
      | Some (took, buf, s) \<Rightarrow>
          Some (if took then cr_code reply else CURLE_WRITE_ERROR, cr_status reply, buf, rh, s))"

definition buf_string :: "azure_buffer \<Rightarrow> string" where
  "buf_string b = string_of_bytes (take (nat (buf_size b)) (case buf_data b of None \<Rightarrow> [] | Some d \<Rightarrow> d))"

text \<open>What \<^verbatim>\<open>execute_single\<close> makes of the outcome of the transfer.\<close>

definition classify_reply ::
  "'w http_lib \<Rightarrow> curlcode \<Rightarrow> int \<Rightarrow> azure_buffer \<Rightarrow> azure_response_headers \<Rightarrow> azure_err \<times> azure_error" where
  "classify_reply lib res http_status buf rh =
     (if res \<noteq> CURLE_OK
      then (if res = CURLE_OPERATION_TIMEDOUT \<or> res = CURLE_COULDNT_CONNECT then AZURE_ERR_SERVER else AZURE_ERR_NETWORK,
            azure_error_init\<lparr>err_code := AZURE_ERR_NETWORK,
              err_error_message := snp 256 (''curl error: '' @ hl_strerror lib res)\<rparr>)
      else
        let err = azure_error_init\<lparr>err_http_status := clamp_http_status http_status,
                    err_request_id := take 63 (rh_request_id rh), err_etag := take 127 (rh_etag rh)\<rparr> in
        if 400 \<le> http_status
        then
          let err = (if 0 < buf_size buf then snd (azure_parse_error_xml (buf_string buf) err) else err);
              err = (if rh_error_code rh \<noteq> [] \<and> err_error_code err = []
                     then err\<lparr>err_error_code := take 127 (rh_error_code rh)\<rparr> else err);
              rc = azure_classify_http_error http_status (err_error_code err)
          in (rc, err\<lparr>err_code := rc\<rparr>)
        else (AZURE_OK, err))"

definition execute_single ::
  "'w http_lib \<Rightarrow> azure_client \<Rightarrow> string \<Rightarrow> string \<Rightarrow> string option \<Rightarrow> string list \<Rightarrow> string option \<Rightarrow> bytes \<Rightarrow> string option \<Rightarrow>
     string option \<Rightarrow> 'w client_state http_attempt" where
  "execute_single lib client method blob_name query extra content_type body range_header if_match buf s =
     (if cs_locked s then None
      else
        let date_buf = snp 64 (hl_date lib (cs_world s));
            x_ms = [snp 128 (''x-ms-date:'' @ date_buf), snp 64 (''x-ms-version:'' @ AZURE_API_VERSION)] @ take 28 extra;
            cl = (if body = [] then [] else snp 32 (dec_nat (length body)));
            (rc, auth) = (if ac_use_sas client then (AZURE_OK, [])
                          else azure_auth_sign_request (hl_crypto lib) client method (sign_path client blob_name) query cl
                                 (opt_str content_type) (opt_str range_header) if_match x_ms 512) in
        if rc \<noteq> AZURE_OK then Some (rc, azure_error_init\<lparr>err_code := rc\<rparr>, headers_zero, buf, s)
        else
          let hs = request_headers method date_buf auth (opt_str content_type) (length body) (opt_str range_header) extra
                     (opt_str if_match) in
          case slist_append lib hs s of (ok, s) \<Rightarrow>
          if \<not> ok
          then Some (AZURE_ERR_NOMEM,
                     azure_error_init\<lparr>err_code := AZURE_ERR_NOMEM,
                       err_error_message := ''curl_slist_append allocation failed''\<rparr>, headers_zero, buf, s)
          else
            case curl_easy_perform lib \<lparr>rq_method = method, rq_url = request_url client blob_name (opt_str query),
                     rq_headers = hs, rq_body = body\<rparr> buf headers_zero s of
              None \<Rightarrow> None
            | Some (res, http_status, buf, rh, s) \<Rightarrow>
                (case classify_reply lib res http_status buf rh of (rc, err) \<Rightarrow> Some (rc, err, rh, buf, s)))"

end
