(* ===== verification/Azure_Rest.thy ===== *)
theory Azure_Rest
  imports Azure_Client
begin

text \<open>
  The operations of the production vtable in \<^verbatim>\<open>azure_client.c\<close> that are one request each: argument checks, the request, and the
  outputs taken from the response. \<^term>\<open>None\<close> is a call that never returns (see \<^verbatim>\<open>Azure_Client\<close>).
\<close>

type_synonym 'w client_call = "'w client_state \<Rightarrow> (azure_err \<times> azure_error \<times> 'w client_state) option"
type_synonym ('w, 'o) client_query = "'w client_state \<Rightarrow> (azure_err \<times> 'o \<times> azure_error \<times> 'w client_state) option"

section \<open>Requests with retries\<close>

text \<open>\<^verbatim>\<open>execute_with_retry\<close> with everything it returns, and the form of the operations that ignore headers and body.\<close>

definition http_full ::
  "'w http_lib \<Rightarrow> azure_client \<Rightarrow> string \<Rightarrow> string \<Rightarrow> string option \<Rightarrow> string list \<Rightarrow> string option \<Rightarrow> bytes \<Rightarrow> string option \<Rightarrow>
     ('w, azure_response_headers \<times> azure_buffer) client_query" where
  "http_full lib c method name query extra content_type body if_match s =
     (case execute_with_retry (execute_single lib c method name query extra content_type body None if_match) (hl_random lib)
             azure_buffer_init s of
        None \<Rightarrow> None
      | Some (rc, err, rh, buf, slept, s) \<Rightarrow> Some (rc, (rh, buf), err, s))"

definition http_run ::
  "'w http_lib \<Rightarrow> azure_client \<Rightarrow> string \<Rightarrow> string \<Rightarrow> string option \<Rightarrow> string list \<Rightarrow> string option \<Rightarrow> bytes \<Rightarrow> string option \<Rightarrow> 'w client_call"
where
  "http_run lib c method name query extra content_type body if_match s =
     map_option (\<lambda>(rc, out, err, s). (rc, err, s)) (http_full lib c method name query extra content_type body if_match s)"

definition bad_arg :: "string \<Rightarrow> azure_error" where
  "bad_arg msg = azure_error_init\<lparr>err_code := AZURE_ERR_INVALID_ARG, err_error_message := snp 256 msg\<rparr>"

definition lease_header :: "string option \<Rightarrow> string list" where
  "lease_header lease_id =
     (case lease_id of None \<Rightarrow> [] | Some l \<Rightarrow> if l = [] then [] else [snp 128 (''x-ms-lease-id:'' @ l)])"

definition octet_stream :: "string option" where "octet_stream = Some ''application/octet-stream''"

definition range_header :: "int \<Rightarrow> int \<Rightarrow> string" where
  "range_header offset len = snp 128 (''x-ms-range:bytes='' @ dec_int offset @ ''-'' @ dec_int (offset + len - 1))"

section \<open>Page blobs\<close>

definition az_page_blob_create :: "'w http_lib \<Rightarrow> azure_client \<Rightarrow> string \<Rightarrow> int \<Rightarrow> 'w client_call" where
  "az_page_blob_create lib c name sz s =
     (if sz < 0 \<or> c_mod sz AZURE_PAGE_SIZE \<noteq> 0
      then Some (AZURE_ERR_INVALID_ARG,
                 bad_arg (''Page blob size must be non-negative and 512-byte aligned, got '' @ dec_int sz), s)
      else http_run lib c ''PUT'' name None
             [''x-ms-blob-type:PageBlob'', snp 64 (''x-ms-blob-content-length:'' @ dec_int sz)] None [] None s)"

definition az_page_blob_write ::
  "'w http_lib \<Rightarrow> azure_client \<Rightarrow> string \<Rightarrow> int \<Rightarrow> bytes \<Rightarrow> string option \<Rightarrow> string option \<Rightarrow> 'w client_call" where
  "az_page_blob_write lib c name offset d lease_id if_match s =
     (let len = int (length d) in
      if offset < 0 \<or> c_mod offset AZURE_PAGE_SIZE \<noteq> 0 \<or> len mod AZURE_PAGE_SIZE \<noteq> 0
      then Some (AZURE_ERR_INVALID_ARG,
                 bad_arg (''Page write offset ('' @ dec_int offset @ '') and length ('' @ dec_int len @
                          '') must be 512-byte aligned''), s)
      else if AZURE_MAX_PAGE_WRITE < len
      then Some (AZURE_ERR_INVALID_ARG,
                 bad_arg (''Page write length '' @ dec_int len @ '' exceeds 4 MiB maximum''), s)
      else if len = 0
      then Some (AZURE_ERR_INVALID_ARG, bad_arg ''Page write data must be non-NULL with length > 0'', s)
      else http_run lib c ''PUT'' name (Some ''comp=page'')
             ([''x-ms-page-write:update'', range_header offset len] @ lease_header lease_id) octet_stream d if_match s)"

definition az_page_blob_read ::
  "'w http_lib \<Rightarrow> azure_client \<Rightarrow> string \<Rightarrow> int \<Rightarrow> int \<Rightarrow> ('w, azure_buffer) client_query" where
  "az_page_blob_read lib c name offset len s =
     (if offset < 0 \<or> len = 0
      then Some (AZURE_ERR_INVALID_ARG, azure_buffer_init,
                 bad_arg (''Invalid read parameters: offset='' @ dec_int offset @ '' len='' @ dec_int len), s)
      else map_option (\<lambda>(rc, (rh, buf), err, s). (rc, buf, err, s))
             (http_full lib c ''GET'' name None [range_header offset len] None [] None s))"

definition az_page_blob_resize ::
  "'w http_lib \<Rightarrow> azure_client \<Rightarrow> string \<Rightarrow> int \<Rightarrow> string option \<Rightarrow> 'w client_call" where
  "az_page_blob_resize lib c name new_size lease_id s =
     (if new_size < 0 \<or> c_mod new_size AZURE_PAGE_SIZE \<noteq> 0
      then Some (AZURE_ERR_INVALID_ARG, bad_arg (''Page blob resize must be 512-byte aligned, got '' @ dec_int new_size), s)
      else http_run lib c ''PUT'' name (Some ''comp=properties'')
             ([snp 64 (''x-ms-blob-content-length:'' @ dec_int new_size)] @ lease_header lease_id) None [] None s)"

section \<open>Block blobs\<close>

definition az_block_blob_upload :: "'w http_lib \<Rightarrow> azure_client \<Rightarrow> string \<Rightarrow> bytes \<Rightarrow> 'w client_call" where
  "az_block_blob_upload lib c name d s =
     http_run lib c ''PUT'' name None [''x-ms-blob-type:BlockBlob''] octet_stream d None s"

definition az_block_blob_download :: "'w http_lib \<Rightarrow> azure_client \<Rightarrow> string \<Rightarrow> ('w, azure_buffer) client_query" where
  "az_block_blob_download lib c name s =
     map_option (\<lambda>(rc, (rh, buf), err, s). (rc, buf, err, s)) (http_full lib c ''GET'' name None [] None [] None s)"

section \<open>Common operations\<close>

definition az_blob_get_properties ::
  "'w http_lib \<Rightarrow> azure_client \<Rightarrow> string \<Rightarrow> ('w, (int \<times> string \<times> string) option) client_query" where
  "az_blob_get_properties lib c name s =
     map_option (\<lambda>(rc, (rh, buf), err, s).
         (rc, if rc = AZURE_OK
              then Some (rh_content_length rh, take 31 (rh_lease_state rh), take 31 (rh_lease_status rh)) else None, err, s))
       (http_full lib c ''HEAD'' name None [] None [] None s)"

definition az_blob_delete :: "'w http_lib \<Rightarrow> azure_client \<Rightarrow> string \<Rightarrow> 'w client_call" where
  "az_blob_delete lib c name s = http_run lib c ''DELETE'' name None [] None [] None s"

definition az_blob_undelete :: "'w http_lib \<Rightarrow> azure_client \<Rightarrow> string \<Rightarrow> 'w client_call" where
  "az_blob_undelete lib c name s = http_run lib c ''PUT'' name (Some ''comp=undelete'') [] None [] None s"

definition az_blob_exists :: "'w http_lib \<Rightarrow> azure_client \<Rightarrow> string \<Rightarrow> ('w, bool option) client_query" where
  "az_blob_exists lib c name s =
     map_option (\<lambda>(rc, props, err, s).
         if rc = AZURE_OK then (AZURE_OK, Some True, err, s)
         else if rc = AZURE_ERR_NOT_FOUND then (AZURE_OK, Some False, azure_error_init, s)
         else (rc, None, err, s))
       (az_blob_get_properties lib c name s)"

section \<open>Leases\<close>

text \<open>The identifier goes into a buffer of \<open>lease_id_size\<close> bytes.\<close>

definition az_lease_acquire ::
  "'w http_lib \<Rightarrow> azure_client \<Rightarrow> string \<Rightarrow> int \<Rightarrow> nat \<Rightarrow> ('w, string option) client_query" where
  "az_lease_acquire lib c name duration_secs lease_id_size s =
     (if duration_secs \<noteq> -1 \<and> (duration_secs < 15 \<or> 60 < duration_secs)
      then Some (AZURE_ERR_INVALID_ARG, None, bad_arg (''Lease duration must be 15-60 or -1, got '' @ dec_int duration_secs), s)
      else map_option (\<lambda>(rc, (rh, buf), err, s).
               (rc, if rc = AZURE_OK then Some (take (lease_id_size - 1) (rh_lease_id rh)) else None, err, s))
             (http_full lib c ''PUT'' name (Some ''comp=lease'')
                [''x-ms-lease-action:acquire'', snp 64 (''x-ms-lease-duration:'' @ dec_int duration_secs)] None [] None s))"

definition az_lease_renew :: "'w http_lib \<Rightarrow> azure_client \<Rightarrow> string \<Rightarrow> string \<Rightarrow> 'w client_call" where
  "az_lease_renew lib c name lease_id s =
     (if lease_id = [] then Some (AZURE_ERR_INVALID_ARG, bad_arg ''lease_id must be non-empty for renewal'', s)
      else http_run lib c ''PUT'' name (Some ''comp=lease'') ([''x-ms-lease-action:renew''] @ lease_header (Some lease_id)) None [] None s)"

definition az_lease_release :: "'w http_lib \<Rightarrow> azure_client \<Rightarrow> string \<Rightarrow> string \<Rightarrow> 'w client_call" where
  "az_lease_release lib c name lease_id s =
     (if lease_id = [] then Some (AZURE_ERR_INVALID_ARG, bad_arg ''lease_id must be non-empty for release'', s)
      else http_run lib c ''PUT'' name (Some ''comp=lease'') ([''x-ms-lease-action:release''] @ lease_header (Some lease_id)) None [] None s)"

definition az_lease_break ::
  "'w http_lib \<Rightarrow> azure_client \<Rightarrow> string \<Rightarrow> int \<Rightarrow> ('w, int option) client_query" where
  "az_lease_break lib c name break_period_secs s =
     map_option (\<lambda>(rc, (rh, buf), err, s). (rc, if rc = AZURE_OK then Some (rh_lease_time rh) else None, err, s))
       (http_full lib c ''PUT'' name (Some ''comp=lease'')
          ([''x-ms-lease-action:break''] @
           (if 0 \<le> break_period_secs then [snp 64 (''x-ms-lease-break-period:'' @ dec_int break_period_secs)] else []))
          None [] None s)"

section \<open>Append blobs\<close>

definition az_append_blob_create :: "'w http_lib \<Rightarrow> azure_client \<Rightarrow> string \<Rightarrow> string option \<Rightarrow> 'w client_call" where
  "az_append_blob_create lib c name lease_id s =
     http_run lib c ''PUT'' name None ([''x-ms-blob-type:AppendBlob''] @ lease_header lease_id) None [] None s"

definition az_append_blob_append ::
  "'w http_lib \<Rightarrow> azure_client \<Rightarrow> string \<Rightarrow> bytes \<Rightarrow> string option \<Rightarrow> 'w client_call" where
  "az_append_blob_append lib c name d lease_id s =
     (let len = int (length d) in
      if len \<le> 0 then Some (AZURE_ERR_INVALID_ARG, bad_arg ''Append data must be non-NULL with length > 0'', s)
      else if AZURE_MAX_PAGE_WRITE < len
      then Some (AZURE_ERR_INVALID_ARG, bad_arg (''Append data length '' @ dec_int len @ '' exceeds 4 MiB maximum''), s)
      else http_run lib c ''PUT'' name (Some ''comp=appendblock'') ([''x-ms-blob-type:AppendBlob''] @ lease_header lease_id)
             octet_stream d None s)"

definition az_append_blob_delete :: "'w http_lib \<Rightarrow> azure_client \<Rightarrow> string \<Rightarrow> string option \<Rightarrow> 'w client_call" where
  "az_append_blob_delete lib c name lease_id s =
     http_run lib c ''DELETE'' name None (lease_header lease_id) None [] None s"

section \<open>Snapshots and page ranges\<close>

definition az_blob_snapshot_create ::
  "'w http_lib \<Rightarrow> azure_client \<Rightarrow> string \<Rightarrow> nat \<Rightarrow> ('w, string) client_query" where
  "az_blob_snapshot_create lib c name snapshot_out_size s =
     (if snapshot_out_size = 0
      then Some (AZURE_ERR_INVALID_ARG, [], bad_arg ''snapshot_out must be non-NULL with size > 0'', s)
      else map_option (\<lambda>(rc, (rh, buf), err, s).
               if rc \<noteq> AZURE_OK then (rc, [], err, s)
               else if rh_snapshot rh = []
               then (AZURE_ERR_UNKNOWN, [],
                     err\<lparr>err_code := AZURE_ERR_UNKNOWN,
                         err_error_message := ''Snapshot created but x-ms-snapshot header missing''\<rparr>, s)
               else (AZURE_OK, take (snapshot_out_size - 1) (rh_snapshot rh), err, s))
             (http_full lib c ''PUT'' name (Some ''comp=snapshot'') [] None [] None s))"

text \<open>The loop of \<^verbatim>\<open>parse_page_ranges_xml\<close> on the text from \<^verbatim>\<open>p\<close> on. A position is the suffix that starts there, so that
  the earlier of two tags is the longer suffix. The text ends behind the last byte of the buffer, as if a
  terminator followed; the code relies on one that nothing writes.\<close>

definition next_tag :: "string \<Rightarrow> (bool \<times> string) option" where
  "next_tag p =
     (case (strstr p ''<PageRange>'', strstr p ''<ClearRange>'') of
        (None, None) \<Rightarrow> None
      | (Some pg, None) \<Rightarrow> Some (False, drop 11 pg)
      | (None, Some cl) \<Rightarrow> Some (True, drop 12 cl)
      | (Some pg, Some cl) \<Rightarrow> if length cl < length pg then Some (False, drop 11 pg) else Some (True, drop 12 cl))"

lemma strstr_length: "strstr s n = Some t \<Longrightarrow> length t \<le> length s \<and> take (length n) t = n"
  by (induction s n rule: strstr.induct) (auto split: if_splits)

lemma strstr_shorter: "strstr s n = Some t \<Longrightarrow> n \<noteq> [] \<Longrightarrow> length n \<le> length t"
  by (drule strstr_length) (metis length_take min.cobounded1)

lemma next_tag_shorter:
  assumes "next_tag p = Some (c, pr)"
  shows "length pr < length p"
proof -
  consider t where "strstr p ''<PageRange>'' = Some t" "pr = drop 11 t" | t where "strstr p ''<ClearRange>'' = Some t" "pr = drop 12 t"
    using assms by (auto simp: next_tag_def split: option.splits if_splits)
  then show ?thesis
  proof cases
    case (1 t)
    then show ?thesis using strstr_length [OF 1(1)] strstr_shorter [OF 1(1)] by (simp, linarith)
  next
    case (2 t)
    then show ?thesis using strstr_length [OF 2(1)] strstr_shorter [OF 2(1)] by (simp, linarith)
  qed
qed

text \<open>Doubling the array when it is full.\<close>

definition grow_ranges :: "'w http_lib \<Rightarrow> nat \<Rightarrow> nat \<Rightarrow> 'w client_state \<Rightarrow> nat option \<times> 'w client_state" where
  "grow_ranges lib cap n s =
     (if cap \<le> n then (case c_alloc lib s of (ok, s) \<Rightarrow> (if ok then Some (cap * 2) else None, s)) else (Some cap, s))"

function parse_ranges_loop ::
  "'w http_lib \<Rightarrow> string \<Rightarrow> nat \<Rightarrow> azure_diff_range list \<Rightarrow> 'w client_state \<Rightarrow> azure_diff_range list option \<times> 'w client_state" where
  "parse_ranges_loop lib p cap ranges s =
     (case next_tag p of
        None \<Rightarrow> (Some ranges, s)
      | Some (is_clear, pr) \<Rightarrow>
          (case strstr pr ''<Start>'' of
             None \<Rightarrow> (Some ranges, s)
           | Some start_tag \<Rightarrow>
               (case strstr pr ''<End>'' of
                  None \<Rightarrow> (Some ranges, s)
                | Some end_tag \<Rightarrow>
                    (case grow_ranges lib cap (length ranges) s of
                       (None, s) \<Rightarrow> (None, s)
                     | (Some cap, s) \<Rightarrow>
                         let ranges = ranges @ [\<lparr>dr_start = strtoll (drop 7 start_tag), dr_end = strtoll (drop 5 end_tag),
                                                 dr_is_clear = is_clear\<rparr>] in
                         (case strstr pr (if is_clear then ''</ClearRange>'' else ''</PageRange>'') of
                            None \<Rightarrow> (Some ranges, s)
                          | Some close_tag \<Rightarrow>
                              parse_ranges_loop lib (drop (if is_clear then 13 else 12) close_tag) cap ranges s)))))"
  by pat_completeness auto
termination
proof (relation "measure (\<lambda>(lib, p, cap, r, s). length p)")
  fix lib :: "'w http_lib" and p and cap :: nat and ranges :: "azure_diff_range list" and s s' :: "'w client_state"
    and y is_clear pr cap' x close_tag
  assume "next_tag p = Some y" "(is_clear, pr) = y"
    and "strstr pr (if is_clear then ''</ClearRange>'' else ''</PageRange>'') = Some close_tag"
  then have "length pr < length p" "length close_tag \<le> length pr"
    using next_tag_shorter strstr_length by fastforce+
  then show "((lib, drop (if is_clear then 13 else 12) close_tag, cap', x, s'), lib, p, cap, ranges, s)
      \<in> measure (\<lambda>(lib, p, cap, r, s). length p)" by simp
qed simp

declare parse_ranges_loop.simps [simp del]

definition parse_page_ranges_xml ::
  "'w http_lib \<Rightarrow> string \<Rightarrow> 'w client_state \<Rightarrow> azure_diff_range list option \<times> 'w client_state" where
  "parse_page_ranges_xml lib xml s =
     (case c_alloc lib s of (ok, s) \<Rightarrow> if ok then parse_ranges_loop lib xml 64 [] s else (None, s))"

definition az_blob_get_page_ranges_diff ::
  "'w http_lib \<Rightarrow> azure_client \<Rightarrow> string \<Rightarrow> string \<Rightarrow> ('w, azure_diff_range list) client_query" where
  "az_blob_get_page_ranges_diff lib c name prev_snapshot s =
     (if prev_snapshot = [] then Some (AZURE_ERR_INVALID_ARG, [], bad_arg ''prev_snapshot must be non-empty'', s)
      else
        let enc = (case uri_encode prev_snapshot 512 of None \<Rightarrow> snp 512 prev_snapshot | Some t \<Rightarrow> t) in
        map_option (\<lambda>(rc, (rh, buf), err, s).
            if rc \<noteq> AZURE_OK then (rc, [], err, s)
            else if buf_size buf = 0 then (AZURE_OK, [], err, s)
            else (case parse_page_ranges_xml lib (buf_string buf) s of
                    (None, s) \<Rightarrow> (AZURE_ERR_UNKNOWN, [],
                       err\<lparr>err_code := AZURE_ERR_UNKNOWN,
                           err_error_message := ''Failed to parse page ranges XML response''\<rparr>, s)
                  | (Some ranges, s) \<Rightarrow> (AZURE_OK, ranges, err, s)))
          (http_full lib c ''GET'' name (Some (snp 768 (''comp=pagelist&prevsnapshot='' @ enc))) [] None [] None s))"

section \<open>Client lifecycle\<close>

text \<open>\<^verbatim>\<open>azure_client_create\<close>; a \<^verbatim>\<open>NULL\<close> configuration is one without account. Each of the three resources it acquires (the
  struct, the libcurl handle, the mutex) may fail.\<close>

definition client_error :: "azure_err \<Rightarrow> string \<Rightarrow> azure_error" where
  "client_error rc msg = azure_error_init\<lparr>err_code := rc, err_error_message := snp 256 msg\<rparr>"

definition azure_client_create ::
  "'w http_lib \<Rightarrow> azure_client_config \<Rightarrow> 'w client_state \<Rightarrow> azure_err \<times> azure_client option \<times> azure_error \<times> 'w client_state" where
  "azure_client_create lib cfg s =
     (let account = opt_str (cfg_account cfg); container = opt_str (cfg_container cfg);
          sas = opt_str (cfg_sas_token cfg); key = opt_str (cfg_account_key cfg);
          fail = (\<lambda>rc msg s. (rc, None, client_error rc msg, s)) in
      if account = [] then fail AZURE_ERR_INVALID_ARG ''account name is required'' s
      else if container = [] then fail AZURE_ERR_INVALID_ARG ''container name is required'' s
      else if sas = [] \<and> key = [] then fail AZURE_ERR_INVALID_ARG ''either sas_token or account_key is required'' s
      else case c_alloc lib s of (ok, s) \<Rightarrow>
      if \<not> ok then fail AZURE_ERR_NOMEM ''failed to allocate azure_client_t'' s
      else
        let c = \<lparr>ac_account = take 255 account, ac_container = take 255 container, ac_endpoint = take 511 (opt_str (cfg_endpoint cfg)),
                 ac_key_b64 = [], ac_key_raw = [], ac_sas_token = [], ac_use_sas = False\<rparr>;
            c = (if sas \<noteq> []
                 then Some (c\<lparr>ac_sas_token := take 2047 (if hd sas = CHR ''?'' then tl sas else sas), ac_use_sas := True\<rparr>)
                 else map_option (\<lambda>raw. c\<lparr>ac_key_b64 := take 255 key, ac_key_raw := raw\<rparr>)
                        (azure_base64_decode (hl_crypto lib) key 64)) in
        case c of
          None \<Rightarrow> fail AZURE_ERR_AUTH ''failed to decode shared_key'' s
        | Some c \<Rightarrow>
            (case c_alloc lib s of (ok, s) \<Rightarrow>
             if \<not> ok then fail AZURE_ERR_NETWORK ''curl_easy_init() failed'' s
             else case c_alloc lib s of (ok, s) \<Rightarrow>
             if \<not> ok then fail AZURE_ERR_NETWORK ''pthread_mutex_init() failed'' s
             else (AZURE_OK, Some c, azure_error_init, s)))"

text \<open>\<^verbatim>\<open>azure_container_create\<close>: one request without retries; an existing container is a success.\<close>

definition container_url :: "azure_client \<Rightarrow> string" where
  "container_url c =
     (let url = snp 4096 (if ac_endpoint c \<noteq> []
                          then ac_endpoint c @ ''/'' @ ac_account c @ ''/'' @ ac_container c @ ''?restype=container''
                          else ''https://'' @ ac_account c @ ''.blob.core.windows.net/'' @ ac_container c @ ''?restype=container'')
      in if ac_use_sas c then snp 4096 (url @ ''&'' @ ac_sas_token c) else url)"

definition azure_container_create :: "'w http_lib \<Rightarrow> azure_client \<Rightarrow> 'w client_call" where
  "azure_container_create lib c s =
     (if cs_locked s then None
      else
        let date_buf = snp 64 (hl_date lib (cs_world s));
            xms = [snp 128 (''x-ms-date:'' @ date_buf), snp 64 (''x-ms-version:'' @ AZURE_API_VERSION)];
            path = snp 1024 (if ac_endpoint c \<noteq> [] then ''/'' @ ac_account c @ ''/'' @ ac_container c else ''/'' @ ac_container c);
            (rc, auth) = (if ac_use_sas c then (AZURE_OK, [])
                          else azure_auth_sign_request (hl_crypto lib) c ''PUT'' path (Some ''restype=container'') [] [] [] None xms 512) in
        if rc \<noteq> AZURE_OK then Some (rc, client_error rc ''Failed to sign container create request'', s)
        else
          let hs = [snp 256 (''x-ms-date: '' @ date_buf), snp 128 (''x-ms-version: '' @ AZURE_API_VERSION)] @
                   (if auth \<noteq> [] then [snp 600 (''Authorization: '' @ auth)] else []) @ [''Content-Length: 0'', ''Content-Type:''] in
          case slist_append lib hs s of (ok, s) \<Rightarrow>
          if \<not> ok then Some (AZURE_ERR_NOMEM, client_error AZURE_ERR_NOMEM ''curl_slist_append allocation failed'', s)
          else
            case curl_easy_perform lib \<lparr>rq_method = ''PUT'', rq_url = container_url c, rq_headers = hs, rq_body = []\<rparr>
                   azure_buffer_init (headers_zero\<lparr>rh_retry_after := 0\<rparr>) s of
              None \<Rightarrow> None
            | Some (res, http_status, buf, rh, s) \<Rightarrow>
                if res \<noteq> CURLE_OK
                then Some (AZURE_ERR_NETWORK,
                           client_error AZURE_ERR_NETWORK (''curl_easy_perform() failed: '' @ hl_strerror lib res), s)
                else
                  let err = azure_error_init\<lparr>err_http_status := clamp_http_status http_status\<rparr> in
                  if http_status = 201 \<or> http_status = 409 then Some (AZURE_OK, err, s)
                  else
                    let err = (if 0 < buf_size buf then snd (azure_parse_error_xml (buf_string buf) err) else err);
                        rc = azure_classify_http_error http_status (rh_error_code rh);
                        err = err\<lparr>err_code := rc\<rparr>;
                        err = (if rh_request_id rh \<noteq> [] then err\<lparr>err_request_id := take 63 (rh_request_id rh)\<rparr> else err);
                        err = (if err_error_message err = []
                               then err\<lparr>err_error_message := snp 256 (''Container create failed with HTTP '' @ dec_int http_status)\<rparr>
                               else err)
                    in Some (rc, err, s))"

end
