(* ===== verification/Client_Text.thy ===== *)
theory Client_Text
  imports Azure_Rest
begin

text \<open>
  The text formats of the production client: percent-encoded names in URLs and the XML list of changed page
  ranges, each against a reference printer or decoder. The theory holds no model of code of its own.
\<close>

section \<open>Percent encoding\<close>

text \<open>The reference: every byte on its own.\<close>

definition pct_char :: "char \<Rightarrow> string" where
  "pct_char c = (if unreserved c then [c] else [CHR ''%'', HEX ! (of_char c div 16), HEX ! (of_char c mod 16)])"

definition hex_value :: "char \<Rightarrow> nat" where
  "hex_value c = (if of_char c < (58::nat) then of_char c - 48 else of_char c - 55)"

text \<open>What a server does to a percent-encoded path.\<close>

fun uri_decode :: "string \<Rightarrow> string" where
  "uri_decode (c # h # l # cs) =
     (if c = CHR ''%'' then char_of (16 * hex_value h + hex_value l) # uri_decode cs else c # uri_decode (h # l # cs))"
| "uri_decode (c # cs) = c # uri_decode cs"
| "uri_decode [] = []"

lemma hex_value_HEX:
  assumes "n < 16"
  shows "hex_value (HEX ! n) = n"
proof -
  have "list_all (\<lambda>n. hex_value (HEX ! n) = n) [0..<16]" by code_simp
  with assms show ?thesis by (simp add: list_all_iff)
qed

lemma uri_decode_plain: "c \<noteq> CHR ''%'' \<Longrightarrow> uri_decode (c # cs) = c # uri_decode cs"
  by (cases cs; cases "tl cs") auto

lemma uri_decode_pct_char: "uri_decode (pct_char c @ cs) = c # uri_decode cs"
proof (cases "unreserved c")
  case True
  then have "c \<noteq> CHR ''%''" by (auto simp: unreserved_def)
  with True show ?thesis by (simp add: pct_char_def uri_decode_plain)
next
  case False
  have lt: "of_char c < (256::nat)" using nat_of_char_less_256 .
  have "16 * hex_value (HEX ! (of_char c div 16)) + hex_value (HEX ! (of_char c mod 16)) = (of_char c :: nat)"
    using lt by (simp add: hex_value_HEX less_mult_imp_div_less)
  then show ?thesis using False by (simp add: pct_char_def char_of_char)
qed

lemma uri_decode_concat: "uri_decode (concat (map pct_char z)) = z"
  by (induction z) (simp_all add: uri_decode_pct_char)

lemma pct_char_plain: "unreserved c \<Longrightarrow> pct_char c = [c]"
  by (simp add: pct_char_def)

lemma pct_char_coded: "\<not> unreserved c \<Longrightarrow> pct_char c = [CHR ''%'', HEX ! (of_char c div 16), HEX ! (of_char c mod 16)]"
  by (simp add: pct_char_def)

lemma uri_encode_loop_eq:
  "uri_encode_loop z n out = (if length (out @ concat (map pct_char z)) < n then Some (out @ concat (map pct_char z)) else None)"
  by (induction z n out rule: uri_encode_loop.induct) (auto simp: pct_char_plain pct_char_coded)


lemma pct_char_safe: "set (pct_char c) \<subseteq> Collect unreserved \<union> {CHR ''%''}"
proof (cases "unreserved c")
  case False
  have "unreserved (HEX ! n)" if "n < 16" for n
  proof -
    have "list_all (\<lambda>n. unreserved (HEX ! n)) [0..<16]" by code_simp
    with that show ?thesis by (simp add: list_all_iff)
  qed
  then have "unreserved (HEX ! (of_char c div 16))" "unreserved (HEX ! (of_char c mod 16))"
    by (simp_all add: less_mult_imp_div_less)
  with False show ?thesis by (simp add: pct_char_coded)
qed (simp add: pct_char_plain)

text \<open>C30 Percent-encoding a name into a buffer of \<open>n\<close> bytes succeeds exactly if the encoded name and its terminator fit, the
  result holds only unreserved characters and percent signs, and decoding it gives the name back; so different names are
  encoded differently.\<close>

theorem uri_encode_round_trip:
  "uri_encode z n = (if length (concat (map pct_char z)) < n then Some (concat (map pct_char z)) else None) \<and>
   set (concat (map pct_char z)) \<subseteq> Collect unreserved \<union> {CHR ''%''} \<and> uri_decode (concat (map pct_char z)) = z"
  using pct_char_safe by (force simp: uri_encode_def uri_encode_loop_eq uri_decode_concat)

section \<open>Page range lists\<close>

text \<open>Decimal numbers and the scanner.\<close>

lemma dec_nat_digits: "list_all is_digit (dec_nat n)" "dec_nat n \<noteq> []"
proof (induction n rule: dec_nat.induct)
  case (1 n)
  have d: "is_digit (char_of (48 + k))" if "k < 10" for k :: nat using that by (simp add: is_digit_def of_char_of)
  { case 1 then show ?case using "1.IH"(1) d by (simp add: dec_nat.simps [of n])
  next case 2 then show ?case by (simp add: dec_nat.simps [of n]) }
qed

lemma digits_value_snoc: "digits_value (ds @ [c]) = 10 * digits_value ds + (of_char c - 48)"
  by (simp add: digits_value_def)

lemma digits_value_dec: "digits_value (dec_nat n) = n"
proof (induction n rule: dec_nat.induct)
  case (1 n)
  show ?case
  proof (cases "n < 10")
    case True
    then show ?thesis by (simp add: dec_nat.simps [of n] digits_value_def of_char_of)
  next
    case False
    then show ?thesis using 1 by (simp add: dec_nat.simps [of n] digits_value_snoc of_char_of)
  qed
qed

lemma takeWhile_digits: "list_all is_digit ds \<Longrightarrow> \<not> is_digit c \<Longrightarrow> takeWhile is_digit (ds @ c # s) = ds"
  by (induction ds) auto

lemma strtoll_dec:
  assumes "0 \<le> v" and "v < 9223372036854775808" and "\<not> is_digit c"
  shows "strtoll (dec_int v @ c # s) = v"
proof -
  let ?d = "dec_nat (nat v)"
  obtain x xs where d: "?d = x # xs" using dec_nat_digits(2) by (cases ?d) auto
  have x: "is_digit x" using dec_nat_digits(1) [of "nat v"] by (simp add: d)
  then have "\<not> is_space x" "x \<noteq> CHR ''-''" "x \<noteq> CHR ''+''" by (auto simp: is_digit_def is_space_def)
  moreover have "takeWhile is_digit (x # xs @ c # s) = ?d" using takeWhile_digits [OF dec_nat_digits(1) assms(3), of "nat v" s] by (simp add: d)
  ultimately show ?thesis using assms(1,2) digits_value_dec [of "nat v"] by (simp add: strtoll_def dec_int_def d Let_def)
qed

lemma strstr_skip: "CHR ''<'' \<notin> set ds \<Longrightarrow> strstr (ds @ s) (CHR ''<'' # n) = strstr s (CHR ''<'' # n)"
  by (induction ds) auto

lemma dec_int_plain: "CHR ''<'' \<notin> set (dec_int v)"
  using dec_nat_digits(1) [of "nat v"] dec_nat_digits(1) [of "nat (- v)"]
  by (auto simp: dec_int_def list_all_iff is_digit_def)

text \<open>The document of the service, with the text \<open>decl\<close> in its declaration.\<close>

definition range_xml :: "azure_diff_range \<Rightarrow> string" where
  "range_xml r =
     (if dr_is_clear r then ''<ClearRange><Start>'' else ''<PageRange><Start>'') @ dec_int (dr_start r) @ ''</Start><End>'' @
     dec_int (dr_end r) @ (if dr_is_clear r then ''</End></ClearRange>'' else ''</End></PageRange>'')"

definition page_list_xml :: "string \<Rightarrow> azure_diff_range list \<Rightarrow> string" where
  "page_list_xml decl rs = ''<?'' @ decl @ ''?><PageList>'' @ concat (map range_xml rs) @ ''</PageList>''"

definition range_fits :: "azure_diff_range \<Rightarrow> bool" where
  "range_fits r \<longleftrightarrow> 0 \<le> dr_start r \<and> dr_start r < 2 ^ 63 \<and> 0 \<le> dr_end r \<and> dr_end r < 2 ^ 63"

lemma strstr_le: "strstr s n = Some t \<Longrightarrow> length t \<le> length s"
  by (drule strstr_length) simp

lemma next_tag_range:
  "next_tag (range_xml r @ s) =
     Some (dr_is_clear r, ''<Start>'' @ dec_int (dr_start r) @ ''</Start><End>'' @ dec_int (dr_end r) @
       (if dr_is_clear r then ''</End></ClearRange>'' else ''</End></PageRange>'') @ s)"
  using strstr_le [of s "''<PageRange>''"] strstr_le [of s "''<ClearRange>''"]
  by (auto simp: next_tag_def range_xml_def strstr_skip dec_int_plain split: option.split)


lemma next_tag_end: "next_tag ''</PageList>'' = None"
  by (simp add: next_tag_def)

lemma next_tag_decl: "CHR ''<'' \<notin> set decl \<Longrightarrow> next_tag (''<?'' @ decl @ ''?><PageList>'' @ s) = next_tag s"
  by (simp add: next_tag_def strstr_skip)

lemma parse_loop_cong: "next_tag p = next_tag q \<Longrightarrow> parse_ranges_loop lib p cap rs s = parse_ranges_loop lib q cap rs s"
  by (simp add: parse_ranges_loop.simps [of lib p] parse_ranges_loop.simps [of lib q])

text \<open>One round of the loop on one range of the document.\<close>

lemma parse_range_round:
  assumes "range_fits r"
  shows "parse_ranges_loop lib (range_xml r @ t) cap rs s =
    (case grow_ranges lib cap (length rs) s of
       (None, s) \<Rightarrow> (None, s)
     | (Some cap, s) \<Rightarrow> parse_ranges_loop lib t cap (rs @ [r]) s)"
  using assms
  by (cases r) (simp add: parse_ranges_loop.simps [of lib "range_xml _ @ t"] next_tag_range strstr_skip dec_int_plain strtoll_dec range_fits_def is_digit_def
      split: prod.split option.split)

definition allocates :: "'w http_lib \<Rightarrow> bool" where
  "allocates lib \<longleftrightarrow> (\<forall>w. fst (hl_alloc lib w))"

lemma grow_ranges_allocates: "allocates lib \<Longrightarrow> \<exists>cap' s'. grow_ranges lib cap n s = (Some cap', s')"
  by (auto simp: allocates_def grow_ranges_def c_alloc_def split: prod.split) (metis fst_conv)

lemma parse_ranges_printed:
  assumes "list_all range_fits rs"
  shows "\<exists>r s'. parse_ranges_loop lib (concat (map range_xml rs) @ ''</PageList>'') cap acc s = (r, s') \<and>
    r \<in> {Some (acc @ rs), None} \<and> (allocates lib \<longrightarrow> r = Some (acc @ rs))"
  using assms
proof (induction rs arbitrary: cap acc s)
  case Nil
  then show ?case by (simp add: parse_ranges_loop.simps next_tag_end)
next
  case (Cons x xs)
  obtain c s1 where g: "grow_ranges lib cap (length acc) s = (c, s1)" by fastforce
  have st: "parse_ranges_loop lib (concat (map range_xml (x # xs)) @ ''</PageList>'') cap acc s =
      (case c of None \<Rightarrow> (None, s1) | Some cap \<Rightarrow> parse_ranges_loop lib (concat (map range_xml xs) @ ''</PageList>'') cap (acc @ [x]) s1)"
    using parse_range_round [of x lib "concat (map range_xml xs) @ ''</PageList>''" cap acc s] Cons.prems by (simp add: g)
  show ?case
  proof (cases c)
    case None
    then show ?thesis using st grow_ranges_allocates [of lib cap "length acc" s] g by auto
  next
    case (Some k)
    then show ?thesis using st Cons.IH [of k "acc @ [x]" s1] Cons.prems by simp
  qed
qed

text \<open>C29 The parser of changed page ranges returns exactly the ranges of the document, in order and with the right kind,
  for any number of them, and fails only for lack of memory.\<close>

theorem page_ranges_round_trip:
  assumes "list_all range_fits rs" and "CHR ''<'' \<notin> set decl"
  shows "\<exists>r s'. parse_page_ranges_xml lib (page_list_xml decl rs) s = (r, s') \<and> r \<in> {Some rs, None} \<and>
    (allocates lib \<longrightarrow> r = Some rs)"
proof -
  obtain ok s1 where c: "c_alloc lib s = (ok, s1)" by fastforce
  have "allocates lib \<longrightarrow> ok" using c by (auto simp: allocates_def c_alloc_def split: prod.splits) (metis fst_conv)
  moreover have "parse_ranges_loop lib (page_list_xml decl rs) 64 [] s1 =
      parse_ranges_loop lib (concat (map range_xml rs) @ ''</PageList>'') 64 [] s1"
    unfolding page_list_xml_def using assms(2) by (intro parse_loop_cong next_tag_decl)
  ultimately show ?thesis using parse_ranges_printed [OF assms(1), of lib 64 "[]" s1] c by (auto simp: parse_page_ranges_xml_def)
qed

definition memory_only :: "unit http_lib" where
  "memory_only = \<lparr>hl_crypto = \<lparr>cr_b64 = Map.empty, cr_unb64 = Map.empty, cr_hmac = (\<lambda>_. Map.empty)\<rparr>, hl_date = (\<lambda>_. []),
      hl_alloc = (\<lambda>w. (True, w)), hl_random = Map.empty, hl_strerror = (\<lambda>_. []),
      hl_perform = (\<lambda>rq w. (\<lparr>cr_code = CURLE_OK, cr_status = 200, cr_headers = [], cr_body = []\<rparr>, w)), hl_multi = (\<lambda>rqs w. (0, [], [], w))\<rparr>"

theorem page_ranges_round_trip_witness:
  "fst (parse_page_ranges_xml memory_only (page_list_xml ''xml'' [\<lparr>dr_start = 0, dr_end = 511, dr_is_clear = False\<rparr>,
       \<lparr>dr_start = 512, dr_end = 1023, dr_is_clear = True\<rparr>]) \<lparr>cs_locked = False, cs_multi = False, cs_world = ()\<rparr>) =
     Some [\<lparr>dr_start = 0, dr_end = 511, dr_is_clear = False\<rparr>, \<lparr>dr_start = 512, dr_end = 1023, dr_is_clear = True\<rparr>]"
proof -
  let ?rs = "[\<lparr>dr_start = 0, dr_end = 511, dr_is_clear = False\<rparr>, \<lparr>dr_start = 512, dr_end = 1023, dr_is_clear = True\<rparr>] :: azure_diff_range list"
  have "list_all range_fits ?rs" "allocates memory_only" by (simp_all add: range_fits_def allocates_def memory_only_def)
  moreover have "CHR ''<'' \<notin> set ''xml''" by simp
  ultimately obtain r s' where "parse_page_ranges_xml memory_only (page_list_xml ''xml'' ?rs)
      \<lparr>cs_locked = False, cs_multi = False, cs_world = ()\<rparr> = (r, s')" "r = Some ?rs"
    using page_ranges_round_trip by blast
  then show ?thesis by simp
qed

end
