(* ===== verification/Azure_Parallel.thy ===== *)
theory Azure_Parallel
  imports Azure_Rest
begin

text \<open>
  The operations of \<^verbatim>\<open>azure_client.c\<close> that run many requests at once on a libcurl multi handle: the batch of page writes, the
  chunked read of a page blob and the parallel upload of a block blob, with their rounds of retries. The pause before a retry
  round is left out. In the state after locking, \<open>cs_locked\<close> is set until the unlock on the way out.
\<close>

section \<open>Shared parts\<close>

definition BATCH_MAX_RETRIES :: nat where [simp]: "BATCH_MAX_RETRIES = 3"
definition BATCH_LEASE_RENEWAL_SEC :: int where [simp]: "BATCH_LEASE_RENEWAL_SEC = 15"

definition client_lock :: "'w client_state \<Rightarrow> 'w client_state option" where
  "client_lock s = (if cs_locked s then None else Some (s\<lparr>cs_locked := True\<rparr>))"

definition client_unlock :: "'w client_state \<Rightarrow> 'w client_state" where
  "client_unlock s = s\<lparr>cs_locked := False\<rparr>"

definition ensure_multi_handle :: "'w http_lib \<Rightarrow> 'w client_state \<Rightarrow> bool \<times> 'w client_state" where
  "ensure_multi_handle lib s =
     (if cs_multi s then (True, s)
      else case c_alloc lib s of (ok, s) \<Rightarrow> if ok then (True, s\<lparr>cs_multi := True\<rparr>) else (False, s))"

definition multi_error :: "curlcode \<Rightarrow> azure_err" where
  "multi_error res =
     (if res = CURLE_OPERATION_TIMEDOUT \<or> res = CURLE_COULDNT_CONNECT then AZURE_ERR_SERVER else AZURE_ERR_NETWORK)"

definition is_2xx :: "int \<Rightarrow> bool" where
  "is_2xx http_status \<longleftrightarrow> 200 \<le> http_status \<and> http_status < 300"

text \<open>The first failure of a round is the one that is reported.\<close>

definition first_failure ::
  "int \<Rightarrow> string \<Rightarrow> string \<Rightarrow> azure_err \<times> azure_error \<Rightarrow> azure_err \<times> azure_error" where
  "first_failure http_status xml error_code a =
     (case a of (attempt_err, err) \<Rightarrow>
      if attempt_err \<noteq> AZURE_OK then (attempt_err, err)
      else
        let err = err\<lparr>err_http_status := clamp_http_status http_status\<rparr>;
            err = (if xml \<noteq> [] then snd (azure_parse_error_xml xml err) else err);
            err = (if error_code \<noteq> [] then err\<lparr>err_error_code := take 127 error_code\<rparr> else err)
        in (azure_classify_http_error http_status error_code, err))"

text \<open>The state of a round while its completion messages are read: the finished entries, the first failure and the last ETag.\<close>

record round =
  rd_done :: "bool list"
  rd_fail :: "azure_err \<times> azure_error"
  rd_etag :: string

definition curl_failure :: "curlcode \<Rightarrow> round \<Rightarrow> round" where
  "curl_failure res r =
     (if fst (rd_fail r) = AZURE_OK then r\<lparr>rd_fail := (multi_error res, snd (rd_fail r))\<rparr> else r)"

text \<open>One message of the upload of entry \<open>i\<close>.\<close>

definition put_message ::
  "'w http_lib \<Rightarrow> nat \<Rightarrow> curl_reply \<Rightarrow> round \<Rightarrow> 'w client_state \<Rightarrow> (round \<times> 'w client_state) option" where
  "put_message lib i reply r s =
     (let rh = foldl (\<lambda>h l. curl_header_cb l h) headers_zero (cr_headers reply) in
      case receive_body lib (cr_body reply) azure_buffer_init s of
        None \<Rightarrow> None
      | Some (took, buf, s) \<Rightarrow>
          let res = (if took then cr_code reply else CURLE_WRITE_ERROR) in
          if res \<noteq> CURLE_OK then Some (curl_failure res r, s)
          else if is_2xx (cr_status reply)
          then Some (r\<lparr>rd_done := (rd_done r)[i := True], rd_etag := (if rh_etag rh \<noteq> [] then rh_etag rh else rd_etag r)\<rparr>, s)
          else Some (r\<lparr>rd_fail := first_failure (cr_status reply) (buf_string buf) (rh_error_code rh) (rd_fail r)\<rparr>, s))"

text \<open>All messages; \<open>idxs\<close> are the entries of the requests of this round.\<close>

fun put_messages ::
  "'w http_lib \<Rightarrow> nat list \<Rightarrow> (nat \<times> curl_reply) list \<Rightarrow> round \<Rightarrow> 'w client_state \<Rightarrow> (round \<times> 'w client_state) option" where
  "put_messages lib idxs [] r s = Some (r, s)"
| "put_messages lib idxs ((j, reply) # ms) r s =
     (if length idxs \<le> j then put_messages lib idxs ms r s
      else case put_message lib (idxs ! j) reply r s of
        None \<Rightarrow> None
      | Some (r, s) \<Rightarrow> put_messages lib idxs ms r s)"

text \<open>The entries a round has to send, in order.\<close>

definition pending :: "bool list \<Rightarrow> nat list" where
  "pending fin = filter (\<lambda>i. \<not> fin ! i) [0..<length fin]"

text \<open>Setting up the requests of the pending entries, up to the first that cannot be set up.\<close>

fun setup_requests ::
  "(nat \<Rightarrow> 'w client_state \<Rightarrow> azure_err \<times> http_request option \<times> 'w client_state) \<Rightarrow> nat list \<Rightarrow> 'w client_state \<Rightarrow>
     azure_err \<times> http_request list \<times> 'w client_state" where
  "setup_requests mk [] s = (AZURE_OK, [], s)"
| "setup_requests mk (i # is) s =
     (case mk i s of
        (rc, Some rq, s) \<Rightarrow> (case setup_requests mk is s of (rc, rqs, s) \<Rightarrow> (rc, rq # rqs, s))
      | (rc, None, s) \<Rightarrow> (rc, [], s))"

text \<open>The verdict after the rounds.\<close>

definition verdict ::
  "string \<Rightarrow> azure_err \<Rightarrow> round \<Rightarrow> 'w client_state \<Rightarrow> azure_err \<times> azure_error \<times> 'w client_state" where
  "verdict msg result r s =
     (if list_all id (rd_done r)
      then (AZURE_OK, azure_error_init\<lparr>err_etag := rd_etag r\<rparr>, client_unlock s)
      else
        let result = (if result = AZURE_OK then AZURE_ERR_IO else result);
            err = (snd (rd_fail r))\<lparr>err_code := result\<rparr>;
            err = (if err_error_message err = [] then err\<lparr>err_error_message := msg\<rparr> else err)
        in (result, err, client_unlock s))"

section \<open>Batch writes\<close>

text \<open>The header list and the \<^verbatim>\<open>easy\<close> handle of one Put Page request.\<close>

definition batch_headers :: "string \<Rightarrow> string \<Rightarrow> string \<Rightarrow> string \<Rightarrow> int \<Rightarrow> string \<Rightarrow> string list" where
  "batch_headers date_buf range_val lid if_match len auth =
     [snp 600 (''x-ms-date: '' @ date_buf), snp 600 (''x-ms-version: '' @ AZURE_API_VERSION),
      ''x-ms-page-write: update'', snp 600 (''x-ms-range: '' @ range_val)] @
     (if lid \<noteq> [] then [snp 600 (''x-ms-lease-id: '' @ lid)] else []) @
     (if if_match \<noteq> [] then [snp 600 (''If-Match: '' @ if_match)] else []) @
     [snp 600 (''Content-Length: '' @ dec_int len), ''Content-Type: application/octet-stream''] @
     (if auth \<noteq> [] then [snp 600 (''Authorization: '' @ auth)] else [])"

definition batch_init_easy ::
  "'w http_lib \<Rightarrow> azure_client \<Rightarrow> string \<Rightarrow> string \<Rightarrow> azure_page_range \<Rightarrow> string option \<Rightarrow> string option \<Rightarrow> 'w client_state \<Rightarrow>
     azure_err \<times> http_request option \<times> 'w client_state" where
  "batch_init_easy lib c url name r lease_id if_match s =
     (case c_alloc lib s of (ok, s) \<Rightarrow>
      if \<not> ok then (AZURE_ERR_NETWORK, None, s)
      else
        let date_buf = snp 64 (hl_date lib (cs_world s));
            body = (case pr_data r of None \<Rightarrow> [] | Some d \<Rightarrow> d);
            range_val = snp 128 (''bytes='' @ dec_int (pr_offset r) @ ''-'' @ dec_int (pr_offset r + pr_len r - 1));
            lid = opt_str lease_id;
            xms = [snp 128 (''x-ms-date:'' @ date_buf)] @ (if lid \<noteq> [] then [snp 192 (''x-ms-lease-id:'' @ lid)] else []) @
                  [''x-ms-page-write:update'', snp 192 (''x-ms-range:'' @ range_val),
                   snp 64 (''x-ms-version:'' @ AZURE_API_VERSION)];
            (rc, auth) = (if ac_use_sas c then (AZURE_OK, [])
                          else azure_auth_sign_request (hl_crypto lib) c ''PUT'' (sign_path c name) (Some ''comp=page'')
                                 (snp 32 (dec_int (pr_len r))) ''application/octet-stream'' [] if_match xms 512) in
        if rc \<noteq> AZURE_OK then (rc, None, s)
        else
          let hs = batch_headers date_buf range_val lid (opt_str if_match) (pr_len r) auth in
          case slist_append lib hs s of (ok, s) \<Rightarrow>
          if \<not> ok then (AZURE_ERR_NOMEM, None, s)
          else (AZURE_OK, Some \<lparr>rq_method = ''PUT'', rq_url = url, rq_headers = hs, rq_body = body\<rparr>, s))"

text \<open>The event loop with the lease renewals: the clock readings of its rounds. The boolean is \<^verbatim>\<open>lease_lost\<close>.\<close>

fun renew_loop ::
  "'w http_lib \<Rightarrow> azure_client \<Rightarrow> string \<Rightarrow> string \<Rightarrow> int \<Rightarrow> int list \<Rightarrow> 'w client_state \<Rightarrow> (bool \<times> 'w client_state) option" where
  "renew_loop lib c name lid last_renewal [] s = Some (False, s)"
| "renew_loop lib c name lid last_renewal (now # ts) s =
     (if lid \<noteq> [] \<and> BATCH_LEASE_RENEWAL_SEC \<le> now - last_renewal
      then case az_lease_renew lib c name lid s of
             None \<Rightarrow> None
           | Some (lrc, le, s) \<Rightarrow> if lrc \<noteq> AZURE_OK then Some (True, s) else renew_loop lib c name lid now ts s
      else renew_loop lib c name lid last_renewal ts s)"

function batch_attempts ::
  "'w http_lib \<Rightarrow> azure_client \<Rightarrow> string \<Rightarrow> string \<Rightarrow> azure_page_range list \<Rightarrow> string option \<Rightarrow> string option \<Rightarrow> nat \<Rightarrow> azure_err \<Rightarrow>
     round \<Rightarrow> 'w client_call" where
  "batch_attempts lib c url name ranges lease_id if_match attempt result r s =
     (let idxs = pending (rd_done r); msg = ''Batch write: ranges failed after 3 retries'' in
      if BATCH_MAX_RETRIES < attempt \<or> idxs = [] then Some (verdict msg result r s)
      else case c_alloc lib s of (ok, s) \<Rightarrow>
      if \<not> ok then Some (AZURE_ERR_NOMEM, (snd (rd_fail r))\<lparr>err_code := AZURE_ERR_NOMEM\<rparr>, s)
      else case setup_requests (\<lambda>i. batch_init_easy lib c url name (ranges ! i) lease_id if_match) idxs s of (rc, rqs, s) \<Rightarrow>
      if rc \<noteq> AZURE_OK
      then Some (rc, (snd (rd_fail r))\<lparr>err_code := rc, err_error_message := ''batch write: request setup failed''\<rparr>, client_unlock s)
      else case hl_multi lib rqs (cs_world s) of (t0, ts, msgs, w) \<Rightarrow>
      (case renew_loop lib c name (opt_str lease_id) t0 ts (s\<lparr>cs_world := w\<rparr>) of
         None \<Rightarrow> None
       | Some (lease_lost, s) \<Rightarrow>
      (case put_messages lib idxs msgs (r\<lparr>rd_fail := (AZURE_OK, snd (rd_fail r))\<rparr>) s of
         None \<Rightarrow> None
       | Some (r, s) \<Rightarrow>
      if lease_lost
      then Some (AZURE_ERR_LEASE_EXPIRED,
                 (snd (rd_fail r))\<lparr>err_code := AZURE_ERR_LEASE_EXPIRED, err_error_message := ''Lease lost during batch write''\<rparr>,
                 client_unlock s)
      else if list_all id (rd_done r) \<or> \<not> azure_is_retryable (fst (rd_fail r))
      then Some (verdict msg (fst (rd_fail r)) r s)
      else batch_attempts lib c url name ranges lease_id if_match (Suc attempt) (fst (rd_fail r)) r s)))"
  by pat_completeness auto
termination
  by (relation "measure (\<lambda>(lib, c, url, name, ranges, lease_id, if_match, attempt, result, r, s). Suc BATCH_MAX_RETRIES - attempt)") auto

declare batch_attempts.simps [simp del]

definition round_start :: "nat \<Rightarrow> round" where
  "round_start n = \<lparr>rd_done = replicate n False, rd_fail = (AZURE_OK, azure_error_init), rd_etag = []\<rparr>"

definition batch_url :: "azure_client \<Rightarrow> string \<Rightarrow> string" where
  "batch_url c name =
     (let base = build_blob_url c name 4096; u = url_append (base, length base) ''?comp=page''
      in fst (if ac_use_sas c then url_append u (''&'' @ ac_sas_token c) else u))"

definition az_page_blob_write_batch ::
  "'w http_lib \<Rightarrow> azure_client \<Rightarrow> string \<Rightarrow> azure_page_range list \<Rightarrow> string option \<Rightarrow> string option \<Rightarrow> 'w client_call" where
  "az_page_blob_write_batch lib c name ranges lease_id if_match s =
     (case ranges of
        [] \<Rightarrow> Some (AZURE_OK, azure_error_init, s)
      | [r] \<Rightarrow> az_page_blob_write lib c name (pr_offset r) (case pr_data r of None \<Rightarrow> [] | Some d \<Rightarrow> d) lease_id if_match s
      | _ \<Rightarrow>
          (case client_lock s of
             None \<Rightarrow> None
           | Some s \<Rightarrow>
               (case c_alloc lib s of (ok, s) \<Rightarrow>
                if \<not> ok
                then Some (AZURE_ERR_NOMEM,
                           azure_error_init\<lparr>err_code := AZURE_ERR_NOMEM, err_error_message := ''batch write: allocation failed''\<rparr>,
                           client_unlock s)
                else case ensure_multi_handle lib s of (ok, s) \<Rightarrow>
                if \<not> ok
                then Some (AZURE_ERR_NETWORK,
                           azure_error_init\<lparr>err_code := AZURE_ERR_NETWORK, err_error_message := ''curl_multi_init() failed''\<rparr>,
                           client_unlock s)
                else batch_attempts lib c (batch_url c name) name ranges lease_id if_match 0 AZURE_OK
                       (round_start (length ranges)) s)))"

section \<open>Parallel read\<close>

definition PARALLEL_READ_MAX_STREAMS :: int where [simp]: "PARALLEL_READ_MAX_STREAMS = 16"
definition PARALLEL_READ_MIN_SIZE :: int where [simp]: "PARALLEL_READ_MIN_SIZE = 1024 * 1024"

text \<open>The layout of the chunks: their size and their number, and the bounds of one of them.\<close>

definition chunk_layout :: "int \<Rightarrow> int \<times> int" where
  "chunk_layout total_size =
     (let chunk_size = c_div (total_size + PARALLEL_READ_MAX_STREAMS - 1) PARALLEL_READ_MAX_STREAMS;
          chunk_size = (chunk_size + 511) AND NOT 511
      in (chunk_size, c_div (total_size + chunk_size - 1) chunk_size))"

definition chunk_bounds :: "int \<Rightarrow> nat \<Rightarrow> int \<times> int" where
  "chunk_bounds total_size i =
     (let offset = int i * fst (chunk_layout total_size); remaining = total_size - offset
      in (offset, if remaining < fst (chunk_layout total_size) then remaining else fst (chunk_layout total_size)))"

text \<open>\<^verbatim>\<open>read_chunk_write_cb\<close> on the pieces of a body: what does not fit in the chunk is dropped.\<close>

fun read_chunk_write_cb :: "bytes list \<Rightarrow> nat \<Rightarrow> nat \<Rightarrow> nat \<Rightarrow> bytes \<Rightarrow> bytes" where
  "read_chunk_write_cb [] off cap received dest = dest"
| "read_chunk_write_cb (d # ds) off cap received dest =
     (let d' = (if cap < received + length d then take (cap - received) d else d)
      in read_chunk_write_cb ds off cap (received + length d') (put dest (off + received) d'))"

definition read_batch_init_easy ::
  "'w http_lib \<Rightarrow> azure_client \<Rightarrow> string \<Rightarrow> string \<Rightarrow> int \<Rightarrow> int \<Rightarrow> 'w client_state \<Rightarrow>
     azure_err \<times> http_request option \<times> 'w client_state" where
  "read_batch_init_easy lib c url name offset len s =
     (case c_alloc lib s of (ok, s) \<Rightarrow>
      if \<not> ok then (AZURE_ERR_NETWORK, None, s)
      else
        let date_buf = snp 64 (hl_date lib (cs_world s));
            range_val = snp 128 (''bytes='' @ dec_int offset @ ''-'' @ dec_int (offset + len - 1));
            xms = [snp 128 (''x-ms-date:'' @ date_buf), snp 192 (''x-ms-range:'' @ range_val),
                   snp 64 (''x-ms-version:'' @ AZURE_API_VERSION)];
            (rc, auth) = (if ac_use_sas c then (AZURE_OK, [])
                          else azure_auth_sign_request (hl_crypto lib) c ''GET'' (sign_path c name) None [] [] [] None xms 512) in
        if rc \<noteq> AZURE_OK then (rc, None, s)
        else
          let hs = [snp 600 (''x-ms-date: '' @ date_buf), snp 600 (''x-ms-version: '' @ AZURE_API_VERSION),
                    snp 600 (''x-ms-range: '' @ range_val)] @ (if auth \<noteq> [] then [snp 600 (''Authorization: '' @ auth)] else []) in
          case slist_append lib hs s of (ok, s) \<Rightarrow>
          if \<not> ok then (AZURE_ERR_NOMEM, None, s)
          else (AZURE_OK, Some \<lparr>rq_method = ''GET'', rq_url = url, rq_headers = hs, rq_body = []\<rparr>, s))"

text \<open>One message of the download of chunk \<open>i\<close>. The body goes to the destination whatever the status is.\<close>

definition get_message :: "int \<Rightarrow> nat \<Rightarrow> curl_reply \<Rightarrow> round \<times> bytes \<Rightarrow> round \<times> bytes" where
  "get_message total_size i reply rb =
     (case rb of (r, dest) \<Rightarrow>
      let rh = foldl (\<lambda>h l. curl_header_cb l h) headers_zero (cr_headers reply);
          dest = read_chunk_write_cb (cr_body reply) (nat (fst (chunk_bounds total_size i)))
                   (nat (snd (chunk_bounds total_size i))) 0 dest in
      if cr_code reply \<noteq> CURLE_OK then (curl_failure (cr_code reply) r, dest)
      else if is_2xx (cr_status reply) then (r\<lparr>rd_done := (rd_done r)[i := True]\<rparr>, dest)
      else (r\<lparr>rd_fail := first_failure (cr_status reply) [] (rh_error_code rh) (rd_fail r)\<rparr>, dest))"

fun get_messages :: "int \<Rightarrow> nat list \<Rightarrow> (nat \<times> curl_reply) list \<Rightarrow> round \<times> bytes \<Rightarrow> round \<times> bytes" where
  "get_messages total_size idxs [] rb = rb"
| "get_messages total_size idxs ((j, reply) # ms) rb =
     get_messages total_size idxs ms (if length idxs \<le> j then rb else get_message total_size (idxs ! j) reply rb)"

function read_attempts ::
  "'w http_lib \<Rightarrow> azure_client \<Rightarrow> string \<Rightarrow> string \<Rightarrow> int \<Rightarrow> nat \<Rightarrow> azure_err \<Rightarrow> round \<Rightarrow> bytes \<Rightarrow> ('w, bytes) client_query" where
  "read_attempts lib c url name total_size attempt result r dest s =
     (let idxs = pending (rd_done r);
          ver = (\<lambda>result r dest s. case verdict ''Parallel read: chunks failed after 3 retries'' result r s of
                   (rc, err, s) \<Rightarrow> Some (rc, dest, err, s)) in
      if BATCH_MAX_RETRIES < attempt \<or> idxs = [] then ver result r dest s
      else case c_alloc lib s of (ok, s) \<Rightarrow>
      if \<not> ok then Some (AZURE_ERR_NOMEM, dest, (snd (rd_fail r))\<lparr>err_code := AZURE_ERR_NOMEM\<rparr>, client_unlock s)
      else case setup_requests (\<lambda>i. case chunk_bounds total_size i of (offset, len) \<Rightarrow>
                                   read_batch_init_easy lib c url name offset len) idxs s of (rc, rqs, s) \<Rightarrow>
      if rc \<noteq> AZURE_OK
      then Some (rc, dest, (snd (rd_fail r))\<lparr>err_code := rc, err_error_message := ''parallel read: request setup failed''\<rparr>,
                 client_unlock s)
      else case hl_multi lib rqs (cs_world s) of (t0, ts, msgs, w) \<Rightarrow>
      (case get_messages total_size idxs msgs (r\<lparr>rd_fail := (AZURE_OK, snd (rd_fail r))\<rparr>, dest) of (r, dest) \<Rightarrow>
      let s = s\<lparr>cs_world := w\<rparr> in
      if list_all id (rd_done r) \<or> \<not> azure_is_retryable (fst (rd_fail r)) then ver (fst (rd_fail r)) r dest s
      else read_attempts lib c url name total_size (Suc attempt) (fst (rd_fail r)) r dest s))"
  by pat_completeness auto
termination
  by (relation "measure (\<lambda>(lib, c, url, name, total_size, attempt, result, r, dest, s). Suc BATCH_MAX_RETRIES - attempt)") auto

declare read_attempts.simps [simp del]

definition read_url :: "azure_client \<Rightarrow> string \<Rightarrow> string" where
  "read_url c name =
     (let base = build_blob_url c name 4096
      in if ac_use_sas c then snp 4096 (base @ ''?'' @ ac_sas_token c) else base)"

definition az_page_blob_read_multi ::
  "'w http_lib \<Rightarrow> azure_client \<Rightarrow> string \<Rightarrow> int \<Rightarrow> bytes \<Rightarrow> ('w, bytes) client_query" where
  "az_page_blob_read_multi lib c name total_size dest s =
     (if total_size \<le> 0 then Some (AZURE_OK, dest, azure_error_init, s)
      else if total_size < PARALLEL_READ_MIN_SIZE
      then map_option (\<lambda>(rc, buf, err, s).
               (rc, if rc = AZURE_OK
                    then put dest 0 (take (nat total_size) (take (nat (buf_size buf)) (case buf_data buf of None \<Rightarrow> [] | Some d \<Rightarrow> d)))
                    else dest, err, s))
             (az_page_blob_read lib c name 0 total_size s)
      else case client_lock s of
        None \<Rightarrow> None
      | Some s \<Rightarrow>
          (case c_alloc lib s of (ok, s) \<Rightarrow>
           if \<not> ok then Some (AZURE_ERR_NOMEM, dest, azure_error_init\<lparr>err_code := AZURE_ERR_NOMEM\<rparr>, client_unlock s)
           else case ensure_multi_handle lib s of (ok, s) \<Rightarrow>
           if \<not> ok
           then Some (AZURE_ERR_NETWORK, dest,
                      azure_error_init\<lparr>err_code := AZURE_ERR_NETWORK, err_error_message := ''curl_multi_init() failed''\<rparr>,
                      client_unlock s)
           else read_attempts lib c (read_url c name) name total_size 0 AZURE_OK
                  (round_start (nat (snd (chunk_layout total_size)))) dest s))"

section \<open>Parallel upload of block blobs\<close>

definition BLOCK_UPLOAD_MIN_PARALLEL_SIZE :: int where [simp]: "BLOCK_UPLOAD_MIN_PARALLEL_SIZE = 256 * 1024"

definition dec_pad4 :: "nat \<Rightarrow> string" where
  "dec_pad4 n = replicate (4 - length (dec_nat n)) (CHR ''0'') @ dec_nat n"

definition block_make_id :: "crypto \<Rightarrow> nat \<Rightarrow> nat \<Rightarrow> string option" where
  "block_make_id cr chunk_idx b64_out_size =
     azure_base64_encode cr (bytes_of_string (snp 16 (''block-'' @ dec_pad4 chunk_idx))) b64_out_size"

definition block_init_easy ::
  "'w http_lib \<Rightarrow> azure_client \<Rightarrow> string \<Rightarrow> string \<Rightarrow> string \<Rightarrow> bytes \<Rightarrow> 'w client_state \<Rightarrow>
     azure_err \<times> http_request option \<times> 'w client_state" where
  "block_init_easy lib c url name query_params chunk s =
     (case c_alloc lib s of (ok, s) \<Rightarrow>
      if \<not> ok then (AZURE_ERR_NETWORK, None, s)
      else
        let date_buf = snp 64 (hl_date lib (cs_world s));
            xms = [snp 128 (''x-ms-date:'' @ date_buf), snp 64 (''x-ms-version:'' @ AZURE_API_VERSION)];
            (rc, auth) = (if ac_use_sas c then (AZURE_OK, [])
                          else azure_auth_sign_request (hl_crypto lib) c ''PUT'' (sign_path c name) (Some query_params)
                                 (snp 32 (dec_nat (length chunk))) ''application/octet-stream'' [] None xms 512) in
        if rc \<noteq> AZURE_OK then (rc, None, s)
        else
          let hs = [snp 600 (''x-ms-date: '' @ date_buf), snp 600 (''x-ms-version: '' @ AZURE_API_VERSION),
                    snp 600 (''Content-Length: '' @ dec_nat (length chunk)), ''Content-Type: application/octet-stream''] @
                   (if auth \<noteq> [] then [snp 600 (''Authorization: '' @ auth)] else []) in
          case slist_append lib hs s of (ok, s) \<Rightarrow>
          if \<not> ok then (AZURE_ERR_NOMEM, None, s)
          else (AZURE_OK, Some \<lparr>rq_method = ''PUT'', rq_url = url, rq_headers = hs, rq_body = chunk\<rparr>, s))"

text \<open>The request of one chunk: its identifier, its URL and its bytes.\<close>

definition block_request ::
  "'w http_lib \<Rightarrow> azure_client \<Rightarrow> string \<Rightarrow> bytes \<Rightarrow> nat \<Rightarrow> nat \<Rightarrow> 'w client_state \<Rightarrow>
     azure_err \<times> http_request option \<times> 'w client_state" where
  "block_request lib c name d chunk_size i s =
     (case block_make_id (hl_crypto lib) i 32 of
        None \<Rightarrow> (AZURE_ERR_IO, None, s)
      | Some b64_id \<Rightarrow>
          let query = snp 256 (''comp=block&blockid='' @ b64_id);
              full = build_blob_url c name 4096 @ ''?'' @ query;
              u = (snp 4096 full, length full);
              u = (if ac_use_sas c then url_append u (''&'' @ ac_sas_token c) else u)
          in block_init_easy lib c (fst u) name query (bslice d (i * chunk_size) chunk_size) s)"

function block_attempts ::
  "'w http_lib \<Rightarrow> azure_client \<Rightarrow> string \<Rightarrow> bytes \<Rightarrow> nat \<Rightarrow> nat \<Rightarrow> azure_err \<Rightarrow> round \<Rightarrow> 'w client_state \<Rightarrow>
     (azure_err \<times> azure_error \<times> bool \<times> 'w client_state) option" where
  "block_attempts lib c name d chunk_size attempt result r s =
     (let idxs = pending (rd_done r);
          ver = (\<lambda>result r s. case verdict ''Block upload: chunks failed after 3 retries'' result r s of
                   (rc, err, s) \<Rightarrow> Some (rc, err, list_all id (rd_done r), s)) in
      if BATCH_MAX_RETRIES < attempt \<or> idxs = [] then ver result r s
      else case c_alloc lib s of (ok, s) \<Rightarrow>
      if \<not> ok then Some (AZURE_ERR_NOMEM, (snd (rd_fail r))\<lparr>err_code := AZURE_ERR_NOMEM\<rparr>, False, client_unlock s)
      else case setup_requests (block_request lib c name d chunk_size) idxs s of (rc, rqs, s) \<Rightarrow>
      if rc \<noteq> AZURE_OK
      then Some (rc, if rc = AZURE_ERR_IO then snd (rd_fail r)
                     else (snd (rd_fail r))\<lparr>err_code := rc, err_error_message := ''block upload: request setup failed''\<rparr>,
                 False, client_unlock s)
      else case hl_multi lib rqs (cs_world s) of (t0, ts, msgs, w) \<Rightarrow>
      (case put_messages lib idxs msgs (r\<lparr>rd_fail := (AZURE_OK, snd (rd_fail r))\<rparr>) (s\<lparr>cs_world := w\<rparr>) of
         None \<Rightarrow> None
       | Some (r, s) \<Rightarrow>
      if list_all id (rd_done r) \<or> \<not> azure_is_retryable (fst (rd_fail r)) then ver (fst (rd_fail r)) r s
      else block_attempts lib c name d chunk_size (Suc attempt) (fst (rd_fail r)) r s))"
  by pat_completeness auto
termination
  by (relation "measure (\<lambda>(lib, c, name, d, chunk_size, attempt, result, r, s). Suc BATCH_MAX_RETRIES - attempt)") auto

declare block_attempts.simps [simp del]

text \<open>The XML of the block list, printed into a buffer estimated from the number of chunks. \<^term>\<open>None\<close>: an identifier could
  not be made. The second component is \<^verbatim>\<open>*xml_len\<close>.\<close>

definition xml_print :: "nat \<Rightarrow> string \<times> nat \<Rightarrow> string \<Rightarrow> string \<times> nat" where
  "xml_print est_size u t = (case u of (xml, off) \<Rightarrow> (if length xml = off then snp est_size (xml @ t) else xml, off + length t))"

fun blocklist_loop :: "crypto \<Rightarrow> nat \<Rightarrow> nat list \<Rightarrow> string \<times> nat \<Rightarrow> (string \<times> nat) option" where
  "blocklist_loop cr est_size [] u = Some u"
| "blocklist_loop cr est_size (i # is) u =
     (case block_make_id cr i 32 of
        None \<Rightarrow> None
      | Some b64_id \<Rightarrow>
          blocklist_loop cr est_size is (xml_print est_size u (''  <Latest>'' @ b64_id @ ''</Latest>'' @ [CHR 0x0A])))"

definition block_build_blocklist_xml :: "crypto \<Rightarrow> nat \<Rightarrow> (string \<times> nat) option" where
  "block_build_blocklist_xml cr nChunks =
     (let est_size = 128 + nChunks * 48;
          head = ''<?xml version='' @ [CHR 0x22] @ ''1.0'' @ [CHR 0x22] @ '' encoding='' @ [CHR 0x22] @ ''utf-8'' @ [CHR 0x22] @ ''?>'' @
                 [CHR 0x0A] @ ''<BlockList>'' @ [CHR 0x0A] in
      map_option (\<lambda>u. xml_print est_size u (''</BlockList>'' @ [CHR 0x0A]))
        (blocklist_loop cr est_size [0..<nChunks] (xml_print est_size ([], 0) head)))"

definition az_block_blob_upload_parallel ::
  "'w http_lib \<Rightarrow> azure_client \<Rightarrow> string \<Rightarrow> bytes \<Rightarrow> nat \<Rightarrow> 'w client_call" where
  "az_block_blob_upload_parallel lib c name d chunk_size s =
     (if int (length d) < BLOCK_UPLOAD_MIN_PARALLEL_SIZE then az_block_blob_upload lib c name d s
      else
        let nChunks = (length d + chunk_size - 1) div chunk_size in
        if nChunks \<le> 1 then az_block_blob_upload lib c name d s
        else case client_lock s of
          None \<Rightarrow> None
        | Some s \<Rightarrow>
            (case ensure_multi_handle lib s of (ok, s) \<Rightarrow>
             if \<not> ok
             then Some (AZURE_ERR_NETWORK,
                        azure_error_init\<lparr>err_code := AZURE_ERR_NETWORK, err_error_message := ''curl_multi_init() failed''\<rparr>,
                        client_unlock s)
             else case c_alloc lib s of (ok, s) \<Rightarrow>
             if \<not> ok
             then Some (AZURE_ERR_NOMEM,
                        azure_error_init\<lparr>err_code := AZURE_ERR_NOMEM, err_error_message := ''block upload: allocation failed''\<rparr>,
                        client_unlock s)
             else case block_attempts lib c name d chunk_size 0 AZURE_OK (round_start nChunks) s of
               None \<Rightarrow> None
             | Some (rc, err, all_ok, s) \<Rightarrow>
                 if \<not> all_ok then Some (rc, err, s)
                 else
                   (case block_build_blocklist_xml (hl_crypto lib) nChunks of
                      None \<Rightarrow> Some (AZURE_ERR_NOMEM,
                                    err\<lparr>err_code := AZURE_ERR_NOMEM,
                                        err_error_message := ''Block upload: failed to build block list XML''\<rparr>, s)
                    | Some (xml, xml_len) \<Rightarrow>
                        http_run lib c ''PUT'' name (Some ''comp=blocklist'') [] (Some ''application/xml'')
                          (bytes_of_string (take xml_len xml)) None s)))"

end
