(* ===== verification/Client_Transfers.thy ===== *)
theory Client_Transfers
  imports Azure_Parallel Sync
begin

text \<open>
  What the transfers of the client achieve: the chunks of a parallel read partition the blob and a successful read returns its
  bytes, a successful batch write was acknowledged range by range, every request of an unlocked client returns, and the
  ranges the VFS uploads pass the client's checks. The theorems on the mutex show two ways in which a batch can block
  the client, and one in which a read accepts too little. libcurl and the server stay parameters; what is assumed
  of them is stated in each theorem and met by \<open>sample_server\<close>.
\<close>

section \<open>The chunks of a parallel read\<close>

definition chunk_size :: "int \<Rightarrow> int" where "chunk_size t = fst (chunk_layout t)"
definition chunk_count :: "int \<Rightarrow> nat" where "chunk_count t = nat (snd (chunk_layout t))"
definition chunk_off :: "int \<Rightarrow> nat \<Rightarrow> nat" where "chunk_off t i = nat (fst (chunk_bounds t i))"
definition chunk_len :: "int \<Rightarrow> nat \<Rightarrow> nat" where "chunk_len t i = nat (snd (chunk_bounds t i))"

lemma chunk_size_align: "0 < t \<Longrightarrow> chunk_size t = align512 ((t + 15) div 16)"
  by (simp add: chunk_size_def chunk_layout_def align512_def Let_def add.commute)

lemma chunk_size_large:
  assumes "0 < t"
  shows "t \<le> 16 * chunk_size t" "0 < chunk_size t" "512 dvd chunk_size t"
  using assms align512_bounds [of "(t + 15) div 16"] unfolding chunk_size_align [OF assms] by auto

lemma chunk_count_div: "0 < t \<Longrightarrow> snd (chunk_layout t) = (t + chunk_size t - 1) div chunk_size t"
  using chunk_size_large(2) [of t] by (simp add: chunk_size_def chunk_layout_def Let_def)

lemma chunk_count_bounds:
  assumes "0 < t"
  shows "t \<le> int (chunk_count t) * chunk_size t" "(int (chunk_count t) - 1) * chunk_size t < t" "0 < chunk_count t" "chunk_count t \<le> 16"
proof -
  define c n where "c = chunk_size t" and "n = snd (chunk_layout t)"
  have c: "0 < c" "t \<le> 16 * c" using chunk_size_large [OF assms] by (simp_all add: c_def)
  have n: "n = (t + c - 1) div c" using chunk_count_div [OF assms] by (simp add: c_def n_def)
  have "n * c \<le> t + c - 1" "t + c - 1 < n * c + c"
    using pos_mod_bound [OF c(1), of "t + c - 1"] pos_mod_sign [OF c(1), of "t + c - 1"] div_mult_mod_eq [of "t + c - 1" c]
    unfolding n by linarith+
  then have b: "t \<le> n * c" "(n - 1) * c < t" by (simp_all add: algebra_simps)
  have "0 < n" using b(1) c(1) assms by (metis less_le_trans zero_less_mult_pos2)
  moreover have "n \<le> 16"
  proof (rule ccontr)
    assume "\<not> n \<le> 16"
    then have "16 * c \<le> (n - 1) * c" using c(1) by (intro mult_right_mono) auto
    with b(2) c(2) show False by linarith
  qed
  ultimately show "t \<le> int (chunk_count t) * chunk_size t" "(int (chunk_count t) - 1) * chunk_size t < t" "0 < chunk_count t" "chunk_count t \<le> 16"
    using b by (simp_all add: chunk_count_def c_def [symmetric] n_def [symmetric])
qed

lemma chunk_off_mult: "0 < t \<Longrightarrow> int (chunk_off t i) = int i * chunk_size t"
  using chunk_size_large(2) [of t] by (simp add: chunk_off_def chunk_size_def chunk_bounds_def Let_def)

lemma chunk_off_below:
  assumes "0 < t" and "i < chunk_count t"
  shows "int (chunk_off t i) < t"
proof -
  have "int i * chunk_size t \<le> (int (chunk_count t) - 1) * chunk_size t"
    using assms chunk_size_large(2) [of t] by (intro mult_right_mono) auto
  then show ?thesis using chunk_count_bounds(2) [OF assms(1)] by (simp add: chunk_off_mult [OF assms(1)])
qed

lemma chunk_len_min:
  assumes "0 < t" and "i < chunk_count t"
  shows "int (chunk_len t i) = min (chunk_size t) (t - int (chunk_off t i))"
  using chunk_off_below [OF assms] chunk_size_large(2) [OF assms(1)] chunk_off_mult [OF assms(1), of i]
  by (simp add: chunk_len_def chunk_size_def chunk_bounds_def Let_def)

lemma chunk_off_Suc: "0 < t \<Longrightarrow> int (chunk_off t (Suc i)) = int (chunk_off t i) + chunk_size t"
  by (simp add: chunk_off_mult algebra_simps)

lemma chunk_end:
  assumes "0 < t" and "i < chunk_count t"
  shows "chunk_off t i + chunk_len t i = (if Suc i < chunk_count t then chunk_off t (Suc i) else nat t)"
proof (cases "Suc i < chunk_count t")
  case True
  then show ?thesis using chunk_len_min [OF assms] chunk_off_below [OF assms(1) True] chunk_off_Suc [OF assms(1), of i] by auto
next
  case False
  then have i: "int (chunk_count t) = int i + 1" using assms(2) by simp
  have "t \<le> int (chunk_off t i) + chunk_size t"
    using chunk_count_bounds(1) [OF assms(1)] unfolding i by (simp add: chunk_off_mult [OF assms(1)] algebra_simps)
  then show ?thesis using False chunk_len_min [OF assms] by auto
qed

text \<open>C25 The chunks of a parallel read are at most as many as its streams, each starts on a 512-byte boundary and has at
  least one byte, each ends where the next one starts, the first starts at zero and the last ends at the end: they
  partition the blob.\<close>

theorem chunks_partition_blob:
  assumes "0 < t"
  shows "1 \<le> chunk_count t \<and> chunk_count t \<le> 16 \<and> chunk_off t 0 = 0 \<and>
    (\<forall>i < chunk_count t. 512 dvd chunk_off t i \<and> 0 < chunk_len t i \<and>
       chunk_off t i + chunk_len t i = (if Suc i < chunk_count t then chunk_off t (Suc i) else nat t))"
proof -
  have "512 dvd chunk_off t i \<and> 0 < chunk_len t i" if i: "i < chunk_count t" for i
  proof -
    have "int 512 dvd int (chunk_off t i)" using chunk_size_large(3) [OF assms] by (simp add: chunk_off_mult [OF assms])
    then have "512 dvd chunk_off t i" by (simp only: of_nat_dvd_iff)
    then show ?thesis using chunk_len_min [OF assms i] chunk_off_below [OF assms i] chunk_size_large(2) [OF assms] by linarith
  qed
  moreover have "1 \<le> chunk_count t" "chunk_count t \<le> 16" using chunk_count_bounds [OF assms] by auto
  moreover have "chunk_off t 0 = 0" by (simp add: chunk_off_def chunk_bounds_def)
  ultimately show ?thesis using chunk_end [OF assms] by blast
qed

theorem chunks_partition_blob_witness:
  "chunk_count 3145733 = 16 \<and> chunk_off 3145733 0 = 0 \<and> chunk_off 3145733 15 + chunk_len 3145733 15 = 3145733"
proof -
  have c: "chunk_count 3145733 = 16" by code_simp
  then have "chunk_off 3145733 15 + chunk_len 3145733 15 = nat 3145733"
    using chunks_partition_blob [of 3145733] by auto
  then show ?thesis using chunks_partition_blob [of 3145733] c by simp
qed

section \<open>Setting up the requests of a round\<close>

lemma setup_requests_ok:
  assumes "setup_requests mk is s = (AZURE_OK, rqs, s')" and "\<And>i s rc s1. mk i s = (rc, None, s1) \<Longrightarrow> rc \<noteq> AZURE_OK"
  shows "length rqs = length is \<and> (\<forall>j < length is. \<exists>s0 rc s1. mk (is ! j) s0 = (rc, Some (rqs ! j), s1))"
  using assms(1)
proof (induction "is" arbitrary: s rqs)
  case Nil
  then show ?case by simp
next
  case (Cons i "is")
  obtain rc o1 s1 where m: "mk i s = (rc, o1, s1)" by (cases "mk i s")
  then obtain rq where rq: "o1 = Some rq" using Cons.prems assms(2) [of i s] by (cases o1) auto
  obtain rqs' where r: "setup_requests mk is s1 = (AZURE_OK, rqs', s')" "rqs = rq # rqs'"
    using Cons.prems m rq by (auto split: prod.splits)
  show ?case
  proof (intro conjI allI impI)
    show "length rqs = length (i # is)" using Cons.IH [OF r(1)] r(2) by simp
    fix j assume "j < length (i # is)"
    then show "\<exists>s0 rc s1. mk ((i # is) ! j) s0 = (rc, Some (rqs ! j), s1)"
      using Cons.IH [OF r(1)] r(2) m rq by (cases j) auto
  qed
qed

text \<open>No step of a round before the messages touches the mutex.\<close>

lemma c_alloc_locked [simp]: "c_alloc lib s = (ok, s') \<Longrightarrow> cs_locked s' = cs_locked s"
  by (auto simp: c_alloc_def split: prod.splits)

lemma pending_spec: "set (pending fin) = {i. i < length fin \<and> \<not> fin ! i}" "distinct (pending fin)"
  by (auto simp: pending_def)

lemma pending_Nil: "pending fin = [] \<longleftrightarrow> list_all id fin"
  by (auto simp: pending_def filter_empty_conv list_all_length)

lemma verdict_OK: "verdict msg result r s = (AZURE_OK, err, s') \<Longrightarrow> list_all id (rd_done r)"
  by (auto simp: verdict_def Let_def split: if_splits)

lemma verdict_unlocks: "verdict msg result r s = (rc, err, s') \<Longrightarrow> \<not> cs_locked s'"
  by (auto simp: verdict_def Let_def client_unlock_def split: if_splits)

section \<open>What a parallel read returns\<close>

lemma put_put_append: "put (put c k a) (k + length a) b = put c k (a @ b)"
  by (rule bytes_eqI) (auto simp: byte_at_put nth_append)

lemma put_Nil_inside: "k \<le> length c \<Longrightarrow> put c k [] = c"
  by (simp add: put_def zpad_def)

lemma read_chunk_write_cb_put:
  assumes "off + cap \<le> length dest" and "received \<le> cap"
  shows "read_chunk_write_cb ds off cap received dest = put dest (off + received) (take (cap - received) (concat ds))"
  using assms
proof (induction ds arbitrary: received dest)
  case Nil
  then show ?case by (simp add: put_Nil_inside)
next
  case (Cons d ds)
  define d' where "d' = (if cap < received + length d then take (cap - received) d else d)"
  have d': "d' = take (cap - received) d" by (simp add: d'_def)
  then have l: "received + length d' \<le> cap" using Cons.prems by simp
  have "read_chunk_write_cb (d # ds) off cap received dest = read_chunk_write_cb ds off cap (received + length d') (put dest (off + received) d')"
    by (simp add: d'_def Let_def)
  also have "\<dots> = put (put dest (off + received) d') (off + received + length d') (take (cap - (received + length d')) (concat ds))"
    using Cons.prems l by (subst Cons.IH) (simp_all add: add.assoc)
  also have "\<dots> = put dest (off + received) (d' @ take (cap - (received + length d')) (concat ds))" by (rule put_put_append)
  also have "d' @ take (cap - (received + length d')) (concat ds) = take (cap - received) (concat (d # ds))"
    by (simp add: d' min_def)
  finally show ?case .
qed

text \<open>A destination that has the bytes of every finished chunk.\<close>

definition chunk_slice :: "int \<Rightarrow> bytes \<Rightarrow> nat \<Rightarrow> bytes" where
  "chunk_slice t c i = bslice c (chunk_off t i) (chunk_len t i)"

definition chunks_done :: "int \<Rightarrow> bytes \<Rightarrow> round \<times> bytes \<Rightarrow> bool" where
  "chunks_done t content rb \<longleftrightarrow> length (snd rb) = nat t \<and> length (rd_done (fst rb)) = chunk_count t \<and>
     (\<forall>i < chunk_count t. rd_done (fst rb) ! i \<longrightarrow> chunk_slice t (snd rb) i = chunk_slice t content i)"

lemma chunk_inside:
  assumes "0 < t" and "i < chunk_count t"
  shows "chunk_off t i + chunk_len t i \<le> nat t"
  using chunk_len_min [OF assms] by linarith

lemma chunks_disjoint:
  assumes "0 < t" and "i < j" and "j < chunk_count t"
  shows "chunk_off t i + chunk_len t i \<le> chunk_off t j"
proof -
  have i: "i < chunk_count t" using assms by simp
  have "int (chunk_off t (Suc i)) \<le> int (chunk_off t j)"
    unfolding chunk_off_mult [OF assms(1)] using assms(2) chunk_size_large(2) [OF assms(1)] by (intro mult_right_mono) auto
  then show ?thesis using chunk_len_min [OF assms(1) i] chunk_off_Suc [OF assms(1), of i] by linarith
qed

lemma chunk_slice_put_other:
  assumes "0 < t" and "length dest = nat t" and "i < chunk_count t" and "j < chunk_count t" and "i \<noteq> j" and "length d \<le> chunk_len t i"
  shows "chunk_slice t (put dest (chunk_off t i) d) j = chunk_slice t dest j"
  unfolding chunk_slice_def
  using chunk_inside [OF assms(1,4)] chunks_disjoint [OF assms(1), of i j] chunks_disjoint [OF assms(1), of j i] assms(2-)
  by (intro bslice_put_disjoint) (auto simp: neq_iff)

lemma get_message_done:
  assumes "0 < t" and "chunks_done t content rb" and "i < chunk_count t" and "\<not> rd_done (fst rb) ! i" and "length content = nat t"
    and "cr_code reply = CURLE_OK \<Longrightarrow> is_2xx (cr_status reply) \<Longrightarrow> concat (cr_body reply) = chunk_slice t content i"
  shows "chunks_done t content (get_message t i reply rb)"
    and "rd_done (fst (get_message t i reply rb)) \<in> {rd_done (fst rb), (rd_done (fst rb))[i := True]}"
proof -
  obtain r dest where rb: "rb = (r, dest)" by (cases rb)
  define d where "d = take (chunk_len t i) (concat (cr_body reply))"
  have inv: "length dest = nat t" "length (rd_done r) = chunk_count t"
      "\<And>k. k < chunk_count t \<Longrightarrow> rd_done r ! k \<Longrightarrow> chunk_slice t dest k = chunk_slice t content k" "\<not> rd_done r ! i"
    using assms(2,4) by (auto simp: chunks_done_def rb)
  have cb: "read_chunk_write_cb (cr_body reply) (chunk_off t i) (chunk_len t i) 0 dest = put dest (chunk_off t i) d"
    using chunk_inside [OF assms(1,3)] inv(1) by (subst read_chunk_write_cb_put) (simp_all add: d_def)
  have len: "length (put dest (chunk_off t i) d) = nat t" using chunk_inside [OF assms(1,3)] inv(1) by (simp add: d_def)
  have other: "chunk_slice t (put dest (chunk_off t i) d) k = chunk_slice t dest k" if "k < chunk_count t" "k \<noteq> i" for k
    using that by (intro chunk_slice_put_other assms inv) (auto simp: d_def)
  define r' where "r' = fst (get_message t i reply rb)"
  have g: "get_message t i reply rb = (r', put dest (chunk_off t i) d)"
    using cb by (simp add: r'_def get_message_def rb Let_def chunk_off_def chunk_len_def)
  have r': "rd_done r' = (if cr_code reply = CURLE_OK \<and> is_2xx (cr_status reply) then (rd_done r)[i := True] else rd_done r)"
    by (simp add: r'_def get_message_def rb Let_def curl_failure_def)
  have same: "chunk_slice t (put dest (chunk_off t i) d) i = chunk_slice t content i" if "cr_code reply = CURLE_OK" "is_2xx (cr_status reply)"
  proof -
    have "d = chunk_slice t content i" using assms(6) [OF that] by (simp add: d_def chunk_slice_def bslice_def)
    then show ?thesis using bslice_put_same [of dest "chunk_off t i" d] chunk_inside [OF assms(1,3)] assms(5)
      by (simp add: chunk_slice_def min_absorb1)
  qed
  show "chunks_done t content (get_message t i reply rb)"
    unfolding g chunks_done_def fst_conv snd_conv
  proof (intro conjI allI impI)
    show "length (put dest (chunk_off t i) d) = nat t" by (rule len)
    show "length (rd_done r') = chunk_count t" using inv(2) by (simp add: r')
    fix k assume k: "k < chunk_count t" "rd_done r' ! k"
    show "chunk_slice t (put dest (chunk_off t i) d) k = chunk_slice t content k"
    proof (cases "k = i")
      case True
      then show ?thesis using k same inv(4) by (auto simp: r' split: if_splits)
    next
      case False
      then show ?thesis using k inv(3) [OF k(1)] other [OF k(1) False] by (auto simp: r' split: if_splits)
    qed
  qed
  show "rd_done (fst (get_message t i reply rb)) \<in> {rd_done (fst rb), (rd_done (fst rb))[i := True]}"
    unfolding g by (simp add: r' rb)
qed

lemma get_messages_done:
  assumes "0 < t" and "chunks_done t content rb" and "length content = nat t" and "distinct idxs" and "distinct (map fst ms)"
    and "\<And>j reply. (j, reply) \<in> set ms \<Longrightarrow> j < length idxs \<Longrightarrow>
       idxs ! j < chunk_count t \<and> \<not> rd_done (fst rb) ! (idxs ! j) \<and>
       (cr_code reply = CURLE_OK \<longrightarrow> is_2xx (cr_status reply) \<longrightarrow> concat (cr_body reply) = chunk_slice t content (idxs ! j))"
  shows "chunks_done t content (get_messages t idxs ms rb)"
  using assms(2,5,6)
proof (induction ms arbitrary: rb)
  case Nil
  then show ?case by simp
next
  case (Cons m ms)
  obtain j reply where m: "m = (j, reply)" by (cases m)
  show ?case
  proof (cases "length idxs \<le> j")
    case True
    then show ?thesis using Cons m by simp
  next
    case False
    note h = Cons.prems(3) [of j reply, unfolded m, simplified] and g = get_message_done [OF assms(1) Cons.prems(1) _ _ assms(3), of "idxs ! j" reply]
    have ok: "chunks_done t content (get_message t (idxs ! j) reply rb)" using g(1) h False by auto
    have d: "rd_done (fst (get_message t (idxs ! j) reply rb)) \<in> {rd_done (fst rb), (rd_done (fst rb))[idxs ! j := True]}"
      using g(2) h False by auto
    have "\<not> rd_done (fst (get_message t (idxs ! j) reply rb)) ! (idxs ! k)" if "(k, rep) \<in> set ms" "k < length idxs" for k rep
    proof -
      have "k \<noteq> j" using Cons.prems(2) that(1) by (force simp: m)
      then have "idxs ! k \<noteq> idxs ! j" using that(2) False assms(4) by (simp add: nth_eq_iff_index_eq)
      then show ?thesis using d Cons.prems(3) [of k rep] that by auto
    qed
    then have "chunks_done t content (get_messages t idxs ms (get_message t (idxs ! j) reply rb))"
      using Cons.prems by (intro Cons.IH ok) (auto simp: m)
    then show ?thesis using False by (simp add: m)
  qed
qed

text \<open>The header by which a request asks for a chunk, and a server that answers such a request with those bytes of the blob.
  libcurl reports each transfer at most once.\<close>

definition chunk_header :: "int \<Rightarrow> nat \<Rightarrow> string" where
  "chunk_header t i =
     snp 600 (''x-ms-range: '' @ snp 128 (''bytes='' @ dec_int (fst (chunk_bounds t i)) @ ''-'' @
       dec_int (fst (chunk_bounds t i) + snd (chunk_bounds t i) - 1)))"

definition serves_chunks :: "'w http_lib \<Rightarrow> int \<Rightarrow> bytes \<Rightarrow> bool" where
  "serves_chunks lib t content \<longleftrightarrow>
     (\<forall>rqs w t0 ts msgs w'. hl_multi lib rqs w = (t0, ts, msgs, w') \<longrightarrow> distinct (map fst msgs) \<and>
        (\<forall>(j, reply) \<in> set msgs. j < length rqs \<longrightarrow> cr_code reply = CURLE_OK \<longrightarrow> is_2xx (cr_status reply) \<longrightarrow>
           (\<forall>i < chunk_count t. chunk_header t i \<in> set (rq_headers (rqs ! j)) \<longrightarrow>
              concat (cr_body reply) = chunk_slice t content i)))"

lemma read_batch_init_easy_request:
  assumes "(case chunk_bounds t i of (offset, len) \<Rightarrow> read_batch_init_easy lib c url name offset len) s = (rc, rq, s')"
  shows "case rq of None \<Rightarrow> rc \<noteq> AZURE_OK | Some q \<Rightarrow> chunk_header t i \<in> set (rq_headers q)"
  using assms unfolding read_batch_init_easy_def chunk_header_def
  by (auto simp: Let_def split: prod.splits if_splits)

lemma chunk_of_offset:
  assumes "0 < t" and "k < nat t"
  shows "\<exists>i < chunk_count t. chunk_off t i \<le> k \<and> k < chunk_off t i + chunk_len t i"
proof -
  define i where "i = nat (int k div chunk_size t)"
  have c: "0 < chunk_size t" using chunk_size_large [OF assms(1)] by simp
  have i: "int i * chunk_size t \<le> int k" "int k < int i * chunk_size t + chunk_size t"
  proof -
    have eq: "int i = int k div chunk_size t" using c by (simp add: i_def pos_imp_zdiv_nonneg_iff)
    show "int i * chunk_size t \<le> int k" "int k < int i * chunk_size t + chunk_size t"
      using pos_mod_bound [OF c, of "int k"] pos_mod_sign [OF c, of "int k"] div_mult_mod_eq [of "int k" "chunk_size t"]
      unfolding eq by linarith+
  qed
  have "int i * chunk_size t < int (chunk_count t) * chunk_size t"
    using i(1) assms chunk_count_bounds(1) [OF assms(1)] by linarith
  then have n: "i < chunk_count t" using c by simp
  then show ?thesis using i assms(2) chunk_len_min [OF assms(1) n] chunk_off_mult [OF assms(1), of i] by (intro exI [of _ i]) auto
qed

lemma chunks_cover:
  assumes "0 < t" and "length a = nat t" and "length b = nat t" and "\<And>i. i < chunk_count t \<Longrightarrow> chunk_slice t a i = chunk_slice t b i"
  shows "a = b"
proof (rule bytes_eqI)
  show "length a = length b" using assms by simp
  fix k assume "k < length a"
  then obtain i where i: "i < chunk_count t" "chunk_off t i \<le> k" "k < chunk_off t i + chunk_len t i"
    using chunk_of_offset assms(1,2) by metis
  have "byte_at (chunk_slice t a i) (k - chunk_off t i) = byte_at (chunk_slice t b i) (k - chunk_off t i)" using assms(4) i by simp
  then show "byte_at a k = byte_at b k" using i by (simp add: chunk_slice_def byte_at_bslice less_diff_conv2)
qed

lemma round_served:
  assumes "serves_chunks lib t content" and "hl_multi lib rqs w = (t0, ts, msgs, w')" and "length rqs = length idxs"
    and "\<And>j. j < length idxs \<Longrightarrow> idxs ! j < chunk_count t \<and> chunk_header t (idxs ! j) \<in> set (rq_headers (rqs ! j))"
  shows "distinct (map fst msgs)"
    and "(j, reply) \<in> set msgs \<Longrightarrow> j < length idxs \<Longrightarrow> cr_code reply = CURLE_OK \<longrightarrow> is_2xx (cr_status reply) \<longrightarrow>
      concat (cr_body reply) = chunk_slice t content (idxs ! j)"
  using assms unfolding serves_chunks_def by fastforce+

lemma read_setup_headers:
  assumes "setup_requests (\<lambda>i. case chunk_bounds t i of (offset, len) \<Rightarrow> read_batch_init_easy lib c url name offset len) idxs s = (rc, rqs, s2)"
    and "rc = AZURE_OK"
  shows "length rqs = length idxs" "j < length idxs \<Longrightarrow> chunk_header t (idxs ! j) \<in> set (rq_headers (rqs ! j))"
proof -
  define mk where "mk = (\<lambda>i. case chunk_bounds t i of (offset, len) \<Rightarrow> read_batch_init_easy lib c url name offset len)"
  have n: "rc \<noteq> AZURE_OK" if "mk i s = (rc, None, s1)" for i s rc s1
    using read_batch_init_easy_request [OF that [unfolded mk_def]] by simp
  have st: "length rqs = length idxs \<and> (\<forall>j < length idxs. \<exists>s0 rc s1. mk (idxs ! j) s0 = (rc, Some (rqs ! j), s1))"
    using assms by (intro setup_requests_ok [of mk idxs s rqs s2] n) (simp_all add: mk_def)
  then show "length rqs = length idxs" by simp
  assume "j < length idxs"
  then obtain s0 rc s1 where "mk (idxs ! j) s0 = (rc, Some (rqs ! j), s1)" using st by blast
  from read_batch_init_easy_request [OF this [unfolded mk_def]] show "chunk_header t (idxs ! j) \<in> set (rq_headers (rqs ! j))" by simp
qed

lemma read_attempts_content:
  assumes "0 < t" and "length content = nat t" and "serves_chunks lib t content" and "chunks_done t content (r, dest)"
  shows "\<exists>rc dest' err s'. read_attempts lib c url name t attempt result r dest s = Some (rc, dest', err, s') \<and> \<not> cs_locked s' \<and>
    (rc = AZURE_OK \<longrightarrow> (\<exists>r'. chunks_done t content (r', dest') \<and> list_all id (rd_done r')))" (is "?P attempt result r dest s")
  using assms(4)
proof (induction "Suc BATCH_MAX_RETRIES - attempt" arbitrary: attempt result r dest s)
  case 0
  then show ?case using verdict_OK verdict_unlocks
    by (subst read_attempts.simps) (fastforce simp: Let_def split: prod.splits)
next
  case (Suc k)
  define idxs mk where "idxs = pending (rd_done r)"
    and "mk = (\<lambda>i. case chunk_bounds t i of (offset, len) \<Rightarrow> read_batch_init_easy lib c url name offset len)"
  have a: "\<not> BATCH_MAX_RETRIES < attempt" using Suc.hyps(2) by simp
  obtain ok s1 where al: "c_alloc lib s = (ok, s1)" by (cases "c_alloc lib s")
  obtain rc rqs s2 where se: "setup_requests mk idxs s1 = (rc, rqs, s2)" by (cases "setup_requests mk idxs s1")
  obtain t0 ts msgs w where mu: "hl_multi lib rqs (cs_world s2) = (t0, ts, msgs, w)" by (cases "hl_multi lib rqs (cs_world s2)")
  obtain r2 dest2 where ge: "get_messages t idxs msgs (r\<lparr>rd_fail := (AZURE_OK, snd (rd_fail r))\<rparr>, dest) = (r2, dest2)"
    by (cases "get_messages t idxs msgs (r\<lparr>rd_fail := (AZURE_OK, snd (rd_fail r))\<rparr>, dest)")
  note un = read_attempts.simps [of lib c url name t attempt result r dest s]
  show ?case
  proof (cases "idxs = [] \<or> \<not> ok \<or> rc \<noteq> AZURE_OK")
    case True
    then show ?thesis using verdict_OK [of _ result r s] verdict_unlocks [of _ result r s] Suc.prems al se
      unfolding un idxs_def [symmetric] mk_def [symmetric] Let_def
      by (cases "verdict ''Parallel read: chunks failed after 3 retries'' result r s") (auto simp: client_unlock_def a)
  next
    case False
    have idx: "idxs ! j < chunk_count t \<and> \<not> rd_done r ! (idxs ! j)" if "j < length idxs" for j
      using nth_mem [OF that] Suc.prems pending_spec(1) [of "rd_done r"] by (auto simp: idxs_def chunks_done_def)
    note req = read_setup_headers [OF se [unfolded mk_def]]
    have rd: "idxs ! j < chunk_count t \<and> chunk_header t (idxs ! j) \<in> set (rq_headers (rqs ! j))" if "j < length idxs" for j
      using idx req(2) that False by blast
    note sv = round_served [OF assms(3) mu _ rd]
    have cd: "chunks_done t content (r2, dest2)"
      unfolding ge [symmetric] using Suc.prems idx sv req(1) False
      by (intro get_messages_done assms(1,2)) (auto simp: idxs_def pending_spec(2) chunks_done_def)
    define s3 where "s3 = s2\<lparr>cs_world := w\<rparr>"
    show ?thesis
    proof (cases "list_all id (rd_done r2) \<or> \<not> azure_is_retryable (fst (rd_fail r2))")
      case True
      obtain vrc verr vs where v: "verdict ''Parallel read: chunks failed after 3 retries'' (fst (rd_fail r2)) r2 s3 = (vrc, verr, vs)"
        by (cases "verdict ''Parallel read: chunks failed after 3 retries'' (fst (rd_fail r2)) r2 s3")
      have "read_attempts lib c url name t attempt result r dest s = Some (vrc, dest2, verr, vs)"
        unfolding un idxs_def [symmetric] mk_def [symmetric] Let_def using False a True al se mu ge v by (simp add: s3_def)
      then show ?thesis using v cd verdict_OK verdict_unlocks by blast
    next
      case again: False
      have "read_attempts lib c url name t attempt result r dest s =
          read_attempts lib c url name t (Suc attempt) (fst (rd_fail r2)) r2 dest2 s3"
        unfolding un idxs_def [symmetric] mk_def [symmetric] Let_def using False a again al se mu ge by (simp add: s3_def)
      then show ?thesis using Suc.hyps(1) [of "Suc attempt" r2 dest2] Suc.hyps(2) cd by simp
    qed
  qed
qed


section \<open>Rounds in which every transfer succeeds\<close>

text \<open>No allocation fails.\<close>

definition alloc_ok :: "'w http_lib \<Rightarrow> bool" where
  "alloc_ok lib \<longleftrightarrow> (\<forall>w. fst (hl_alloc lib w))"

lemma c_alloc_ok: "alloc_ok lib \<Longrightarrow> c_alloc lib s = (ok, s') \<Longrightarrow> ok"
  by (cases "hl_alloc lib (cs_world s)") (use alloc_ok_def [of lib] in \<open>auto simp: c_alloc_def dest: spec [of _ "cs_world s"]\<close>)

lemma c_alloc_True: "alloc_ok lib \<Longrightarrow> \<exists>s'. c_alloc lib s = (True, s')"
  using c_alloc_ok [of lib s] by (metis surj_pair)

lemma ensure_multi_handle_ok: "alloc_ok lib \<Longrightarrow> \<exists>s'. ensure_multi_handle lib s = (True, s')"
  using c_alloc_True [of lib s] by (auto simp: ensure_multi_handle_def)

lemma slist_append_ok: "alloc_ok lib \<Longrightarrow> slist_append lib hs s = (ok, s') \<Longrightarrow> ok"
  by (induction hs arbitrary: s) (auto dest: c_alloc_ok split: prod.splits if_splits)

lemma setup_requests_succeeds:
  assumes "\<And>i s. \<exists>rq s'. mk i s = (AZURE_OK, Some rq, s')"
  shows "\<exists>rqs s'. setup_requests mk is s = (AZURE_OK, rqs, s')"
proof (induction "is" arbitrary: s)
  case (Cons i "is")
  then show ?case using assms [of i s] Cons.IH by (auto split: prod.splits) (metis prod.inject)
qed simp

lemma read_batch_init_easy_ok:
  assumes "alloc_ok lib" and "ac_use_sas c"
  shows "\<exists>rq s'. read_batch_init_easy lib c url name offset len s = (AZURE_OK, Some rq, s')"
  using assms unfolding read_batch_init_easy_def Let_def
  by (auto simp del: slist_append.simps dest: c_alloc_ok slist_append_ok split: prod.splits)

lemma get_message_accepts:
  assumes "cr_code reply = CURLE_OK" and "is_2xx (cr_status reply)"
  shows "get_message t i reply (r, dest) =
    (r\<lparr>rd_done := (rd_done r)[i := True]\<rparr>, read_chunk_write_cb (cr_body reply) (chunk_off t i) (chunk_len t i) 0 dest)"
  using assms by (simp add: get_message_def Let_def chunk_off_def chunk_len_def)

lemma get_messages_accepts:
  assumes "\<forall>(j, reply) \<in> set ms. cr_code reply = CURLE_OK \<and> is_2xx (cr_status reply)"
    and "\<forall>i < length (rd_done r). rd_done r ! i \<or> (\<exists>m \<in> set ms. fst m < length idxs \<and> idxs ! fst m = i)"
  shows "list_all id (rd_done (fst (get_messages t idxs ms (r, dest))))"
  using assms
proof (induction ms arbitrary: r dest)
  case Nil
  then show ?case by (auto simp: list_all_length)
next
  case (Cons m ms)
  obtain j reply where m: "m = (j, reply)" by (cases m)
  have ok: "cr_code reply = CURLE_OK" "is_2xx (cr_status reply)" using Cons.prems(1) by (auto simp: m)
  show ?case
  proof (cases "length idxs \<le> j")
    case True
    then have "\<forall>i < length (rd_done r). rd_done r ! i \<or> (\<exists>m \<in> set ms. fst m < length idxs \<and> idxs ! fst m = i)"
      using Cons.prems(2) by (auto simp: m)
    then show ?thesis using True Cons.IH [of r dest] Cons.prems(1) by (simp add: m)
  next
    case False
    have "\<forall>i < length ((rd_done r)[idxs ! j := True]). (rd_done r)[idxs ! j := True] ! i \<or>
        (\<exists>m \<in> set ms. fst m < length idxs \<and> idxs ! fst m = i)"
    proof (intro allI impI)
      fix i assume "i < length ((rd_done r)[idxs ! j := True])"
      then show "(rd_done r)[idxs ! j := True] ! i \<or> (\<exists>m \<in> set ms. fst m < length idxs \<and> idxs ! fst m = i)"
        using Cons.prems(2) by (cases "idxs ! j = i") (auto simp: m)
    qed
    then show ?thesis using False Cons.IH [of "r\<lparr>rd_done := (rd_done r)[idxs ! j := True]\<rparr>"] Cons.prems(1) ok
      by (simp add: m get_message_accepts)
  qed
qed

text \<open>A server that accepts every request of a round.\<close>

definition accepts_all :: "'w http_lib \<Rightarrow> bool" where
  "accepts_all lib \<longleftrightarrow> (\<forall>rqs w t0 ts msgs w'. hl_multi lib rqs w = (t0, ts, msgs, w') \<longrightarrow>
     (\<forall>j < length rqs. j \<in> fst ` set msgs) \<and> (\<forall>(j, reply) \<in> set msgs. cr_code reply = CURLE_OK \<and> is_2xx (cr_status reply)))"

lemma read_multi_accepted:
  assumes "PARALLEL_READ_MIN_SIZE \<le> t" and "\<not> cs_locked s" and "alloc_ok lib" and "ac_use_sas c" and "accepts_all lib"
  shows "\<exists>rqs w msgs err s'. length rqs = chunk_count t \<and> fst (snd (snd (hl_multi lib rqs w))) = msgs \<and>
    az_page_blob_read_multi lib c name t dest s =
      Some (AZURE_OK, snd (get_messages t [0..<chunk_count t] msgs (round_start (chunk_count t), dest)), err, s') \<and> \<not> cs_locked s'"
proof -
  define r idxs mk where "r = round_start (chunk_count t)" and "idxs = [0..<chunk_count t]"
    and "mk = (\<lambda>i. case chunk_bounds t i of (offset, len) \<Rightarrow> read_batch_init_easy lib c (read_url c name) name offset len)"
  have t: "0 < t" using assms(1) by simp
  have pe: "pending (rd_done r) = idxs" by (simp add: r_def idxs_def round_start_def pending_def)
  have ne: "idxs \<noteq> []" using chunk_count_bounds(3) [OF t] by (simp add: idxs_def)
  have same: "r\<lparr>rd_fail := (AZURE_OK, snd (rd_fail r))\<rparr> = r" by (simp add: r_def round_start_def)
  obtain s1 where a1: "c_alloc lib (s\<lparr>cs_locked := True\<rparr>) = (True, s1)"
    using c_alloc_True [OF assms(3)] by blast
  obtain s2 where e: "ensure_multi_handle lib s1 = (True, s2)" using ensure_multi_handle_ok [OF assms(3)] by blast
  obtain s3 where a3: "c_alloc lib s2 = (True, s3)" using c_alloc_True [OF assms(3)] by blast
  have mk: "\<exists>rq s'. mk i s = (AZURE_OK, Some rq, s')" for i s
    using read_batch_init_easy_ok [OF assms(3,4)] by (simp add: mk_def split: prod.splits)
  obtain rqs s4 where se: "setup_requests mk idxs s3 = (AZURE_OK, rqs, s4)" using setup_requests_succeeds [of mk idxs s3] mk by blast
  have lr: "length rqs = chunk_count t"
    using setup_requests_ok [OF se] mk by (simp add: idxs_def) (metis option.discI prod.inject)
  obtain t0 ts msgs w where mu: "hl_multi lib rqs (cs_world s4) = (t0, ts, msgs, w)" by (cases "hl_multi lib rqs (cs_world s4)")
  obtain r2 dest2 where ge: "get_messages t idxs msgs (r, dest) = (r2, dest2)" by (cases "get_messages t idxs msgs (r, dest)")
  have "list_all id (rd_done (fst (get_messages t idxs msgs (r, dest))))"
    using assms(5) mu lr unfolding accepts_all_def
    by (intro get_messages_accepts) (fastforce simp: r_def round_start_def idxs_def)+
  then have all: "list_all id (rd_done r2)" by (simp add: ge)
  have "read_attempts lib c (read_url c name) name t 0 AZURE_OK r dest s2 =
      Some (AZURE_OK, dest2, azure_error_init\<lparr>err_etag := rd_etag r2\<rparr>, client_unlock (s4\<lparr>cs_world := w\<rparr>))"
    unfolding read_attempts.simps [of lib c "read_url c name" name t 0] pe Let_def mk_def [symmetric] same
    using ne a3 se mu ge all by (simp add: verdict_def)
  then have "az_page_blob_read_multi lib c name t dest s =
      Some (AZURE_OK, dest2, azure_error_init\<lparr>err_etag := rd_etag r2\<rparr>, client_unlock (s4\<lparr>cs_world := w\<rparr>))"
    using assms(1,2) a1 e by (simp add: az_page_blob_read_multi_def client_lock_def r_def chunk_count_def)
  then show ?thesis using lr mu ge by (intro exI [of _ rqs] exI [of _ "cs_world s4"]) (simp add: client_unlock_def idxs_def r_def)
qed

text \<open>C38 A parallel read takes a success status for a complete transfer: if the server answers every request with a success
  and an empty body, the read reports success and leaves the destination as it was.\<close>

theorem read_multi_accepts_short_replies:
  assumes "PARALLEL_READ_MIN_SIZE \<le> t" and "\<not> cs_locked s" and "alloc_ok lib" and "ac_use_sas c" and "accepts_all lib"
    and "\<And>rqs w. \<forall>(j, reply) \<in> set (fst (snd (snd (hl_multi lib rqs w)))). cr_body reply = []"
  shows "\<exists>err s'. az_page_blob_read_multi lib c name t dest s = Some (AZURE_OK, dest, err, s')"
proof -
  have "snd (get_messages t idxs ms (r, dest)) = dest" if "\<forall>(j, reply) \<in> set ms. cr_body reply = []" for idxs ms r
    using that
  proof (induction ms arbitrary: r)
    case (Cons m ms)
    obtain j reply where m: "m = (j, reply)" by (cases m)
    have "snd (get_message t i reply (r, dest)) = dest" for i using Cons.prems by (auto simp: m get_message_def Let_def)
    then have g: "get_message t i reply (r, dest) = (fst (get_message t i reply (r, dest)), dest)" for i
      by (cases "get_message t i reply (r, dest)") (metis fst_conv snd_conv)
    show ?case using Cons.IH Cons.prems by (simp add: m) (metis g)
  qed simp
  then show ?thesis using read_multi_accepted [OF assms(1-5), of name dest] assms(6) by metis
qed

text \<open>A server that answers every request with status 200 and the given body, keeps a log of the requests, and takes
  the given seconds in its event loop.\<close>

definition ok_reply :: "bytes list \<Rightarrow> curl_reply" where
  "ok_reply body = \<lparr>cr_code = CURLE_OK, cr_status = 200, cr_headers = [], cr_body = body\<rparr>"

definition sample_server :: "int list \<Rightarrow> bytes list \<Rightarrow> http_request list http_lib" where
  "sample_server ts body =
     \<lparr>hl_crypto = \<lparr>cr_b64 = Map.empty, cr_unb64 = Map.empty, cr_hmac = (\<lambda>_. Map.empty)\<rparr>, hl_date = (\<lambda>_. []),
      hl_alloc = (\<lambda>w. (True, w)), hl_random = Map.empty, hl_strerror = (\<lambda>_. []),
      hl_perform = (\<lambda>rq w. (ok_reply body, w @ [rq])),
      hl_multi = (\<lambda>rqs w. (0, ts, map (\<lambda>j. (j, ok_reply body)) [0..<length rqs], w @ rqs))\<rparr>"

definition sas_client :: azure_client where
  "sas_client = \<lparr>ac_account = ''acct'', ac_container = ''cont'', ac_endpoint = [], ac_key_b64 = [], ac_key_raw = [],
     ac_sas_token = ''sig=x'', ac_use_sas = True\<rparr>"

lemma sample_server_accepts [simp]: "alloc_ok (sample_server ts body)" "accepts_all (sample_server ts body)" "ac_use_sas sas_client"
  by (auto simp: sample_server_def alloc_ok_def accepts_all_def ok_reply_def is_2xx_def sas_client_def image_image)

abbreviation idle :: "http_request list client_state" where
  "idle \<equiv> \<lparr>cs_locked = False, cs_multi = False, cs_world = []\<rparr>"

theorem read_multi_accepts_short_replies_witness:
  "\<exists>err s'. az_page_blob_read_multi (sample_server [] []) sas_client ''a.db'' 1048576 (replicate 1048576 7) idle =
     Some (AZURE_OK, replicate 1048576 7, err, s')"
proof -
  have "\<forall>(j, reply) \<in> set (fst (snd (snd (hl_multi (sample_server [] []) rqs w)))). cr_body reply = []" for rqs w
    by (auto simp: sample_server_def ok_reply_def)
  from read_multi_accepts_short_replies [OF _ _ _ _ _ this, of 1048576 idle sas_client] show ?thesis by simp
qed


section \<open>What the server has acknowledged only grows\<close>

definition acks :: "'w http_lib \<Rightarrow> ('w \<Rightarrow> http_request set) \<Rightarrow> bool" where
  "acks lib acked \<longleftrightarrow> (\<forall>w. acked w \<subseteq> acked (snd (hl_alloc lib w))) \<and>
     (\<forall>rqs w t0 ts msgs w'. hl_multi lib rqs w = (t0, ts, msgs, w') \<longrightarrow> acked w \<subseteq> acked w' \<and>
        (\<forall>(j, reply) \<in> set msgs. j < length rqs \<longrightarrow> cr_code reply = CURLE_OK \<longrightarrow> is_2xx (cr_status reply) \<longrightarrow> rqs ! j \<in> acked w'))"

lemma acks_UNIV: "acks lib (\<lambda>_. UNIV)"
  by (auto simp: acks_def)

definition grows :: "('w \<Rightarrow> http_request set) \<Rightarrow> 'w client_state \<Rightarrow> 'w client_state \<Rightarrow> bool" where
  "grows acked s s' \<longleftrightarrow> acked (cs_world s) \<subseteq> acked (cs_world s') \<and> cs_locked s' = cs_locked s"

lemma grows_refl [simp]: "grows acked s s"
  by (simp add: grows_def)

lemma grows_trans: "grows acked s s' \<Longrightarrow> grows acked s' s'' \<Longrightarrow> grows acked s s''"
  by (auto simp: grows_def)

lemma c_alloc_grows: "acks lib acked \<Longrightarrow> c_alloc lib s = (ok, s') \<Longrightarrow> grows acked s s'"
proof -
  assume "acks lib acked"
  then have "acked (cs_world s) \<subseteq> acked (snd (hl_alloc lib (cs_world s)))" by (simp add: acks_def)
  then show "c_alloc lib s = (ok, s') \<Longrightarrow> grows acked s s'"
    by (cases "hl_alloc lib (cs_world s)") (auto simp: grows_def c_alloc_def)
qed

lemma slist_append_grows: "acks lib acked \<Longrightarrow> slist_append lib hs s = (ok, s') \<Longrightarrow> grows acked s s'"
proof (induction hs arbitrary: s)
  case (Cons h hs)
  then show ?case by (auto split: prod.splits if_splits intro: c_alloc_grows grows_trans)
qed simp

lemma setup_requests_grows:
  assumes "\<And>i s rc rq s'. mk i s = (rc, rq, s') \<Longrightarrow> grows acked s s'"
  shows "setup_requests mk is s = (rc, rqs, s') \<Longrightarrow> grows acked s s'"
proof (induction "is" arbitrary: s rqs)
  case (Cons i "is")
  then show ?case by (auto split: prod.splits option.splits intro: assms grows_trans)
qed simp

lemma receive_body_total:
  assumes "buffer_ok b"
  shows "\<exists>took b' s'. receive_body lib ds b s = Some (took, b', s') \<and> buffer_ok b' \<and> cs_locked s' = cs_locked s \<and>
    (acks lib acked \<longrightarrow> grows acked s s')"
  using assms
proof (induction ds arbitrary: b s)
  case (Cons d ds)
  obtain ok s1 where a: "c_alloc lib s = (ok, s1)" by (cases "c_alloc lib s")
  obtain took b1 where c: "curl_write_cb d ok b = Some (took, b1)" "buffer_ok b1" using curl_write_cb_total [OF Cons.prems] by blast
  obtain t2 b2 s2 where r: "receive_body lib ds b1 s1 = Some (t2, b2, s2)" "buffer_ok b2" "cs_locked s2 = cs_locked s1"
      "acks lib acked \<longrightarrow> grows acked s1 s2"
    using Cons.IH [OF c(2)] by blast
  show ?case using a c r c_alloc_locked [OF a] c_alloc_grows [OF _ a, of acked] grows_trans [of acked s s1 s2] by (cases took) auto
qed auto

section \<open>Batch writes\<close>

text \<open>The request that stores a range.\<close>

definition stores_range :: "azure_client \<Rightarrow> string \<Rightarrow> azure_page_range \<Rightarrow> http_request \<Rightarrow> bool" where
  "stores_range c name r rq \<longleftrightarrow> rq_method rq = ''PUT'' \<and> rq_url rq = batch_url c name \<and>
     rq_body rq = (case pr_data r of None \<Rightarrow> [] | Some d \<Rightarrow> d) \<and> ''x-ms-page-write: update'' \<in> set (rq_headers rq) \<and>
     snp 600 (''x-ms-range: '' @ snp 128 (''bytes='' @ dec_int (pr_offset r) @ ''-'' @ dec_int (pr_offset r + pr_len r - 1)))
       \<in> set (rq_headers rq)"

lemma batch_headers_mem:
  "''x-ms-page-write: update'' \<in> set (batch_headers d rv l m n a)" "snp 600 (''x-ms-range: '' @ rv) \<in> set (batch_headers d rv l m n a)"
  by (simp_all add: batch_headers_def)

lemma batch_init_easy_request:
  assumes "batch_init_easy lib c (batch_url c name) name r lease_id if_match s = (rc, rq, s')"
  shows "case rq of None \<Rightarrow> rc \<noteq> AZURE_OK | Some q \<Rightarrow> stores_range c name r q"
  using assms unfolding batch_init_easy_def Let_def
  by (auto simp: stores_range_def batch_headers_mem simp del: slist_append.simps append_Cons append_Nil split: prod.splits if_splits)

lemma batch_init_easy_grows:
  assumes "acks lib acked" and "batch_init_easy lib c url name r lease_id if_match s = (rc, rq, s')"
  shows "grows acked s s'"
proof -
  obtain ok s1 where a: "c_alloc lib s = (ok, s1)" by (cases "c_alloc lib s")
  then have "s' = s1 \<or> (\<exists>hs ok. slist_append lib hs s1 = (ok, s'))"
    using assms(2) unfolding batch_init_easy_def Let_def
    by (auto simp del: slist_append.simps split: prod.splits if_splits)
  then show ?thesis using c_alloc_grows [OF assms(1) a] slist_append_grows [OF assms(1)] grows_trans by blast
qed

lemma batch_init_easy_ok:
  assumes "alloc_ok lib" and "ac_use_sas c"
  shows "\<exists>rq s'. batch_init_easy lib c url name r lease_id if_match s = (AZURE_OK, Some rq, s')"
  using assms unfolding batch_init_easy_def Let_def
  by (auto simp del: slist_append.simps dest: c_alloc_ok slist_append_ok split: prod.splits)

text \<open>With the mutex held, the event loop either needs no renewal or never ends.\<close>

lemma http_full_locked: "cs_locked s \<Longrightarrow> http_full lib c meth name query extra content_type body if_match s = None"
  by (simp add: http_full_def execute_with_retry_def retry_loop.simps [of _ _ 0] execute_single_def)

lemma locked_call_hangs: "cs_locked s \<Longrightarrow> http_run lib c meth name query extra content_type body if_match s = None"
  by (simp add: http_run_def http_full_locked)

lemma renew_loop_locked:
  assumes "cs_locked s"
  shows "renew_loop lib c name lid t0 ts s = (if lid \<noteq> [] \<and> (\<exists>t \<in> set ts. BATCH_LEASE_RENEWAL_SEC \<le> t - t0) then None else Some (False, s))"
  using assms by (induction ts) (auto simp: az_lease_renew_def locked_call_hangs)

definition ranges_acked ::
  "('w \<Rightarrow> http_request set) \<Rightarrow> azure_client \<Rightarrow> string \<Rightarrow> azure_page_range list \<Rightarrow> bool list \<Rightarrow> 'w client_state \<Rightarrow> bool" where
  "ranges_acked acked c name ranges fin s \<longleftrightarrow> length fin = length ranges \<and>
     (\<forall>i < length ranges. fin ! i \<longrightarrow> (\<exists>rq \<in> acked (cs_world s). stores_range c name (ranges ! i) rq))"

lemma ranges_acked_grows: "ranges_acked acked c name ranges fin s \<Longrightarrow> grows acked s s' \<Longrightarrow> ranges_acked acked c name ranges fin s'"
  by (auto simp: ranges_acked_def grows_def)

lemma put_message_done:
  assumes "receive_body lib (cr_body reply) azure_buffer_init s = Some (took, b, s1)"
  shows "\<exists>r1. put_message lib i reply r s = Some (r1, s1) \<and>
    rd_done r1 = (if took \<and> cr_code reply = CURLE_OK \<and> is_2xx (cr_status reply) then (rd_done r)[i := True] else rd_done r)"
proof -
  consider "\<not> took" | "took" "cr_code reply \<noteq> CURLE_OK" | "took" "cr_code reply = CURLE_OK" "is_2xx (cr_status reply)"
    | "took" "cr_code reply = CURLE_OK" "\<not> is_2xx (cr_status reply)" by blast
  then show ?thesis by cases (simp_all add: put_message_def Let_def assms curl_failure_def)
qed

lemma put_messages_acked:
  assumes "acks lib acked" and "ranges_acked acked c name ranges (rd_done r) s"
    and "\<And>j reply. (j, reply) \<in> set ms \<Longrightarrow> j < length idxs \<Longrightarrow> cr_code reply = CURLE_OK \<Longrightarrow> is_2xx (cr_status reply) \<Longrightarrow>
      idxs ! j < length ranges \<and> (\<exists>rq \<in> acked (cs_world s). stores_range c name (ranges ! (idxs ! j)) rq)"
  shows "\<exists>r' s'. put_messages lib idxs ms r s = Some (r', s') \<and> grows acked s s' \<and> ranges_acked acked c name ranges (rd_done r') s'"
  using assms(2,3)
proof (induction ms arbitrary: r s)
  case (Cons m ms)
  obtain j reply where m: "m = (j, reply)" by (cases m)
  show ?case
  proof (cases "length idxs \<le> j")
    case True
    then show ?thesis using Cons m by auto
  next
    case False
    obtain took b s1 where rb: "receive_body lib (cr_body reply) azure_buffer_init s = Some (took, b, s1)" "grows acked s s1"
      using receive_body_total [of azure_buffer_init lib "cr_body reply" s acked] assms(1) by auto
    obtain r1 where pm: "put_message lib (idxs ! j) reply r s = Some (r1, s1)"
        "rd_done r1 = (if took \<and> cr_code reply = CURLE_OK \<and> is_2xx (cr_status reply) then (rd_done r)[idxs ! j := True] else rd_done r)"
      using put_message_done [OF rb(1)] by blast
    have old: "ranges_acked acked c name ranges (rd_done r) s1" using ranges_acked_grows Cons.prems(1) rb(2) by blast
    have r1: "ranges_acked acked c name ranges (rd_done r1) s1"
    proof (cases "took \<and> cr_code reply = CURLE_OK \<and> is_2xx (cr_status reply)")
      case True
      then obtain rq where "rq \<in> acked (cs_world s)" "stores_range c name (ranges ! (idxs ! j)) rq"
        using Cons.prems(2) [of j reply] False by (auto simp: m)
      moreover have "rq \<in> acked (cs_world s1)" using calculation(1) rb(2) by (auto simp: grows_def)
      ultimately have "\<exists>rq \<in> acked (cs_world s1). stores_range c name (ranges ! i) rq"
        if "i < length ranges" "rd_done r1 ! i" for i
        using old pm(2) True that by (cases "i = idxs ! j") (auto simp: ranges_acked_def)
      then show ?thesis using old pm(2) True by (auto simp: ranges_acked_def)
    next
      case False
      then show ?thesis using old pm(2) by auto
    qed
    have "idxs ! k < length ranges \<and> (\<exists>rq \<in> acked (cs_world s1). stores_range c name (ranges ! (idxs ! k)) rq)"
      if "(k, rep) \<in> set ms" "k < length idxs" "cr_code rep = CURLE_OK" "is_2xx (cr_status rep)" for k rep
      using Cons.prems(2) [of k rep] that rb(2) by (auto simp: grows_def)
    then show ?thesis using Cons.IH [OF r1] pm(1) False grows_trans [OF rb(2)] by (fastforce simp: m)
  qed
qed simp

text \<open>No event loop lasts until a renewal is due.\<close>

definition quick_rounds :: "'w http_lib \<Rightarrow> bool" where
  "quick_rounds lib \<longleftrightarrow> (\<forall>rqs w t0 ts msgs w'. hl_multi lib rqs w = (t0, ts, msgs, w') \<longrightarrow>
     (\<forall>t \<in> set ts. t - t0 < BATCH_LEASE_RENEWAL_SEC))"

text \<open>What a batch promises of its outcome.\<close>

definition batch_outcome ::
  "('w \<Rightarrow> http_request set) \<Rightarrow> azure_client \<Rightarrow> string \<Rightarrow> azure_page_range list \<Rightarrow> (azure_err \<times> azure_error \<times> 'w client_state) option \<Rightarrow> bool"
where
  "batch_outcome acked c name ranges res \<longleftrightarrow> (\<exists>rc err s'. res = Some (rc, err, s') \<and> (rc \<noteq> AZURE_ERR_NOMEM \<longrightarrow> \<not> cs_locked s') \<and>
     (rc = AZURE_OK \<longrightarrow> (\<forall>r \<in> set ranges. \<exists>rq \<in> acked (cs_world s'). stores_range c name r rq)))"

lemma batch_outcome_verdict:
  assumes "ranges_acked acked c name ranges (rd_done r) s"
  shows "batch_outcome acked c name ranges (Some (verdict msg result r s))"
proof -
  obtain rc err s' where v: "verdict msg result r s = (rc, err, s')" by (cases "verdict msg result r s")
  have "cs_world s' = cs_world s" using v by (auto simp: verdict_def Let_def client_unlock_def split: if_splits)
  then show ?thesis using assms v verdict_OK [of msg result r s err s'] verdict_unlocks [OF v]
    by (auto simp: batch_outcome_def ranges_acked_def list_all_length in_set_conv_nth)
qed

lemma round_acked:
  assumes "acks lib acked" and "hl_multi lib rqs (cs_world s) = (t0, ts, msgs, w)" and "ranges_acked acked c name ranges (rd_done r) s"
    and "length rqs = length idxs"
    and "\<And>j. j < length idxs \<Longrightarrow> idxs ! j < length ranges \<and> stores_range c name (ranges ! (idxs ! j)) (rqs ! j)"
  shows "\<exists>r' s'. put_messages lib idxs msgs r (s\<lparr>cs_world := w\<rparr>) = Some (r', s') \<and> cs_locked s' = cs_locked s \<and>
    ranges_acked acked c name ranges (rd_done r') s'"
proof -
  have m: "acked (cs_world s) \<subseteq> acked w"
      "\<And>j reply. (j, reply) \<in> set msgs \<Longrightarrow> j < length rqs \<Longrightarrow> cr_code reply = CURLE_OK \<Longrightarrow> is_2xx (cr_status reply) \<Longrightarrow> rqs ! j \<in> acked w"
    using assms(1,2) unfolding acks_def by blast+
  then have "ranges_acked acked c name ranges (rd_done r) (s\<lparr>cs_world := w\<rparr>)"
    using assms(3) by (intro ranges_acked_grows [OF assms(3)]) (simp add: grows_def)
  from put_messages_acked [OF assms(1) this, of msgs idxs] show ?thesis
    using m(2) assms(4,5) by (fastforce simp: grows_def)
qed

lemma batch_setup_ranges:
  assumes "setup_requests (\<lambda>i. batch_init_easy lib c (batch_url c name) name (ranges ! i) lease_id if_match) idxs s = (rc, rqs, s2)"
    and "rc = AZURE_OK"
  shows "length rqs = length idxs" "j < length idxs \<Longrightarrow> stores_range c name (ranges ! (idxs ! j)) (rqs ! j)"
proof -
  define mk where "mk = (\<lambda>i. batch_init_easy lib c (batch_url c name) name (ranges ! i) lease_id if_match)"
  have n: "rc \<noteq> AZURE_OK" if "mk i s = (rc, None, s1)" for i s rc s1
    using batch_init_easy_request [OF that [unfolded mk_def]] by simp
  have st: "length rqs = length idxs \<and> (\<forall>j < length idxs. \<exists>s0 rc s1. mk (idxs ! j) s0 = (rc, Some (rqs ! j), s1))"
    using assms by (intro setup_requests_ok [of mk idxs s rqs s2] n) (simp_all add: mk_def)
  then show "length rqs = length idxs" by simp
  assume "j < length idxs"
  then show "stores_range c name (ranges ! (idxs ! j)) (rqs ! j)"
    using st batch_init_easy_request [of lib c name "ranges ! (idxs ! j)"] unfolding mk_def by fastforce
qed

lemma batch_attempts_outcome:
  assumes "acks lib acked" and "quick_rounds lib" and "cs_locked s" and "ranges_acked acked c name ranges (rd_done r) s"
  shows "batch_outcome acked c name ranges (batch_attempts lib c (batch_url c name) name ranges lease_id if_match attempt result r s)"
  using assms(3,4)
proof (induction "Suc BATCH_MAX_RETRIES - attempt" arbitrary: attempt result r s)
  case 0
  then have "BATCH_MAX_RETRIES < attempt" by simp
  then show ?case using batch_outcome_verdict [OF 0(3)] unfolding batch_attempts.simps [of _ _ _ _ _ _ _ attempt] Let_def by simp
next
  case (Suc k)
  define idxs mk where "idxs = pending (rd_done r)"
    and "mk = (\<lambda>i. batch_init_easy lib c (batch_url c name) name (ranges ! i) lease_id if_match)"
  have a: "\<not> BATCH_MAX_RETRIES < attempt" using Suc.hyps(2) by simp
  note un = batch_attempts.simps [of lib c "batch_url c name" name ranges lease_id if_match attempt result r s]
  obtain ok s1 where al: "c_alloc lib s = (ok, s1)" by (cases "c_alloc lib s")
  obtain rc rqs s2 where se: "setup_requests mk idxs s1 = (rc, rqs, s2)" by (cases "setup_requests mk idxs s1")
  obtain t0 ts msgs w where mu: "hl_multi lib rqs (cs_world s2) = (t0, ts, msgs, w)" by (cases "hl_multi lib rqs (cs_world s2)")
  have g: "grows acked s s2"
    using c_alloc_grows [OF assms(1) al] setup_requests_grows [OF _ se, of acked] batch_init_easy_grows [OF assms(1)] grows_trans
    unfolding mk_def by blast
  consider "idxs = []" | "idxs \<noteq> []" "\<not> ok" | "idxs \<noteq> []" "ok" "rc \<noteq> AZURE_OK" | "idxs \<noteq> []" "ok" "rc = AZURE_OK" by blast
  then show ?case
  proof cases
    case 1
    then show ?thesis using batch_outcome_verdict [OF Suc.prems(2)] unfolding un idxs_def [symmetric] Let_def by simp
  next
    case 2
    then show ?thesis using a al unfolding un idxs_def [symmetric] Let_def by (simp add: batch_outcome_def)
  next
    case 3
    then show ?thesis using a al se unfolding un idxs_def [symmetric] mk_def [symmetric] Let_def
      by (simp add: batch_outcome_def client_unlock_def)
  next
    case 4
    have idx: "idxs ! j < length ranges" if "j < length idxs" for j
      using nth_mem [OF that] Suc.prems(2) pending_spec(1) [of "rd_done r"] by (auto simp: idxs_def ranges_acked_def)
    note st = batch_setup_ranges [OF se [unfolded mk_def] 4(3)]
    then have sr: "idxs ! j < length ranges \<and> stores_range c name (ranges ! (idxs ! j)) (rqs ! j)" if "j < length idxs" for j
      using idx that by blast
    have l2: "cs_locked (s2\<lparr>cs_world := w\<rparr>)" using g Suc.prems(1) by (simp add: grows_def)
    have rl: "renew_loop lib c name (opt_str lease_id) t0 ts (s2\<lparr>cs_world := w\<rparr>) = Some (False, s2\<lparr>cs_world := w\<rparr>)"
      using assms(2) mu unfolding renew_loop_locked [OF l2] quick_rounds_def by fastforce
    obtain r' s' where pm: "put_messages lib idxs msgs (r\<lparr>rd_fail := (AZURE_OK, snd (rd_fail r))\<rparr>) (s2\<lparr>cs_world := w\<rparr>) = Some (r', s')"
        "cs_locked s' = cs_locked s2" "ranges_acked acked c name ranges (rd_done r') s'"
      using round_acked [OF assms(1) mu _ _ sr, of "r\<lparr>rd_fail := (AZURE_OK, snd (rd_fail r))\<rparr>"] st ranges_acked_grows [OF Suc.prems(2) g] by auto
    have "batch_attempts lib c (batch_url c name) name ranges lease_id if_match attempt result r s =
        (if list_all id (rd_done r') \<or> \<not> azure_is_retryable (fst (rd_fail r'))
         then Some (verdict ''Batch write: ranges failed after 3 retries'' (fst (rd_fail r')) r' s')
         else batch_attempts lib c (batch_url c name) name ranges lease_id if_match (Suc attempt) (fst (rd_fail r')) r' s')"
      unfolding un idxs_def [symmetric] mk_def [symmetric] Let_def using 4 a al se mu rl pm(1) by simp
    moreover have "k = Suc BATCH_MAX_RETRIES - Suc attempt" using Suc.hyps(2) by simp
    ultimately show ?thesis using batch_outcome_verdict [OF pm(3)] Suc.hyps(1) [OF _ _ pm(3)] l2 pm(2) by simp
  qed
qed

lemma batch_unfold:
  assumes "2 \<le> length ranges" and "\<not> cs_locked s"
  shows "az_page_blob_write_batch lib c name ranges lease_id if_match s =
    (case c_alloc lib (s\<lparr>cs_locked := True\<rparr>) of (ok, s1) \<Rightarrow>
     if \<not> ok
     then Some (AZURE_ERR_NOMEM,
                azure_error_init\<lparr>err_code := AZURE_ERR_NOMEM, err_error_message := ''batch write: allocation failed''\<rparr>,
                client_unlock s1)
     else case ensure_multi_handle lib s1 of (ok, s2) \<Rightarrow>
     if \<not> ok
     then Some (AZURE_ERR_NETWORK,
                azure_error_init\<lparr>err_code := AZURE_ERR_NETWORK, err_error_message := ''curl_multi_init() failed''\<rparr>,
                client_unlock s2)
     else batch_attempts lib c (batch_url c name) name ranges lease_id if_match 0 AZURE_OK (round_start (length ranges)) s2)"
proof (cases ranges)
  case (Cons r rs)
  then obtain r' rs' where "ranges = r # r' # rs'" using assms(1) by (cases rs) auto
  then show ?thesis unfolding az_page_blob_write_batch_def client_lock_def using assms(2)
    by (simp only: list.case if_False option.case)
qed (use assms in simp)

lemma ensure_multi_handle_locked: "ensure_multi_handle lib s = (ok, s') \<Longrightarrow> cs_locked s' = cs_locked s"
  by (auto simp: ensure_multi_handle_def split: prod.splits if_splits dest: c_alloc_locked)

text \<open>C11 A batch of page writes whose rounds end before a lease renewal is due always returns. If it reports success, the
  server has acknowledged, for every range, a Put Page request for this blob with exactly the bytes and the byte range of
  that range, whatever transfers failed and were retried; and unless memory ran out the mutex is free again.\<close>

theorem batch_success_is_complete:
  assumes "2 \<le> length ranges" and "\<not> cs_locked s" and "acks lib acked" and "quick_rounds lib"
  shows "\<exists>rc err s'. az_page_blob_write_batch lib c name ranges lease_id if_match s = Some (rc, err, s') \<and>
    (rc \<noteq> AZURE_ERR_NOMEM \<longrightarrow> \<not> cs_locked s') \<and>
    (rc = AZURE_OK \<longrightarrow> (\<forall>r \<in> set ranges. \<exists>rq \<in> acked (cs_world s'). stores_range c name r rq))"
proof -
  obtain ok s1 where a: "c_alloc lib (s\<lparr>cs_locked := True\<rparr>) = (ok, s1)" by (cases "c_alloc lib (s\<lparr>cs_locked := True\<rparr>)")
  obtain ok2 s2 where e: "ensure_multi_handle lib s1 = (ok2, s2)" by (cases "ensure_multi_handle lib s1")
  have "cs_locked s2" using ensure_multi_handle_locked [OF e] c_alloc_locked [OF a] by simp
  moreover have "ranges_acked acked c name ranges (rd_done (round_start (length ranges))) s2"
    by (simp add: ranges_acked_def round_start_def)
  ultimately have "batch_outcome acked c name ranges
      (batch_attempts lib c (batch_url c name) name ranges lease_id if_match 0 AZURE_OK (round_start (length ranges)) s2)"
    by (rule batch_attempts_outcome [OF assms(3,4)])
  then show ?thesis unfolding batch_unfold [OF assms(1,2)] using a e by (auto simp: batch_outcome_def client_unlock_def)
qed

text \<open>A server that accepts everything with empty bodies lets a batch succeed in its first round.\<close>

lemma put_messages_accepts:
  assumes "\<forall>(j, reply) \<in> set ms. cr_code reply = CURLE_OK \<and> is_2xx (cr_status reply) \<and> cr_body reply = []"
    and "\<forall>i < length (rd_done r). rd_done r ! i \<or> (\<exists>m \<in> set ms. fst m < length idxs \<and> idxs ! fst m = i)"
  shows "\<exists>r'. put_messages lib idxs ms r s = Some (r', s) \<and> list_all id (rd_done r')"
  using assms
proof (induction ms arbitrary: r)
  case Nil
  then show ?case by (auto simp: list_all_length)
next
  case (Cons m ms)
  obtain j reply where m: "m = (j, reply)" by (cases m)
  have rb: "receive_body lib (cr_body reply) azure_buffer_init s = Some (True, azure_buffer_init, s)"
    using Cons.prems(1) by (simp add: m)
  show ?case
  proof (cases "length idxs \<le> j")
    case True
    then have "\<forall>i < length (rd_done r). rd_done r ! i \<or> (\<exists>m \<in> set ms. fst m < length idxs \<and> idxs ! fst m = i)"
      using Cons.prems(2) by (auto simp: m)
    then show ?thesis using True Cons.IH [of r] Cons.prems(1) by (simp add: m)
  next
    case False
    obtain r1 where p: "put_message lib (idxs ! j) reply r s = Some (r1, s)" "rd_done r1 = (rd_done r)[idxs ! j := True]"
      using put_message_done [OF rb, of "idxs ! j" r] Cons.prems(1) by (auto simp: m)
    have "\<forall>i < length (rd_done r1). rd_done r1 ! i \<or> (\<exists>m \<in> set ms. fst m < length idxs \<and> idxs ! fst m = i)"
    proof (intro allI impI)
      fix i assume "i < length (rd_done r1)"
      then show "rd_done r1 ! i \<or> (\<exists>m \<in> set ms. fst m < length idxs \<and> idxs ! fst m = i)"
        using Cons.prems(2) p(2) by (cases "idxs ! j = i") (auto simp: m)
    qed
    then show ?thesis using False Cons.IH [of r1] Cons.prems(1) p(1) by (simp add: m)
  qed
qed

lemma round_start_pending:
  "pending (rd_done (round_start n)) = [0..<n]" "(round_start n)\<lparr>rd_fail := (AZURE_OK, snd (rd_fail (round_start n)))\<rparr> = round_start n"
  by (simp_all add: pending_def round_start_def)

text \<open>The first round of a batch from its event loop on.\<close>

definition batch_finish ::
  "'w http_lib \<Rightarrow> azure_client \<Rightarrow> string \<Rightarrow> azure_page_range list \<Rightarrow> string option \<Rightarrow> string option \<Rightarrow> http_request list \<Rightarrow> 'w client_call"
where
  "batch_finish lib c name ranges lease_id if_match rqs s =
     (case hl_multi lib rqs (cs_world s) of (t0, ts, msgs, w) \<Rightarrow>
      case renew_loop lib c name (opt_str lease_id) t0 ts (s\<lparr>cs_world := w\<rparr>) of
        None \<Rightarrow> None
      | Some (lease_lost, s) \<Rightarrow>
      (case put_messages lib [0..<length ranges] msgs (round_start (length ranges)) s of
         None \<Rightarrow> None
       | Some (r, s) \<Rightarrow>
      if lease_lost
      then Some (AZURE_ERR_LEASE_EXPIRED,
                 (snd (rd_fail r))\<lparr>err_code := AZURE_ERR_LEASE_EXPIRED, err_error_message := ''Lease lost during batch write''\<rparr>,
                 client_unlock s)
      else if list_all id (rd_done r) \<or> \<not> azure_is_retryable (fst (rd_fail r))
      then Some (verdict ''Batch write: ranges failed after 3 retries'' (fst (rd_fail r)) r s)
      else batch_attempts lib c (batch_url c name) name ranges lease_id if_match (Suc 0) (fst (rd_fail r)) r s))"

lemma batch_first_round:
  assumes "2 \<le> length ranges" and "\<not> cs_locked s" and "alloc_ok lib" and "ac_use_sas c"
  shows "\<exists>rqs s4. length rqs = length ranges \<and> cs_locked s4 \<and>
    az_page_blob_write_batch lib c name ranges lease_id if_match s = batch_finish lib c name ranges lease_id if_match rqs s4"
proof -
  define mk where "mk = (\<lambda>i. batch_init_easy lib c (batch_url c name) name (ranges ! i) lease_id if_match)"
  obtain s1 where a: "c_alloc lib (s\<lparr>cs_locked := True\<rparr>) = (True, s1)" using c_alloc_True [OF assms(3)] by blast
  obtain s2 where e: "ensure_multi_handle lib s1 = (True, s2)" using ensure_multi_handle_ok [OF assms(3)] by blast
  obtain s3 where a3: "c_alloc lib s2 = (True, s3)" using c_alloc_True [OF assms(3)] by blast
  have mk: "\<exists>rq s'. mk i s = (AZURE_OK, Some rq, s')" for i s
    unfolding mk_def by (rule batch_init_easy_ok [OF assms(3,4)])
  then obtain rqs s4 where se: "setup_requests mk [0..<length ranges] s3 = (AZURE_OK, rqs, s4)"
    using setup_requests_succeeds [of mk "[0..<length ranges]" s3] by blast
  have lr: "length rqs = length ranges"
    using setup_requests_ok [OF se] mk by simp (metis option.discI prod.inject)
  have "grows (\<lambda>_. UNIV) s3 s4"
    using batch_init_easy_grows [OF acks_UNIV] by (intro setup_requests_grows [OF _ se]) (simp add: mk_def)
  then have l: "cs_locked s4"
    using c_alloc_locked [OF a3] ensure_multi_handle_locked [OF e] c_alloc_locked [OF a] by (simp add: grows_def)
  have "ranges \<noteq> []" using assms(1) by auto
  then have "az_page_blob_write_batch lib c name ranges lease_id if_match s = batch_finish lib c name ranges lease_id if_match rqs s4"
    unfolding batch_unfold [OF assms(1,2)] batch_attempts.simps [of lib c "batch_url c name" name ranges _ _ 0] mk_def [symmetric] Let_def
      round_start_pending batch_finish_def using a e a3 se by simp
  with lr l show ?thesis by blast
qed

lemma batch_accepted:
  assumes "2 \<le> length ranges" and "\<not> cs_locked s" and "alloc_ok lib" and "ac_use_sas c" and "accepts_all lib" and "quick_rounds lib"
    and "\<And>rqs w. \<forall>(j, reply) \<in> set (fst (snd (snd (hl_multi lib rqs w)))). cr_body reply = []"
  shows "\<exists>err s'. az_page_blob_write_batch lib c name ranges lease_id if_match s = Some (AZURE_OK, err, s')"
proof -
  obtain rqs s4 where b: "length rqs = length ranges" "cs_locked s4"
      "az_page_blob_write_batch lib c name ranges lease_id if_match s = batch_finish lib c name ranges lease_id if_match rqs s4"
    using batch_first_round [OF assms(1-4)] by blast
  obtain t0 ts msgs w where mu: "hl_multi lib rqs (cs_world s4) = (t0, ts, msgs, w)" by (cases "hl_multi lib rqs (cs_world s4)")
  have l: "cs_locked (s4\<lparr>cs_world := w\<rparr>)" using b(2) by simp
  have rl: "renew_loop lib c name (opt_str lease_id) t0 ts (s4\<lparr>cs_world := w\<rparr>) = Some (False, s4\<lparr>cs_world := w\<rparr>)"
    using assms(6) mu unfolding renew_loop_locked [OF l] quick_rounds_def by fastforce
  have "\<forall>(j, reply) \<in> set msgs. cr_code reply = CURLE_OK \<and> is_2xx (cr_status reply) \<and> cr_body reply = []"
    using assms(5) assms(7) [of rqs "cs_world s4"] mu unfolding accepts_all_def by fastforce
  moreover have "\<forall>i < length ranges. \<exists>m \<in> set msgs. fst m = i"
    using assms(5) mu b(1) unfolding accepts_all_def by (metis (no_types, lifting) imageE)
  ultimately obtain r' where "put_messages lib [0..<length ranges] msgs (round_start (length ranges)) (s4\<lparr>cs_world := w\<rparr>) = Some (r', s4\<lparr>cs_world := w\<rparr>)"
      "list_all id (rd_done r')"
    using put_messages_accepts [of msgs "round_start (length ranges)" "[0..<length ranges]" lib "s4\<lparr>cs_world := w\<rparr>"]
    by (fastforce simp: round_start_def)
  then show ?thesis unfolding b(3) batch_finish_def using mu rl by (simp add: verdict_def)
qed

definition two_pages :: "azure_page_range list" where
  "two_pages = [\<lparr>pr_offset = 0, pr_data = Some (replicate 512 1), pr_len = 512\<rparr>,
     \<lparr>pr_offset = 4096, pr_data = Some (replicate 512 2), pr_len = 512\<rparr>]"

lemma two_pages_length: "length two_pages = 2"
  by (simp add: two_pages_def)

lemma sample_server_acks: "acks (sample_server ts body) set"
  by (auto simp: acks_def sample_server_def)

lemma sample_server_empty: "\<forall>(j, reply) \<in> set (fst (snd (snd (hl_multi (sample_server ts []) rqs w)))). cr_body reply = []"
  by (auto simp: sample_server_def ok_reply_def)

theorem batch_success_is_complete_witness:
  "\<exists>err s'. az_page_blob_write_batch (sample_server [1, 2] []) sas_client ''a.db'' two_pages (Some ''lease'') None idle =
     Some (AZURE_OK, err, s') \<and> (\<forall>r \<in> set two_pages. \<exists>rq \<in> set (cs_world s'). stores_range sas_client ''a.db'' r rq)"
proof -
  have q: "quick_rounds (sample_server [1, 2] [])" by (auto simp: quick_rounds_def sample_server_def)
  show ?thesis
    using batch_success_is_complete [OF _ _ sample_server_acks q, of two_pages idle sas_client "''a.db''" "Some ''lease''" None]
      batch_accepted [OF _ _ _ _ _ q sample_server_empty, of two_pages idle sas_client "''a.db''" "Some ''lease''" None]
    by (auto simp: two_pages_length)
qed

section \<open>The mutex is not recursive\<close>

text \<open>C36 The lease renewal inside a batch write takes the client's mutex a second time: with a lease, a batch whose event
  loop lasts 15 seconds or more never returns.\<close>

theorem batch_renewal_never_returns:
  assumes "2 \<le> length ranges" and "\<not> cs_locked s" and "alloc_ok lib" and "ac_use_sas c" and "lid \<noteq> []"
    and "\<And>rqs w. \<exists>t \<in> set (fst (snd (hl_multi lib rqs w))). BATCH_LEASE_RENEWAL_SEC \<le> t - fst (hl_multi lib rqs w)"
  shows "az_page_blob_write_batch lib c name ranges (Some lid) if_match s = None"
proof -
  obtain rqs s4 where b: "cs_locked s4"
      "az_page_blob_write_batch lib c name ranges (Some lid) if_match s = batch_finish lib c name ranges (Some lid) if_match rqs s4"
    using batch_first_round [OF assms(1-4)] by blast
  obtain t0 ts msgs w where mu: "hl_multi lib rqs (cs_world s4) = (t0, ts, msgs, w)" by (cases "hl_multi lib rqs (cs_world s4)")
  have l: "cs_locked (s4\<lparr>cs_world := w\<rparr>)" using b(1) by simp
  have "renew_loop lib c name (opt_str (Some lid)) t0 ts (s4\<lparr>cs_world := w\<rparr>) = None"
    using assms(5) assms(6) [of rqs "cs_world s4"] mu unfolding renew_loop_locked [OF l] by (simp add: opt_str_def)
  then show ?thesis unfolding b(2) batch_finish_def using mu by simp
qed

theorem batch_renewal_never_returns_witness:
  "az_page_blob_write_batch (sample_server [5, 16] []) sas_client ''a.db'' two_pages (Some ''lease'') None idle = None"
proof -
  have "\<exists>t \<in> set (fst (snd (hl_multi (sample_server [5, 16] []) rqs w))). BATCH_LEASE_RENEWAL_SEC \<le> t - fst (hl_multi (sample_server [5, 16] []) rqs w)"
    for rqs w by (simp add: sample_server_def)
  from batch_renewal_never_returns [OF _ _ _ _ _ this] show ?thesis by (simp add: two_pages_length)
qed

text \<open>C37 A batch that cannot allocate its request array returns with the mutex still held: every later request of that
  client never returns.\<close>

theorem batch_nomem_blocks_client:
  assumes "2 \<le> length ranges" and "\<not> cs_locked s" and "cs_multi s"
    and "hl_alloc lib (cs_world s) = (True, w1)" and "hl_alloc lib w1 = (False, w2)" and "lid \<noteq> []"
  shows "\<exists>err s'. az_page_blob_write_batch lib c name ranges lease_id if_match s = Some (AZURE_ERR_NOMEM, err, s') \<and>
    az_lease_release lib c name lid s' = None \<and> az_page_blob_read lib c name 0 512 s' = None \<and>
    az_page_blob_write_batch lib c name ranges lease_id if_match s' = None"
proof -
  have ne: "pending (rd_done (round_start (length ranges))) \<noteq> []"
    using assms(1) by (auto simp: pending_Nil round_start_def list_all_length intro!: exI [of _ 0])
  have "az_page_blob_write_batch lib c name ranges lease_id if_match s =
      Some (AZURE_ERR_NOMEM, azure_error_init\<lparr>err_code := AZURE_ERR_NOMEM\<rparr>, s\<lparr>cs_locked := True, cs_world := w2\<rparr>)"
    unfolding batch_unfold [OF assms(1,2)] using assms ne
    by (simp add: c_alloc_def ensure_multi_handle_def batch_attempts.simps [of _ _ _ _ _ _ _ 0] round_start_def)
  moreover have "az_page_blob_write_batch lib c name ranges lease_id if_match s' = None" if "cs_locked s'" for s'
  proof (cases ranges)
    case (Cons x xs)
    then show ?thesis using assms(1) that by (cases xs) (simp_all add: az_page_blob_write_batch_def client_lock_def)
  qed (use assms(1) in simp)
  ultimately show ?thesis
    using assms(6) by (auto simp: az_lease_release_def locked_call_hangs az_page_blob_read_def http_full_locked)
qed

text \<open>A server whose allocator succeeds once.\<close>

definition poor_server :: "nat http_lib" where
  "poor_server = \<lparr>hl_crypto = \<lparr>cr_b64 = Map.empty, cr_unb64 = Map.empty, cr_hmac = (\<lambda>_. Map.empty)\<rparr>, hl_date = (\<lambda>_. []),
      hl_alloc = (\<lambda>w. (w = 0, Suc w)), hl_random = Map.empty, hl_strerror = (\<lambda>_. []),
      hl_perform = (\<lambda>rq w. (ok_reply [], w)), hl_multi = (\<lambda>rqs w. (0, [], [], w))\<rparr>"

theorem batch_nomem_blocks_client_witness:
  "\<exists>err s'. az_page_blob_write_batch poor_server sas_client ''a.db'' two_pages None None \<lparr>cs_locked = False, cs_multi = True, cs_world = 0\<rparr> =
     Some (AZURE_ERR_NOMEM, err, s') \<and> az_page_blob_read poor_server sas_client ''a.db'' 0 512 s' = None"
proof -
  have "hl_alloc poor_server 0 = (True, 1)" "hl_alloc poor_server 1 = (False, 2)" by (simp_all add: poor_server_def)
  with batch_nomem_blocks_client [of two_pages "\<lparr>cs_locked = False, cs_multi = True, cs_world = 0\<rparr>" poor_server 1 2 "''l''" sas_client "''a.db''" None None]
  show ?thesis by (simp add: two_pages_length) blast
qed

section \<open>Single requests\<close>

lemma slist_append_locked: "slist_append lib hs s = (ok, s') \<Longrightarrow> cs_locked s' = cs_locked s"
  using slist_append_grows [OF acks_UNIV] unfolding grows_def by blast

lemma curl_easy_perform_total:
  assumes "buffer_ok buf"
  shows "\<exists>res st buf' rh' s'. curl_easy_perform lib rq buf rh s = Some (res, st, buf', rh', s') \<and> buffer_ok buf' \<and> cs_locked s' = cs_locked s"
proof -
  obtain reply w where p: "hl_perform lib rq (cs_world s) = (reply, w)" by (cases "hl_perform lib rq (cs_world s)")
  from receive_body_total [OF assms, of lib "cr_body reply" "s\<lparr>cs_world := w\<rparr>" "\<lambda>_. UNIV"] show ?thesis
    by (auto simp: curl_easy_perform_def p Let_def)
qed

lemma execute_single_total:
  assumes "\<not> cs_locked s" and "buffer_ok buf"
  shows "\<exists>rc err rh buf' s'. execute_single lib c meth name query extra ct body rng im (buf\<lparr>buf_size := 0\<rparr>) s =
    Some (rc, err, rh, buf', s') \<and> buffer_ok buf' \<and> \<not> cs_locked s'"
proof -
  define date_buf where "date_buf = snp 64 (hl_date lib (cs_world s))"
  define x_ms where "x_ms = [snp 128 (''x-ms-date:'' @ date_buf), snp 64 (''x-ms-version:'' @ AZURE_API_VERSION)] @ take 28 extra"
  define sg where "sg = (if ac_use_sas c then (AZURE_OK, []) else azure_auth_sign_request (hl_crypto lib) c meth (sign_path c name) query
      (if body = [] then [] else snp 32 (dec_nat (length body))) (opt_str ct) (opt_str rng) im x_ms 512)"
  define hs where "hs = request_headers meth date_buf (snd sg) (opt_str ct) (length body) (opt_str rng) extra (opt_str im)"
  define rq where "rq = \<lparr>rq_method = meth, rq_url = request_url c name (opt_str query), rq_headers = hs, rq_body = body\<rparr>"
  obtain ok s1 where sl: "slist_append lib hs s = (ok, s1)" by (cases "slist_append lib hs s")
  obtain res st buf' rh' s2 where pf: "curl_easy_perform lib rq (buf\<lparr>buf_size := 0\<rparr>) headers_zero s1 = Some (res, st, buf', rh', s2)"
      "buffer_ok buf'" "cs_locked s2 = cs_locked s1"
    using curl_easy_perform_total [OF buffer_ok_reset(1) [OF assms(2)]] by blast
  have "execute_single lib c meth name query extra ct body rng im (buf\<lparr>buf_size := 0\<rparr>) s =
      (if fst sg \<noteq> AZURE_OK then Some (fst sg, azure_error_init\<lparr>err_code := fst sg\<rparr>, headers_zero, buf\<lparr>buf_size := 0\<rparr>, s)
       else if \<not> ok
       then Some (AZURE_ERR_NOMEM, azure_error_init\<lparr>err_code := AZURE_ERR_NOMEM,
              err_error_message := ''curl_slist_append allocation failed''\<rparr>, headers_zero, buf\<lparr>buf_size := 0\<rparr>, s1)
       else case classify_reply lib res st buf' rh' of (rc, err) \<Rightarrow> Some (rc, err, rh', buf', s2))"
    using assms(1) sl pf(1) unfolding execute_single_def date_buf_def [symmetric] x_ms_def [symmetric] Let_def sg_def [symmetric]
    by (simp add: case_prod_unfold hs_def [symmetric] rq_def [symmetric])
  then show ?thesis using assms slist_append_locked [OF sl] pf buffer_ok_reset(1) [OF assms(2)] by (auto split: prod.splits)
qed



section \<open>The upload meets the client\<close>

text \<open>C26 The ranges the VFS computes from its dirty pages pass every argument check of the client's page write: the
  client sends the request for each of them instead of refusing it as an invalid argument.\<close>

theorem dirty_ranges_pass_client_checks:
  assumes "bm_ok (dirty p)" and "page_geometry p" and "coalesceDirtyRanges p n = Some rs" and "r \<in> set rs" and "int (length d) = pr_len r"
  shows "az_page_blob_write lib c name (pr_offset r) d lease_id if_match s =
    http_run lib c ''PUT'' name (Some ''comp=page'')
      ([''x-ms-page-write:update'', range_header (pr_offset r) (pr_len r)] @ lease_header lease_id) octet_stream d if_match s"
proof -
  have "0 \<le> pr_offset r" "pageSize p dvd pr_offset r" "0 < pr_len r" "512 dvd pr_len r" "pr_len r \<le> 4194304"
    using page_runs_shape [OF coalesce_runs [OF assms(3,1,2)] assms(2)] assms(4) by (auto simp: list_all_iff)
  moreover have "512 dvd pr_offset r" using calculation(2) assms(2) by (auto simp: page_geometry_def elim: dvd_trans)
  ultimately show ?thesis using assms(5) by (simp add: az_page_blob_write_def Let_def)
qed

theorem dirty_ranges_pass_client_checks_witness:
  "az_page_blob_write (sample_server [] []) sas_client ''a.db'' 1024 (replicate 512 1) None None idle =
   http_run (sample_server [] []) sas_client ''PUT'' ''a.db'' (Some ''comp=page'')
     ([''x-ms-page-write:update'', range_header 1024 512] @ lease_header None) octet_stream (replicate 512 1) None idle"
proof -
  have g: "page_geometry sample_dirty" by (simp add: page_geometry_def sample_dirty_def sample_db_def)
  have "coalesceDirtyRanges sample_dirty 2 =
      Some [\<lparr>pr_offset = 0, pr_data = None, pr_len = 512\<rparr>, \<lparr>pr_offset = 1024, pr_data = None, pr_len = 512\<rparr>]"
    by code_simp
  from dirty_ranges_pass_client_checks [OF sample_dirty_ok g this, of "\<lparr>pr_offset = 1024, pr_data = None, pr_len = 512\<rparr>" "replicate 512 1"]
  show ?thesis by simp
qed

end
