(* ===== verification/Azure_Stub.thy ===== *)
theory Azure_Stub
  imports Sync
begin

text \<open>
  \<^verbatim>\<open>azure_client_stub.c\<close>: the client linked when libcurl is not available. Every operation reports
  \<^verbatim>\<open>AZURE_ERR_UNKNOWN\<close> and changes nothing; outputs keep the value the caller put there.
\<close>

definition stub_error :: azure_error where
  "stub_error = azure_error_init\<lparr>err_code := AZURE_ERR_UNKNOWN, err_error_message := ''Azure client not implemented (stub)''\<rparr>"

definition stub_page_blob_create :: "string \<Rightarrow> int \<Rightarrow> 'w azure_call" where
  "stub_page_blob_create name sz w = (AZURE_ERR_UNKNOWN, stub_error, w)"

definition stub_page_blob_write :: "string \<Rightarrow> int \<Rightarrow> bytes \<Rightarrow> string option \<Rightarrow> string option \<Rightarrow> 'w azure_call" where
  "stub_page_blob_write name off d lid im w = (AZURE_ERR_UNKNOWN, stub_error, w)"

definition stub_page_blob_read :: "string \<Rightarrow> int \<Rightarrow> int \<Rightarrow> ('w, bytes) azure_query" where
  "stub_page_blob_read name off len w = (AZURE_ERR_UNKNOWN, [], stub_error, w)"

definition stub_page_blob_resize :: "string \<Rightarrow> int \<Rightarrow> string option \<Rightarrow> 'w azure_call" where
  "stub_page_blob_resize name n lid w = (AZURE_ERR_UNKNOWN, stub_error, w)"

definition stub_block_blob_upload :: "string \<Rightarrow> bytes \<Rightarrow> 'w azure_call" where
  "stub_block_blob_upload name d w = (AZURE_ERR_UNKNOWN, stub_error, w)"

definition stub_block_blob_download :: "string \<Rightarrow> ('w, bytes) azure_query" where
  "stub_block_blob_download name w = (AZURE_ERR_UNKNOWN, [], stub_error, w)"

definition stub_blob_get_properties :: "string \<Rightarrow> ('w, int \<times> string \<times> string) azure_query" where
  "stub_blob_get_properties name w = (AZURE_ERR_UNKNOWN, (0, [], []), stub_error, w)"

definition stub_blob_delete :: "string \<Rightarrow> 'w azure_call" where
  "stub_blob_delete name w = (AZURE_ERR_UNKNOWN, stub_error, w)"

definition stub_blob_exists :: "string \<Rightarrow> ('w, bool) azure_query" where
  "stub_blob_exists name w = (AZURE_ERR_UNKNOWN, False, stub_error, w)"

definition stub_lease_acquire :: "string \<Rightarrow> int \<Rightarrow> ('w, string option) azure_query" where
  "stub_lease_acquire name dur w = (AZURE_ERR_UNKNOWN, None, stub_error, w)"

definition stub_lease_renew :: "string \<Rightarrow> string \<Rightarrow> 'w azure_call" where
  "stub_lease_renew name lid w = (AZURE_ERR_UNKNOWN, stub_error, w)"

definition stub_lease_release :: "string \<Rightarrow> string \<Rightarrow> 'w azure_call" where
  "stub_lease_release name lid w = (AZURE_ERR_UNKNOWN, stub_error, w)"

definition stub_lease_break :: "string \<Rightarrow> int \<Rightarrow> ('w, int) azure_query" where
  "stub_lease_break name period w = (AZURE_ERR_UNKNOWN, 0, stub_error, w)"

definition g_stubOps :: "'w azure_ops" where
  "g_stubOps =
     \<lparr>page_blob_create = Some stub_page_blob_create,
      page_blob_write = Some stub_page_blob_write,
      page_blob_read = Some stub_page_blob_read,
      page_blob_resize = Some stub_page_blob_resize,
      block_blob_upload = Some stub_block_blob_upload,
      block_blob_download = Some stub_block_blob_download,
      blob_get_properties = Some stub_blob_get_properties,
      blob_delete = Some stub_blob_delete,
      blob_undelete = None,
      blob_exists = Some stub_blob_exists,
      lease_acquire = Some stub_lease_acquire,
      lease_renew = Some stub_lease_renew,
      lease_release = Some stub_lease_release,
      lease_break = Some stub_lease_break,
      page_blob_write_batch = None,
      page_blob_read_multi = None,
      append_blob_create = None,
      append_blob_append = None,
      append_blob_delete = None,
      block_blob_upload_parallel = None,
      blob_snapshot_create = None,
      blob_get_page_ranges_diff = None\<rparr>"

text \<open>\<^verbatim>\<open>azure_client_create\<close> of the stub: no client, an error.\<close>

definition stub_client_create :: "azure_client_config \<Rightarrow> azure_err \<times> azure_client_config option \<times> azure_error" where
  "stub_client_create config =
     (AZURE_ERR_UNKNOWN, None,
      azure_error_init\<lparr>err_code := AZURE_ERR_UNKNOWN,
        err_error_message := ''Azure client not implemented '' @ [CHR 0xE2, CHR 0x80, CHR 0x94] @
          '' stub only. Frodo will provide the real implementation.''\<rparr>)"

end
