(* ===== verification/Shell.thy ===== *)
theory Shell
  imports Vfs_Open
begin

text \<open>
  \<^verbatim>\<open>main\<close> of \<^verbatim>\<open>sqlite_objs_shell.c\<close>: it takes \<^verbatim>\<open>--uri\<close> out of the arguments, registers the VFS and
  calls SQLite's shell, which is a parameter. The argument array is updated in place, as in the code: it keeps its
  length, and only the first \<^verbatim>\<open>argc\<close> entries count.
\<close>

section \<open>Arguments\<close>

text \<open>The inner loop, which moves the arguments behind position \<open>j\<close> down by one.\<close>

function shift_args :: "string list \<Rightarrow> nat \<Rightarrow> nat \<Rightarrow> string list" where
  "shift_args argv j argc = (if j < argc - 1 then shift_args (argv[j := argv ! (j + 1)]) (j + 1) argc else argv)"
  by pat_completeness auto
termination
  by (relation "measure (\<lambda>(argv, j, argc). argc - j)") auto

declare shift_args.simps [simp del]

function scan_args :: "string list \<Rightarrow> nat \<Rightarrow> nat \<Rightarrow> bool \<Rightarrow> string list \<times> nat \<times> bool" where
  "scan_args argv i argc use_uri =
     (if i < argc
      then if argv ! i = ''--uri'' then scan_args (shift_args argv i argc) i (argc - 1) True
           else scan_args argv (i + 1) argc use_uri
      else (argv, argc, use_uri))"
  by pat_completeness auto
termination
  by (relation "measure (\<lambda>(argv, i, argc, u). argc - i)") auto

declare scan_args.simps [simp del]

section \<open>main\<close>

text \<open>\<open>shell_main\<close> is SQLite's shell; its second argument says whether URI file names were enabled by \<^verbatim>\<open>sqlite3_config\<close>.\<close>

definition shell :: "(string list \<Rightarrow> bool \<Rightarrow> 'w env \<Rightarrow> int \<times> 'w env) \<Rightarrow> 'w host \<Rightarrow> int \<Rightarrow> string list \<Rightarrow> nat \<Rightarrow> 'w env \<Rightarrow> int \<times> 'w env" where
  "shell shell_main h ourSize argv argc e =
     (case scan_args argv 1 argc False of (argv, argc, use_uri) \<Rightarrow>
      if use_uri
      then case sqlite_objs_vfs_register_uri h ourSize e of (rc, _, e) \<Rightarrow>
             if rc \<noteq> SQLITE_OK then (1, e) else shell_main (take argc argv) True e
      else case sqlite_objs_vfs_register h ourSize e of (rc, _, e) \<Rightarrow>
             if rc \<noteq> SQLITE_OK then (1, e) else shell_main (take argc argv) False e)"

section \<open>The flag is taken out, everything else is passed on\<close>

lemma shift_args_length [simp]: "length (shift_args argv j argc) = length argv"
  by (induction argv j argc rule: shift_args.induct) (subst shift_args.simps, simp)

lemma shift_args_nth:
  "argc \<le> length argv \<Longrightarrow> k < length argv \<Longrightarrow>
     shift_args argv j argc ! k = (if j \<le> k \<and> k < argc - 1 then argv ! (k + 1) else argv ! k)"
proof (induction argv j argc rule: shift_args.induct)
  case (1 argv j argc)
  show ?case
  proof (cases "j < argc - 1")
    case True
    then have "shift_args argv j argc ! k =
        (if j + 1 \<le> k \<and> k < argc - 1 then argv[j := argv ! (j + 1)] ! (k + 1) else argv[j := argv ! (j + 1)] ! k)"
      using 1 by (simp add: shift_args.simps [of argv j])
    then show ?thesis using True "1.prems" by (auto simp: nth_list_update)
  qed (auto simp: shift_args.simps [of argv j])
qed

lemma shift_args_drop:
  assumes "i < argc" and "argc \<le> length argv"
  shows "take i (shift_args argv i argc) = take i argv"
    "drop i (take (argc - 1) (shift_args argv i argc)) = drop (Suc i) (take argc argv)"
  using assms by (auto intro!: nth_equalityI simp: shift_args_nth)

lemma scan_args_spec:
  assumes "i \<le> argc" and "argc \<le> length argv" and "scan_args argv i argc u = (argv', argc', u')"
  shows "take argc' argv' = take i argv @ filter (\<lambda>a. a \<noteq> ''--uri'') (drop i (take argc argv)) \<and>
    (u' \<longleftrightarrow> u \<or> ''--uri'' \<in> set (drop i (take argc argv)))"
  using assms
proof (induction argv i argc u rule: scan_args.induct)
  case (1 argv i argc u)
  show ?case
  proof (cases "i < argc")
    case False
    then have "argv' = argv \<and> argc' = argc \<and> u' = u" using "1.prems"(3) by (simp add: scan_args.simps [of argv i])
    with False "1.prems"(1) show ?thesis by simp
  next
    case True
    have d: "drop i (take argc argv) = argv ! i # drop (Suc i) (take argc argv)"
      using True "1.prems"(2) by (simp add: Cons_nth_drop_Suc [symmetric])
    show ?thesis
    proof (cases "argv ! i = ''--uri''")
      case uri: True
      then have "scan_args (shift_args argv i argc) i (argc - 1) True = (argv', argc', u')"
        using True "1.prems"(3) by (simp add: scan_args.simps [of argv i])
      with "1.IH"(1) [OF True uri] True "1.prems" show ?thesis
        using shift_args_drop [OF True "1.prems"(2)] by (simp add: d uri)
    next
      case other: False
      then have "scan_args argv (i + 1) argc u = (argv', argc', u')" using True "1.prems"(3) by (simp add: scan_args.simps [of argv i])
      with "1.IH"(2) [OF True other] True "1.prems" other show ?thesis by (simp add: d take_Suc_conv_app_nth)
    qed
  qed
qed

text \<open>For a call with a program name: the shell sees every argument but the flag, in order, and runs only after a
  successful registration of the kind the flag selects.\<close>

lemma shell_spec:
  assumes "0 < argc" and "argc \<le> length argv"
  shows "shell shell_main h ourSize argv argc e =
    (let args = take argc argv; use_uri = (''--uri'' \<in> set (tl args)) in
     case (if use_uri then sqlite_objs_vfs_register_uri h ourSize e else sqlite_objs_vfs_register h ourSize e) of (rc, _, e) \<Rightarrow>
     if rc \<noteq> SQLITE_OK then (1, e) else shell_main (hd args # filter (\<lambda>a. a \<noteq> ''--uri'') (tl args)) use_uri e)"
proof -
  obtain argv' argc' u where s: "scan_args argv 1 argc False = (argv', argc', u)" by (rule prod_cases3)
  have "take 1 argv = [hd (take argc argv)]" using assms by (cases argv; cases argc) auto
  then have "take argc' argv' = hd (take argc argv) # filter (\<lambda>a. a \<noteq> ''--uri'') (tl (take argc argv))"
      "u \<longleftrightarrow> ''--uri'' \<in> set (tl (take argc argv))"
    using scan_args_spec [OF _ assms(2) s] assms(1) by (simp_all add: drop_Suc)
  then show ?thesis unfolding shell_def s prod.case Let_def by (simp split: prod.split)
qed

end
