(* ===== verification/Vfs_Delegate.thy ===== *)
theory Vfs_Delegate
  imports Vfs_Names
begin

text \<open>
  The methods of the VFS that the default VFS of the operating system carries out (\<^verbatim>\<open>sqlite_objs_vfs.c\<close>, delegated methods). The
  default VFS is a parameter: a record of its methods over a state of its own, a method that is a \<^verbatim>\<open>NULL\<close> pointer being
  \<^term>\<open>None\<close>. Library handles, symbols and the floating-point Julian day are types it chooses; \<open>ms_of_day\<close> is the C expression
  \<^verbatim>\<open>(sqlite3_int64)(t * 86400000.0)\<close>.
\<close>

record ('s, 'h, 'f, 'd) default_vfs =
  dv_iVersion :: int
  dv_xDlOpen :: "string option \<Rightarrow> 's \<Rightarrow> 'h option \<times> 's"
  dv_xDlError :: "int \<Rightarrow> 's \<Rightarrow> string \<times> 's"
  dv_xDlSym :: "'h \<Rightarrow> string \<Rightarrow> 's \<Rightarrow> 'f option \<times> 's"
  dv_xDlClose :: "'h \<Rightarrow> 's \<Rightarrow> 's"
  dv_xRandomness :: "int \<Rightarrow> 's \<Rightarrow> int \<times> bytes \<times> 's"
  dv_xSleep :: "int \<Rightarrow> 's \<Rightarrow> int \<times> 's"
  dv_xCurrentTime :: "'s \<Rightarrow> sqlite_rc \<times> 'd \<times> 's"
  dv_xGetLastError :: "int \<Rightarrow> 's \<Rightarrow> sqlite_rc \<times> string \<times> 's"
  dv_xCurrentTimeInt64 :: "('s \<Rightarrow> sqlite_rc \<times> int \<times> 's) option"

definition sqliteObjsDlOpen :: "('s, 'h, 'f, 'd) default_vfs \<Rightarrow> string option \<Rightarrow> 's \<Rightarrow> 'h option \<times> 's" where
  "sqliteObjsDlOpen d zFilename s = dv_xDlOpen d zFilename s"

definition sqliteObjsDlError :: "('s, 'h, 'f, 'd) default_vfs \<Rightarrow> int \<Rightarrow> 's \<Rightarrow> string \<times> 's" where
  "sqliteObjsDlError d nByte s = dv_xDlError d nByte s"

definition sqliteObjsDlSym :: "('s, 'h, 'f, 'd) default_vfs \<Rightarrow> 'h \<Rightarrow> string \<Rightarrow> 's \<Rightarrow> 'f option \<times> 's" where
  "sqliteObjsDlSym d pH zSym s = dv_xDlSym d pH zSym s"

definition sqliteObjsDlClose :: "('s, 'h, 'f, 'd) default_vfs \<Rightarrow> 'h \<Rightarrow> 's \<Rightarrow> 's" where
  "sqliteObjsDlClose d pHandle s = dv_xDlClose d pHandle s"

definition sqliteObjsRandomness :: "('s, 'h, 'f, 'd) default_vfs \<Rightarrow> int \<Rightarrow> 's \<Rightarrow> int \<times> bytes \<times> 's" where
  "sqliteObjsRandomness d nByte s = dv_xRandomness d nByte s"

definition sqliteObjsSleep :: "('s, 'h, 'f, 'd) default_vfs \<Rightarrow> int \<Rightarrow> 's \<Rightarrow> int \<times> 's" where
  "sqliteObjsSleep d microseconds s = dv_xSleep d microseconds s"

definition sqliteObjsCurrentTime :: "('s, 'h, 'f, 'd) default_vfs \<Rightarrow> 's \<Rightarrow> sqlite_rc \<times> 'd \<times> 's" where
  "sqliteObjsCurrentTime d s = dv_xCurrentTime d s"

text \<open>\<^verbatim>\<open>xGetLastError\<close> with the answer of the default VFS filled in where \<open>Vfs_Names\<close> says that it is asked.\<close>

definition get_last_error ::
  "('s, 'h, 'f, 'd) default_vfs \<Rightarrow> 'w sqliteObjsVfsData \<Rightarrow> int \<Rightarrow> 's \<Rightarrow> sqlite_rc \<times> string \<times> 's" where
  "get_last_error d vd nByte s =
     (case sqliteObjsGetLastError vd nByte of
        Azure (rc, msg) \<Rightarrow> (rc, msg, s)
      | Delegated \<Rightarrow> dv_xGetLastError d nByte s)"

text \<open>\<open>old\<close> is what the output variable held before.\<close>

definition sqliteObjsCurrentTimeInt64 ::
  "('d \<Rightarrow> int) \<Rightarrow> ('s, 'h, 'f, 'd) default_vfs \<Rightarrow> int \<Rightarrow> 's \<Rightarrow> sqlite_rc \<times> int \<times> 's" where
  "sqliteObjsCurrentTimeInt64 ms_of_day d old s =
     (case (if 2 \<le> dv_iVersion d then dv_xCurrentTimeInt64 d else None) of
        Some now \<Rightarrow> now s
      | None \<Rightarrow>
          (case dv_xCurrentTime d s of (rc, t, s) \<Rightarrow>
           (rc, if rc = SQLITE_OK then ms_of_day t else old, s)))"

text \<open>A default VFS whose two clocks agree is read alike on both paths, and an old one that fails leaves the output alone.\<close>

lemma current_time_paths_agree:
  assumes "\<And>now s rc ms s'. dv_xCurrentTimeInt64 d = Some now \<Longrightarrow> now s = (rc, ms, s') \<Longrightarrow>
      \<exists>t. dv_xCurrentTime d s = (rc, t, s') \<and> ms = (if rc = SQLITE_OK then ms_of_day t else old)"
  shows "sqliteObjsCurrentTimeInt64 ms_of_day d old s =
    (case dv_xCurrentTime d s of (rc, t, s') \<Rightarrow> (rc, if rc = SQLITE_OK then ms_of_day t else old, s'))"
proof (cases "if 2 \<le> dv_iVersion d then dv_xCurrentTimeInt64 d else None")
  case (Some now)
  obtain rc ms s' where n: "now s = (rc, ms, s')" by (rule prod_cases3)
  have "dv_xCurrentTimeInt64 d = Some now" using Some by (simp split: if_splits)
  then obtain t where "dv_xCurrentTime d s = (rc, t, s')" "ms = (if rc = SQLITE_OK then ms_of_day t else old)" using assms n by blast
  then show ?thesis using Some n by (simp add: sqliteObjsCurrentTimeInt64_def)
qed (simp add: sqliteObjsCurrentTimeInt64_def)

end
