(* ===== verification/Spec2Isabelle.thy ===== *)
theory Spec2Isabelle
  imports Cache_Reuse Lazy_Cache Client_Text Client_Transfers Azure_Stub Shell Vfs_Delegate
begin

text \<open>
  \<^bold>\<open>sqlite-objs: a SQLite VFS on Azure blobs.\<close>

  The program stores a SQLite database in an Azure page blob and its rollback journal and WAL in block blobs. SQLite calls
  the VFS (\<^verbatim>\<open>src/src/sqlite_objs_vfs.c\<close>). The VFS keeps a local cache file of the database with two bitmaps,
  of the pages that are valid and of the pages that are dirty; it uploads dirty pages on \<^verbatim>\<open>xSync\<close>, takes the
  blob's lease for locks of RESERVED and above, and compares ETags to see whether another client has written. It reaches
  Azure only through the vtable \<^verbatim>\<open>azure_ops_t\<close> (\<^verbatim>\<open>src/src/azure_client.h\<close>), which has three providers: the REST
  client on libcurl (\<^verbatim>\<open>src/src/azure_client.c\<close>, \<^verbatim>\<open>azure_auth.c\<close>, \<^verbatim>\<open>azure_error.c\<close>), a stub
  (\<^verbatim>\<open>src/src/azure_client_stub.c\<close>), and the in-memory mock the repository's tests run the VFS
  against (\<^verbatim>\<open>src/test/mock_azure_ops.c\<close>).

  \<^bold>\<open>How the model reads.\<close> A C function is one definition of the same name, or one definition per loop, label or branch
  where the function is long, composed as the code composes them. Structs are records, enumerations are datatypes,
  result codes are values. A file method takes the record \<open>sqliteObjsFile\<close> and the environment \<open>env\<close> (file system,
  clock, list of injected local faults, VFS globals, and the state \<open>remote\<close> behind the vtable) and returns its result code,
  its outputs and both, changed. An entry of the vtable is a function on \<open>remote\<close>, or \<^term>\<open>None\<close> for a \<^verbatim>\<open>NULL\<close>
  pointer; the type of \<open>remote\<close> is a type variable, so the VFS is modelled for every backend. C integers are HOL
  integers with the casts written out; checksums and bytes are words.

  \<^bold>\<open>Theories of the VFS\<close> (all from \<^verbatim>\<open>sqlite_objs_vfs.c\<close>).
  \<^item> \<open>Prelude\<close>, \<open>Posix\<close>: byte arrays, C arithmetic, result codes; the POSIX calls with faults.
  \<^item> \<open>Azure_Ops\<close>: error codes, error record, ranges and the vtable of \<^verbatim>\<open>azure_client.h\<close>.
  \<^item> \<open>Bitmap\<close>: \<^verbatim>\<open>Bitmap\<close> and its \<^verbatim>\<open>bitmap*\<close> functions; invariant \<open>bm_ok\<close>, abstraction \<open>pages\<close>, locale \<open>page_set\<close>.
  \<^item> \<open>Sidecar\<close>: the \<^verbatim>\<open>.etag\<close>, \<^verbatim>\<open>.snapshot\<close> and \<^verbatim>\<open>.state\<close> files; round trips, atomic replacement, and a flaw of the
    checksum table.
  \<^item> \<open>File_State\<close>, \<open>Page_Cache\<close>: the file record; marking, growing, fetching, prefetching and patching the cache,
    heap buffers, lease renewal, error mapping.
  \<^item> \<open>Main_Io\<close>: \<^verbatim>\<open>xRead\<close>, \<^verbatim>\<open>xWrite\<close>, \<^verbatim>\<open>xTruncate\<close>, \<^verbatim>\<open>xFileSize\<close>. The locale \<open>random_access_file\<close> is SQLite's contract;
    database, journal and WAL are its three interpretations and refine a byte array.
  \<^item> \<open>Journal_Cache\<close>: the cache of what is known about journals; it refines a map.
  \<^item> \<open>Sync\<close>: \<^verbatim>\<open>coalesceDirtyRanges\<close> and \<^verbatim>\<open>xSync\<close>; the ranges are an exact cover of the dirty bytes, and a failed sync
    keeps the dirty pages.
  \<^item> \<open>Locking\<close>: \<^verbatim>\<open>xLock\<close>, \<^verbatim>\<open>xUnlock\<close>, \<^verbatim>\<open>xCheckReservedLock\<close> and the revalidation of the cache.
  \<^item> \<open>File_Control\<close>, \<open>Vfs_Names\<close>, \<open>Vfs_Open\<close>: the remaining io methods, the name methods, \<^verbatim>\<open>xOpen\<close>, \<^verbatim>\<open>xClose\<close>, registration.
  \<^item> \<open>Vfs_Delegate\<close>: the methods that the default VFS carries out, which is a parameter.

  \<^bold>\<open>Theories of the backends.\<close>
  \<^item> \<open>Azure_Error\<close> (\<^verbatim>\<open>azure_error.c\<close>), \<open>Azure_Auth\<close> (\<^verbatim>\<open>azure_auth.c\<close>): classification and back-off; the string to sign.
  \<^item> \<open>Azure_Http\<close>, \<open>Azure_Client\<close>, \<open>Azure_Rest\<close>, \<open>Azure_Parallel\<close> (\<^verbatim>\<open>azure_client.c\<close>): buffers, headers, URLs and the retry
    loop; one attempt (\<^verbatim>\<open>execute_single\<close>); the operations of one request; the parallel transfers. libcurl, OpenSSL, the
    clock, the random source and the allocator are the fields of \<open>http_lib\<close>. The mutex is a flag, and a call that never
    returns is \<^term>\<open>None\<close>.
  \<^item> \<open>Mock_Azure\<close> (\<^verbatim>\<open>mock_azure_ops.c\<close>): blobs, leases, ETags, injected failures; it interprets the store and lease locales.
    \<open>Mock_Control\<close>: how the tests control and inspect it, down to the simulated clock that makes leases run out.
  \<^item> \<open>Azure_Stub\<close> (\<^verbatim>\<open>azure_client_stub.c\<close>).

  The command-line program (\<^verbatim>\<open>src/src/sqlite_objs_shell.c\<close>) registers the VFS and calls SQLite's shell; it is \<open>Shell\<close>.

  \<^bold>\<open>Theories about the composition.\<close>
  \<^item> \<open>Blob_Store\<close>: the contract of \<^verbatim>\<open>xSync\<close> with the page-blob operations (locales \<open>page_blob_store\<close> and its extension
    \<open>serving_store\<close>), and that a sync makes the blob equal to the cache file.
  \<^item> \<open>Durability\<close>: any writes followed by a sync leave exactly those bytes in the blob.
  \<^item> \<open>Lock_Protocol\<close>, \<open>Coherence\<close>: every file method is a sequence of \<open>call_step\<close>s and a reachable state is a sequence of
    \<open>file_step\<close>s; from the locales \<open>lease_provider\<close> and \<open>world_keeper\<close> follow that a lease fences other clients, that
    locks above SHARED are backed by a lease, and that a granted lock sees the current blob.
  \<^item> \<open>Session\<close>: whole connections, from \<^verbatim>\<open>xOpen\<close> over the locks, writes and sync to \<^verbatim>\<open>xClose\<close>. Transactions of different
    processes compose: each sees what all earlier ones committed, and a crashed holder of the lease blocks the others only
    until its lease has run out.
  \<^item> \<open>Cache_Reuse\<close>: cache files that are kept between connections; they save the download, but a close can give a stale one
    the current ETag.
  \<^item> \<open>Lazy_Cache\<close>: reading without prefetching, on the locale \<open>range_reader\<close>.
  \<^item> \<open>Recovery\<close>: a journal that was synced is found by the next process, on the locale \<open>journal_store\<close>.
  \<^item> \<open>Client_Text\<close>, \<open>Client_Transfers\<close>: text formats of the client, and what a reported success of a parallel transfer means.

  Each locale has its interpretation on the model's own definitions: \<open>page_set\<close> on the bitmap, \<open>random_access_file\<close> and
  \<open>quiet_file\<close> on the io methods, and the backend contracts on the mock.

  \<^bold>\<open>Failures.\<close> Local faults are a list in the environment and failures of Azure are results of the vtable, so a theorem
  without an assumption on them holds for every pattern of failures. Theorems that promise success assume \<open>no_faults\<close> or
  a mock without fault rules. Several theorems state what the code does wrong: a checksum table with repeated entries, a
  dirty mark lost after an allocation failure, a failed refresh or existence check that hides a change, a stale cache file kept
  under the current ETag, read-ahead that overwrites unsynced pages, and three flaws of the parallel transfers.

  \<^bold>\<open>Loops.\<close> Every loop is a total function with a termination proof, except the two doubling loops \<open>alloc_loop\<close> and
  \<open>grow_cap\<close>, which are partial functions shown to end for every size the code can ask for. There is no fuel. The retry loops are
  bounded by the constants of the source (\<^verbatim>\<open>AZURE_MAX_RETRIES\<close>, \<^verbatim>\<open>BATCH_MAX_RETRIES\<close>).

  \<^bold>\<open>Not modelled.\<close> Debug timing and messages; hooks
  compiled only into test builds; the formatting of dates and the sleeping between retries, which belong to the clock;
  freeing of memory; SQLite and its default VFS, libcurl, OpenSSL and the Azure service, which are parameters; the Rust bindings,
  benchmarks and prototypes. Threads are not interleaved inside a method: the code that shares state between threads holds
  a mutex around each access, and each such block is one step.
\<close>

end
